(* ===== verification/Prelude.thy ===== *)
theory Prelude
  imports Main "HOL-Library.Char_ord" "HOL-Library.List_Lexorder" "HOL-Library.AList"
    "HOL-Library.Sublist"
begin

text \<open>
  Shared ground of the development: error results, Go's maps as association lists, and the
  part of Go's standard library that the daemon uses on strings (\<open>strings\<close>, \<open>strconv\<close>,
  \<open>sort\<close>). A Go string is a sequence of bytes and so is a \<open>string\<close> here, so \<open>length\<close> is
  Go's \<open>len\<close> and \<open><\<close> (lexicographic on \<open>char\<close>) is Go's \<open><\<close>.
  Lower-casing is modelled on ASCII letters.
\<close>

section \<open>Collections of hints\<close>

named_theorems go_str \<open>equations of the string library\<close>
named_theorems frame \<open>which part of a state an operation leaves alone\<close>
named_theorems db_simps \<open>what a database operation leaves in each table\<close>
named_theorems wf_intros \<open>operations preserve the well-formedness of the database\<close>

section \<open>Errors and results\<close>

text \<open>A Go \<open>error\<close> is its message; wrapping with \<open>%w\<close> concatenates texts.\<close>

type_synonym error = string

type_synonym 'a result = "error + 'a"

section \<open>Go maps as association lists\<close>

text \<open>
  A \<open>map[string]string\<close> is an association list with distinct keys, in the order in which a
  \<open>range\<close> loop would visit it. Go leaves that order open: a theorem about every list with
  distinct keys is a theorem about every order.
\<close>

type_synonym smap = "(string \<times> string) list"

definition smap_ok :: "smap \<Rightarrow> bool" where
  "smap_ok m \<longleftrightarrow> distinct (map fst m)"

text \<open>\<open>m[k]\<close> of a missing key is the empty string.\<close>

definition smap_get :: "smap \<Rightarrow> string \<Rightarrow> string" where
  "smap_get m k = (case map_of m k of None \<Rightarrow> [] | Some v \<Rightarrow> v)"

lemma smap_ok_Nil [simp]: "smap_ok []"
  by (simp add: smap_ok_def)

lemma smap_ok_update [simp, intro]: "smap_ok m \<Longrightarrow> smap_ok (AList.update k v m)"
  by (simp add: smap_ok_def distinct_update)

lemma map_of_alist_update [simp]: "map_of (AList.update k v m) = (map_of m)(k \<mapsto> v)"
  by (simp add: update_conv')

lemma keys_alist_update [simp]: "fst ` set (AList.update k v m) = insert k (fst ` set m)"
  by (simp add: dom_update)

lemma map_of_in_keys: "map_of m k = Some v \<Longrightarrow> k \<in> fst ` set m"
  by (force dest: map_of_SomeD)

lemma map_of_eq_None: "map_of m k = None \<longleftrightarrow> k \<notin> fst ` set m"
  by (simp add: map_of_eq_None_iff)

section \<open>Strings\<close>

definition HasPrefix :: "string \<Rightarrow> string \<Rightarrow> bool" where
  "HasPrefix s p \<longleftrightarrow> take (length p) s = p"

definition HasSuffix :: "string \<Rightarrow> string \<Rightarrow> bool" where
  "HasSuffix s p \<longleftrightarrow> length p \<le> length s \<and> drop (length s - length p) s = p"

definition TrimPrefix :: "string \<Rightarrow> string \<Rightarrow> string" where
  "TrimPrefix s p = (if HasPrefix s p then drop (length p) s else s)"

definition TrimSuffix :: "string \<Rightarrow> string \<Rightarrow> string" where
  "TrimSuffix s p = (if HasSuffix s p then take (length s - length p) s else s)"

fun Contains :: "string \<Rightarrow> string \<Rightarrow> bool" where
  "Contains [] sub = (sub = [])"
| "Contains (c # s) sub = (HasPrefix (c # s) sub \<or> Contains s sub)"

definition ContainsAny :: "string \<Rightarrow> string \<Rightarrow> bool" where
  "ContainsAny s chars = list_ex (\<lambda>c. c \<in> set chars) s"

text \<open>\<open>ReplaceAll\<close> and \<open>Split\<close> are used with one-byte patterns only.\<close>

definition ReplaceAll :: "char \<Rightarrow> string \<Rightarrow> string \<Rightarrow> string" where
  "ReplaceAll old new s = concat (map (\<lambda>c. if c = old then new else [c]) s)"

fun split_on :: "char \<Rightarrow> string \<Rightarrow> string list" where
  "split_on c [] = [[]]"
| "split_on c (x # xs) =
     (if x = c then [] # split_on c xs
      else (case split_on c xs of [] \<Rightarrow> [[x]] | y # ys \<Rightarrow> (x # y) # ys))"

fun SplitN :: "nat \<Rightarrow> char \<Rightarrow> string \<Rightarrow> string list" where
  "SplitN 0 c s = []"
| "SplitN (Suc 0) c s = [s]"
| "SplitN (Suc (Suc n)) c s =
     (case dropWhile (\<lambda>x. x \<noteq> c) s of
        [] \<Rightarrow> [s]
      | _ # rest \<Rightarrow> takeWhile (\<lambda>x. x \<noteq> c) s # SplitN (Suc n) c rest)"

fun strings_Join :: "string list \<Rightarrow> string \<Rightarrow> string" where
  "strings_Join [] sep = []"
| "strings_Join [s] sep = s"
| "strings_Join (s # t # ts) sep = s @ sep @ strings_Join (t # ts) sep"

definition trim_left :: "(char \<Rightarrow> bool) \<Rightarrow> string \<Rightarrow> string" where
  "trim_left P s = dropWhile P s"

definition trim_right :: "(char \<Rightarrow> bool) \<Rightarrow> string \<Rightarrow> string" where
  "trim_right P s = rev (dropWhile P (rev s))"

definition strings_Trim :: "string \<Rightarrow> string \<Rightarrow> string" where
  "strings_Trim s cutset = trim_right (\<lambda>c. c \<in> set cutset) (trim_left (\<lambda>c. c \<in> set cutset) s)"

definition TrimRight :: "string \<Rightarrow> string \<Rightarrow> string" where
  "TrimRight s cutset = trim_right (\<lambda>c. c \<in> set cutset) s"

text \<open>
  \<open>TrimSpace\<close> removes the UTF-8 encodings of Unicode white space (\<open>unicode.IsSpace\<close>):
  the ASCII ones, U+0085, U+00A0, U+1680, U+2000 to U+200A, U+2028, U+2029, U+202F, U+205F
  and U+3000.
\<close>

definition space_runes :: "string list" where
  "space_runes =
     [[CHR 0x09], [CHR 0x0A], [CHR 0x0B], [CHR 0x0C], [CHR 0x0D], [CHR 0x20],
      [CHR 0xC2, CHR 0x85], [CHR 0xC2, CHR 0xA0], [CHR 0xE1, CHR 0x9A, CHR 0x80],
      [CHR 0xE2, CHR 0x80, CHR 0x80], [CHR 0xE2, CHR 0x80, CHR 0x81],
      [CHR 0xE2, CHR 0x80, CHR 0x82], [CHR 0xE2, CHR 0x80, CHR 0x83],
      [CHR 0xE2, CHR 0x80, CHR 0x84], [CHR 0xE2, CHR 0x80, CHR 0x85],
      [CHR 0xE2, CHR 0x80, CHR 0x86], [CHR 0xE2, CHR 0x80, CHR 0x87],
      [CHR 0xE2, CHR 0x80, CHR 0x88], [CHR 0xE2, CHR 0x80, CHR 0x89],
      [CHR 0xE2, CHR 0x80, CHR 0x8A], [CHR 0xE2, CHR 0x80, CHR 0xA8],
      [CHR 0xE2, CHR 0x80, CHR 0xA9], [CHR 0xE2, CHR 0x80, CHR 0xAF],
      [CHR 0xE2, CHR 0x81, CHR 0x9F], [CHR 0xE3, CHR 0x80, CHR 0x80]]"

text \<open>The length of the first of \<open>ws\<close> that \<open>s\<close> starts with, 0 if there is none.\<close>

fun match_len :: "string list \<Rightarrow> string \<Rightarrow> nat" where
  "match_len [] s = 0"
| "match_len (w # ws) s = (if HasPrefix s w then length w else match_len ws s)"

lemma match_len_le: "match_len ws s \<le> length s"
proof (induction ws)
  case (Cons w ws)
  have "HasPrefix s w \<Longrightarrow> length w \<le> length s"
    by (metis HasPrefix_def length_take min.cobounded1 min.commute)
  with Cons show ?case by simp
qed simp

function trim_runes :: "string list \<Rightarrow> string \<Rightarrow> string" where
  "trim_runes ws s = (if match_len ws s = 0 then s else trim_runes ws (drop (match_len ws s) s))"
  by pat_completeness auto
termination
  by (relation "measure (\<lambda>(ws, s). length s)")
     (auto, metis diff_less length_0_conv list.size(3) match_len_le not_gr_zero le_zero_eq)

declare trim_runes.simps [simp del]

definition TrimSpace :: "string \<Rightarrow> string" where
  "TrimSpace s = rev (trim_runes (map rev space_runes) (rev (trim_runes space_runes s)))"

definition lower_char :: "char \<Rightarrow> char" where
  "lower_char c = (if CHR ''A'' \<le> c \<and> c \<le> CHR ''Z'' then char_of ((of_char c :: nat) + 32) else c)"

definition ToLower :: "string \<Rightarrow> string" where
  "ToLower s = map lower_char s"

definition EqualFold :: "string \<Rightarrow> string \<Rightarrow> bool" where
  "EqualFold s t \<longleftrightarrow> ToLower s = ToLower t"

section \<open>Numbers as text\<close>

definition digit_char :: "nat \<Rightarrow> char" where
  "digit_char d = char_of (48 + d)"

fun nat_text :: "nat \<Rightarrow> string" where
  "nat_text n = (if n < 10 then [digit_char n] else nat_text (n div 10) @ [digit_char (n mod 10)])"

declare nat_text.simps [simp del]

definition Itoa :: "int \<Rightarrow> string" where
  "Itoa i = (if i < 0 then CHR ''-'' # nat_text (nat (- i)) else nat_text (nat i))"

definition is_digit :: "char \<Rightarrow> bool" where
  "is_digit c \<longleftrightarrow> CHR ''0'' \<le> c \<and> c \<le> CHR ''9''"

definition digits_value :: "string \<Rightarrow> nat" where
  "digits_value ds = foldl (\<lambda>n c. n * 10 + ((of_char c :: nat) - 48)) 0 ds"

definition int64_ok :: "int \<Rightarrow> bool" where
  "int64_ok i \<longleftrightarrow> - (2 ^ 63) \<le> i \<and> i < 2 ^ 63"

text \<open>\<open>strconv.Atoi\<close>: an optional sign, then one or more decimal digits, within 64 bits.\<close>

definition Atoi :: "string \<Rightarrow> int option" where
  "Atoi s =
     (let neg = HasPrefix s ''-'';
          ds = (if HasPrefix s ''-'' \<or> HasPrefix s ''+'' then drop 1 s else s);
          v = (if neg then - int (digits_value ds) else int (digits_value ds))
      in if ds = [] \<or> \<not> list_all is_digit ds \<or> \<not> int64_ok v then None else Some v)"

section \<open>Facts about strings\<close>

lemma HasPrefix_append [simp]: "HasPrefix (p @ s) p"
  by (simp add: HasPrefix_def)

lemma HasPrefix_iff: "HasPrefix s p \<longleftrightarrow> (\<exists>t. s = p @ t)"
  by (metis HasPrefix_append HasPrefix_def append_take_drop_id)

lemma HasPrefix_Nil [simp]: "HasPrefix s []" "HasPrefix [] p \<longleftrightarrow> p = []"
  by (auto simp: HasPrefix_def)

lemma HasPrefix_Cons [simp]: "HasPrefix (c # s) (d # p) \<longleftrightarrow> c = d \<and> HasPrefix s p"
  by (auto simp: HasPrefix_def)

lemma HasSuffix_iff: "HasSuffix s p \<longleftrightarrow> (\<exists>t. s = t @ p)"
proof
  assume "HasSuffix s p"
  then have "s = take (length s - length p) s @ p"
    unfolding HasSuffix_def by (metis append_take_drop_id)
  then show "\<exists>t. s = t @ p" ..
qed (auto simp: HasSuffix_def)

lemma TrimPrefix_append [simp]: "TrimPrefix (p @ s) p = s"
  by (simp add: TrimPrefix_def)

lemma split_on_not_Nil [simp]: "split_on c s \<noteq> []"
  by (induction s) (auto split: list.splits)

lemma strings_Join_Cons_head: "strings_Join ((x # a) # l) sep = x # strings_Join (a # l) sep"
  by (cases l) auto

lemma strings_Join_Nil_head: "l \<noteq> [] \<Longrightarrow> strings_Join ([] # l) sep = sep @ strings_Join l sep"
  by (cases l) auto

lemma join_split_on: "strings_Join (split_on c s) [c] = s"
proof (induction s)
  case (Cons x xs)
  then show ?case
    by (cases "split_on c xs") (auto simp: strings_Join_Cons_head)
qed simp

lemma split_on_no_sep: "c \<notin> set s \<Longrightarrow> split_on c s = [s]"
  by (induction s) auto

lemma split_on_append_sep: "split_on c (s @ c # t) = split_on c s @ split_on c t"
  by (induction s) (auto split: list.splits)

lemma split_on_sep_free: "x \<in> set (split_on c s) \<Longrightarrow> c \<notin> set x"
  by (induction s arbitrary: x) (auto split: if_splits list.splits)

lemma split_on_chars: "x \<in> set (split_on c s) \<Longrightarrow> set x \<subseteq> set s"
  by (induction s arbitrary: x) (fastforce split: if_splits list.splits)+

lemma split_on_join:
  assumes "ss \<noteq> []" "\<forall>s \<in> set ss. c \<notin> set s"
  shows "split_on c (strings_Join ss [c]) = ss"
  using assms
  by (induction ss "[c]" rule: strings_Join.induct)
     (auto simp: split_on_no_sep split_on_append_sep)

section \<open>Facts about numbers as text\<close>

lemma of_char_digit: "d < 10 \<Longrightarrow> (of_char (digit_char d) :: nat) = 48 + d"
  by (simp add: digit_char_def)

lemma is_digit_digit_char: "d < 10 \<Longrightarrow> is_digit (digit_char d)"
  by (simp add: is_digit_def less_eq_char_def of_char_digit)

lemma nat_text_not_Nil [simp]: "nat_text n \<noteq> []"
  by (subst nat_text.simps) simp

lemma nat_text_digits: "list_all is_digit (nat_text n)"
proof (induction n rule: nat_text.induct)
  case (1 n)
  then show ?case by (subst nat_text.simps) (simp add: is_digit_digit_char)
qed

lemma digits_value_append: "digits_value (ds @ [c]) = digits_value ds * 10 + (of_char c - 48)"
  by (simp add: digits_value_def)

lemma digits_value_nat_text: "digits_value (nat_text n) = n"
proof (induction n rule: nat_text.induct)
  case (1 n)
  show ?case
  proof (cases "n < 10")
    case True
    then show ?thesis by (subst nat_text.simps) (simp add: digits_value_def of_char_digit)
  next
    case False
    with 1 have "digits_value (nat_text (n div 10)) = n div 10" by simp
    with False show ?thesis
      by (subst nat_text.simps) (simp add: digits_value_append of_char_digit)
  qed
qed

lemma nat_text_no_sign: "\<not> HasPrefix (nat_text n) ''-''" "\<not> HasPrefix (nat_text n) ''+''"
proof -
  have hd: "is_digit (hd (nat_text n))"
    using nat_text_digits [of n] by (cases "nat_text n") auto
  obtain c cs where eq: "nat_text n = c # cs" by (cases "nat_text n") auto
  with hd have c: "is_digit c" by simp
  have neq: "c \<noteq> CHR ''-''" "c \<noteq> CHR ''+''"
    using c by (auto simp: is_digit_def less_eq_char_def)
  with eq show "\<not> HasPrefix (nat_text n) ''-''" "\<not> HasPrefix (nat_text n) ''+''" by auto
qed

lemma Atoi_Itoa: "int64_ok i \<Longrightarrow> Atoi (Itoa i) = Some i"
proof (cases "i < 0")
  case True
  assume "int64_ok i"
  with True show ?thesis
    by (simp add: Atoi_def Itoa_def nat_text_digits digits_value_nat_text Let_def)
next
  case False
  assume "int64_ok i"
  with False show ?thesis
    by (simp add: Atoi_def Itoa_def nat_text_digits digits_value_nat_text nat_text_no_sign Let_def)
qed

lemma Atoi_int64_ok: "Atoi s = Some i \<Longrightarrow> int64_ok i"
  by (auto simp: Atoi_def Let_def split: if_splits)

lemma Itoa_inj: "Itoa i = Itoa j \<Longrightarrow> i = j"
proof -
  assume eq: "Itoa i = Itoa j"
  have no: "CHR ''-'' # s \<noteq> nat_text n" for s n
    using nat_text_no_sign(1) [of n] by (metis HasPrefix_Cons HasPrefix_Nil(1))
  have inj: "nat_text m = nat_text n \<Longrightarrow> m = n" for m n
    by (metis digits_value_nat_text)
  show ?thesis
    using eq by (auto simp: Itoa_def no no [symmetric] split: if_splits dest!: inj)
qed

section \<open>Facts about trimming\<close>

text \<open>A visible ASCII character: not a space, nor a byte of a Unicode space.\<close>

definition graphic :: "char \<Rightarrow> bool" where
  "graphic c \<longleftrightarrow> CHR ''!'' \<le> c \<and> c \<le> CHR ''~''"

lemma match_len_miss:
  "list_all (\<lambda>w. w \<noteq> [] \<and> hd w \<noteq> c) ws \<Longrightarrow> match_len ws (c # s) = 0"
proof (induction ws)
  case (Cons w ws)
  then show ?case by (cases w) auto
qed simp

lemma trim_runes_miss:
  "list_all (\<lambda>w. w \<noteq> [] \<and> hd w \<noteq> c) ws \<Longrightarrow> trim_runes ws (c # s) = c # s"
  by (subst trim_runes.simps) (simp add: match_len_miss)

lemma graphic_not_space:
  assumes "graphic c"
  shows "list_all (\<lambda>w. w \<noteq> [] \<and> hd w \<noteq> c) space_runes"
    and "list_all (\<lambda>w. w \<noteq> [] \<and> hd w \<noteq> c) (map rev space_runes)"
  using assms by (auto simp: space_runes_def graphic_def less_eq_char_def)

lemma TrimSpace_graphic:
  assumes "s \<noteq> ''''" "graphic (hd s)" "graphic (last s)"
  shows "TrimSpace s = s"
proof -
  obtain c t where s: "s = c # t" using assms(1) by (cases s) auto
  obtain d u where r: "rev s = d # u" using assms(1) by (cases "rev s") auto
  have d: "graphic d" using r assms(3) by (metis hd_rev list.sel(1))
  have c: "graphic c" using s assms(2) by simp
  have "trim_runes space_runes s = s"
    unfolding s by (rule trim_runes_miss [OF graphic_not_space(1) [OF c]])
  moreover have "trim_runes (map rev space_runes) (rev s) = rev s"
    unfolding r by (rule trim_runes_miss [OF graphic_not_space(2) [OF d]])
  ultimately show ?thesis by (simp add: TrimSpace_def)
qed

lemma match_len_blank: "match_len space_runes (CHR '' '' # s) = 1" "match_len space_runes (CHR 0x09 # s) = 1"
  by (simp_all add: space_runes_def)

lemma TrimSpace_indent:
  "list_all (\<lambda>c. c = CHR '' '' \<or> c = CHR 0x09) ind \<Longrightarrow> TrimSpace (ind @ s) = TrimSpace s"
proof (induction ind)
  case (Cons c ind)
  have "trim_runes space_runes (c # t) = trim_runes space_runes t" for t
    using Cons.prems by (subst trim_runes.simps) (auto simp: match_len_blank)
  with Cons show ?case by (simp add: TrimSpace_def)
qed simp

section \<open>64-bit integers\<close>

text \<open>Arithmetic on Go's \<open>int\<close> and \<open>time.Duration\<close> wraps around.\<close>

definition wrap64 :: "int \<Rightarrow> int" where
  "wrap64 i = (i + 2 ^ 63) mod 2 ^ 64 - 2 ^ 63"

lemma wrap64_id: "int64_ok i \<Longrightarrow> wrap64 i = i"
  by (simp add: wrap64_def int64_ok_def)

lemma wrap64_ok: "int64_ok (wrap64 i)"
  using pos_mod_bound [of "2 ^ 64 :: int" "i + 2 ^ 63"] by (simp add: wrap64_def int64_ok_def)

text \<open>
  \<open>%q\<close> of a string, as \<open>strconv.Quote\<close> writes it; bytes from \<open>0x80\<close> on are kept as they are
  (Go escapes those that are not printable UTF-8).
\<close>

definition hex_digit :: "nat \<Rightarrow> char" where
  "hex_digit n = ''0123456789abcdef'' ! (n mod 16)"

definition quote_char :: "char \<Rightarrow> string" where
  "quote_char c =
     (let n = (of_char c :: nat) in
      if c = CHR 0x22 \<or> c = CHR 0x5C then [CHR 0x5C, c]
      else if n = 7 then [CHR 0x5C, CHR ''a''] else if n = 8 then [CHR 0x5C, CHR ''b'']
      else if n = 12 then [CHR 0x5C, CHR ''f''] else if n = 10 then [CHR 0x5C, CHR ''n'']
      else if n = 13 then [CHR 0x5C, CHR ''r''] else if n = 9 then [CHR 0x5C, CHR ''t'']
      else if n = 11 then [CHR 0x5C, CHR ''v'']
      else if n < 32 \<or> n = 127 then [CHR 0x5C, CHR ''x'', hex_digit (n div 16), hex_digit n]
      else [c])"

definition Quote :: "string \<Rightarrow> string" where
  "Quote s = CHR 0x22 # concat (map quote_char s) @ [CHR 0x22]"

end
