(* ===== verification/Go_Path.thy ===== *)
theory Go_Path
  imports Prelude
begin

text \<open>
  The part of \<open>path/filepath\<close> (Unix) that the daemon uses: \<open>IsAbs\<close>, \<open>Clean\<close>, \<open>Join\<close>,
  \<open>Dir\<close>, \<open>Base\<close> and \<open>Rel\<close>. A path is processed component by component; \<open>clean_step\<close>
  keeps the components seen so far as a stack, innermost first. The lemmas say when a
  joined path stays below its base, which the volume, tunnel and bundle code rely on.
\<close>

section \<open>Operations\<close>

definition IsAbs :: "string \<Rightarrow> bool" where
  "IsAbs p \<longleftrightarrow> HasPrefix p ''/''"

definition clean_step :: "bool \<Rightarrow> string list \<Rightarrow> string \<Rightarrow> string list" where
  "clean_step rooted st c =
     (if c = '''' \<or> c = ''.'' then st
      else if c = ''..'' then
        (case st of
           [] \<Rightarrow> if rooted then [] else [''..'']
         | t # ts \<Rightarrow> if t = ''..'' then ''..'' # st else ts)
      else c # st)"

definition clean_stack :: "bool \<Rightarrow> string list \<Rightarrow> string \<Rightarrow> string list" where
  "clean_stack rooted st p = foldl (clean_step rooted) st (split_on CHR ''/'' p)"

definition render_path :: "bool \<Rightarrow> string list \<Rightarrow> string" where
  "render_path rooted cs =
     (if rooted then ''/'' @ strings_Join cs ''/''
      else if cs = [] then ''.'' else strings_Join cs ''/'')"

definition Clean :: "string \<Rightarrow> string" where
  "Clean p = render_path (IsAbs p) (rev (clean_stack (IsAbs p) [] p))"

text \<open>\<open>filepath.Join\<close> of two elements; empty ones are ignored.\<close>

definition Join2 :: "string \<Rightarrow> string \<Rightarrow> string" where
  "Join2 a b = (if a \<noteq> '''' then Clean (a @ ''/'' @ b) else if b \<noteq> '''' then Clean b else '''')"

definition upto_last_slash :: "string \<Rightarrow> string" where
  "upto_last_slash p = rev (dropWhile (\<lambda>c. c \<noteq> CHR ''/'') (rev p))"

definition after_last_slash :: "string \<Rightarrow> string" where
  "after_last_slash p = rev (takeWhile (\<lambda>c. c \<noteq> CHR ''/'') (rev p))"

text \<open>\<open>filepath.Dir\<close> and \<open>filepath.Base\<close>.\<close>

definition DirOf :: "string \<Rightarrow> string" where
  "DirOf p = Clean (upto_last_slash p)"

definition BaseOf :: "string \<Rightarrow> string" where
  "BaseOf p =
     (if p = '''' then ''.''
      else let b = after_last_slash (TrimRight p ''/'') in if b = '''' then ''/'' else b)"

text \<open>\<open>filepath.Rel\<close>: \<open>Inl\<close> when the target cannot be made relative to the base.\<close>

definition rel_comps :: "string \<Rightarrow> string list" where
  "rel_comps p = filter (\<lambda>c. c \<noteq> '''') (split_on CHR ''/'' p)"

fun drop_common :: "string list \<Rightarrow> string list \<Rightarrow> string list \<times> string list" where
  "drop_common (b # bs) (t # ts) = (if b = t then drop_common bs ts else (b # bs, t # ts))"
| "drop_common bs ts = (bs, ts)"

definition Rel :: "string \<Rightarrow> string \<Rightarrow> string result" where
  "Rel basepath targpath =
     (let base = Clean basepath; targ = Clean targpath in
      if targ = base then Inr ''.''
      else let base' = (if base = ''.'' then '''' else base) in
      if IsAbs base' \<noteq> IsAbs targ
      then Inl (''Rel: can't make '' @ targpath @ '' relative to '' @ basepath)
      else (case drop_common (rel_comps base') (rel_comps targ) of (bs, ts) \<Rightarrow>
        if bs \<noteq> [] \<and> hd bs = ''..''
        then Inl (''Rel: can't make '' @ targpath @ '' relative to '' @ basepath)
        else Inr (strings_Join (map (\<lambda>_. ''..'') bs @ ts) ''/'')))"

section \<open>Clean paths\<close>

text \<open>A component as it can stand in a cleaned path.\<close>

definition comp_ok :: "string \<Rightarrow> bool" where
  "comp_ok c \<longleftrightarrow> c \<noteq> '''' \<and> c \<noteq> ''.'' \<and> CHR ''/'' \<notin> set c"

definition plain_comp :: "string \<Rightarrow> bool" where
  "plain_comp c \<longleftrightarrow> comp_ok c \<and> c \<noteq> ''..''"

text \<open>The stacks that cleaning reaches: plain components above a run of \<open>..\<close>.\<close>

definition stack_ok :: "bool \<Rightarrow> string list \<Rightarrow> bool" where
  "stack_ok rooted st \<longleftrightarrow>
     (\<exists>n ps. st = ps @ replicate n ''..'' \<and> list_all plain_comp ps \<and> (rooted \<longrightarrow> n = 0))"

lemma stack_okI:
  "list_all plain_comp ps \<Longrightarrow> (r \<longrightarrow> n = 0) \<Longrightarrow> stack_ok r (ps @ replicate n ''..'')"
  unfolding stack_ok_def by blast

lemma stack_okE:
  assumes "stack_ok r st"
  obtains n ps where "st = ps @ replicate n ''..''" "list_all plain_comp ps" "r \<longrightarrow> n = 0"
  using assms unfolding stack_ok_def by blast

lemma stack_ok_Nil [simp]: "stack_ok r []"
  using stack_okI [of "[]" r 0] by simp

lemma stack_ok_comps: "stack_ok r st \<Longrightarrow> c \<in> set st \<Longrightarrow> comp_ok c"
proof (erule stack_okE)
  fix n ps
  assume "c \<in> set st" "st = ps @ replicate n ''..''" "list_all plain_comp ps"
  then consider "c = ''..''" | "plain_comp c"
    by (force simp: list_all_iff)
  then show "comp_ok c"
    by cases (simp_all add: comp_ok_def plain_comp_def)
qed

lemma stack_ok_step:
  assumes "stack_ok r st" "CHR ''/'' \<notin> set c"
  shows "stack_ok r (clean_step r st c)"
proof -
  obtain n ps where st: "st = ps @ replicate n ''..''" and ps: "list_all plain_comp ps"
    and r: "r \<longrightarrow> n = 0"
    using assms(1) by (rule stack_okE)
  consider "c = '''' \<or> c = ''.''" | "c = ''..''" | "c \<noteq> ''''" "c \<noteq> ''.''" "c \<noteq> ''..''"
    by blast
  then show ?thesis
  proof cases
    case 1
    then show ?thesis using assms(1) by (auto simp: clean_step_def)
  next
    case 3
    then have "plain_comp c" using assms(2) by (simp add: plain_comp_def comp_ok_def)
    then have "stack_ok r ((c # ps) @ replicate n ''..'')" using ps r by (intro stack_okI) auto
    with 3 st show ?thesis by (simp add: clean_step_def)
  next
    case 2
    show ?thesis
    proof (cases ps)
      case (Cons p qs)
      then have "p \<noteq> ''..''" "list_all plain_comp qs" using ps by (auto simp: plain_comp_def)
      with 2 st r Cons show ?thesis by (simp add: clean_step_def stack_okI)
    next
      case Nil
      show ?thesis
      proof (cases n)
        case 0
        with Nil st 2 stack_okI [of "[]" r "if r then 0 else 1"] show ?thesis
          by (auto simp: clean_step_def)
      next
        case (Suc m)
        with Nil st 2 r stack_okI [of "[]" r "Suc n"] show ?thesis
          by (auto simp: clean_step_def)
      qed
    qed
  qed
qed

lemma stack_ok_foldl:
  "stack_ok r st \<Longrightarrow> \<forall>c \<in> set cs. CHR ''/'' \<notin> set c \<Longrightarrow> stack_ok r (foldl (clean_step r) st cs)"
  by (induction cs arbitrary: st) (auto intro: stack_ok_step)

lemma stack_ok_clean_stack: "stack_ok r st \<Longrightarrow> stack_ok r (clean_stack r st p)"
  unfolding clean_stack_def by (rule stack_ok_foldl) (auto dest: split_on_sep_free)

text \<open>Pushing components that need no cleaning just extends the stack.\<close>

lemma foldl_clean_plain:
  "list_all plain_comp cs \<Longrightarrow> foldl (clean_step r) st cs = rev cs @ st"
  by (induction cs arbitrary: st) (auto simp: clean_step_def plain_comp_def comp_ok_def)

lemma foldl_clean_dots:
  "foldl (clean_step False) (replicate k ''..'') (replicate n ''..'') = replicate (n + k) ''..''"
proof (induction n arbitrary: k)
  case (Suc n)
  have "clean_step False (replicate k ''..'') ''..'' = replicate (Suc k) ''..''"
    by (cases k) (auto simp: clean_step_def)
  with Suc [of "Suc k"] show ?case by simp
qed simp

lemma foldl_clean_stack_ok:
  assumes "stack_ok r st"
  shows "foldl (clean_step r) [] (rev st) = st"
proof -
  obtain n ps where st: "st = ps @ replicate n ''..''" and ps: "list_all plain_comp ps"
    and r: "r \<longrightarrow> n = 0"
    using assms by (rule stack_okE)
  have "foldl (clean_step r) [] (replicate n ''..'') = replicate n ''..''"
    using foldl_clean_dots [of 0 n] r by (cases r) auto
  moreover have "list_all plain_comp (rev ps)" using ps by (simp add: list_all_iff)
  ultimately show ?thesis by (simp add: st foldl_clean_plain)
qed

lemma comps_no_slash: "stack_ok r st \<Longrightarrow> \<forall>c \<in> set (rev st). CHR ''/'' \<notin> set c"
  by (auto dest!: stack_ok_comps simp: comp_ok_def)

lemma join_not_abs:
  "list_all comp_ok cs \<Longrightarrow> \<not> IsAbs (strings_Join cs s)"
  by (cases "(cs, s)" rule: strings_Join.cases) (auto simp: IsAbs_def HasPrefix_def comp_ok_def neq_Nil_conv)

lemma IsAbs_render: "list_all comp_ok cs \<Longrightarrow> IsAbs (render_path r cs) = r"
  using join_not_abs [of cs "''/''"]
  by (cases r) (simp_all add: render_path_def IsAbs_def)

lemma IsAbs_Clean [simp]: "IsAbs (Clean p) = IsAbs p"
proof -
  have "stack_ok (IsAbs p) (clean_stack (IsAbs p) [] p)" by (simp add: stack_ok_clean_stack)
  then have "list_all comp_ok (rev (clean_stack (IsAbs p) [] p))"
    by (auto simp: list_all_iff dest: stack_ok_comps)
  then show ?thesis unfolding Clean_def by (rule IsAbs_render)
qed

lemma clean_stack_render:
  assumes "stack_ok r st"
  shows "clean_stack r [] (render_path r (rev st)) = st"
proof (cases "st = []")
  case True
  then show ?thesis
    by (auto simp: render_path_def clean_stack_def clean_step_def)
next
  case False
  with assms have sp: "split_on CHR ''/'' (strings_Join (rev st) ''/'') = rev st"
    by (intro split_on_join comps_no_slash) auto
  have step: "clean_step r [] [] = []" for r by (simp add: clean_step_def)
  show ?thesis
    using False sp foldl_clean_stack_ok [OF assms]
    by (cases r) (simp_all add: render_path_def clean_stack_def step)
qed

text \<open>\<open>Clean\<close> is idempotent.\<close>

lemma Clean_Clean [simp]: "Clean (Clean p) = Clean p"
proof -
  have ok: "stack_ok (IsAbs p) (clean_stack (IsAbs p) [] p)" by (simp add: stack_ok_clean_stack)
  have "clean_stack (IsAbs p) [] (Clean p) = clean_stack (IsAbs p) [] p"
    using clean_stack_render [OF ok] by (simp add: Clean_def)
  then show ?thesis by (simp add: Clean_def [of "Clean p"]) (simp add: Clean_def)
qed

section \<open>Relative paths that stay below their base\<close>

text \<open>A cleaned relative path that names something below the base.\<close>

definition below_path :: "string \<Rightarrow> bool" where
  "below_path n \<longleftrightarrow>
     Clean n = n \<and> \<not> IsAbs n \<and> n \<noteq> ''.'' \<and> n \<noteq> ''..'' \<and> \<not> HasPrefix n ''../''"

text \<open>The components of a cleaned path, outermost first.\<close>

definition path_comps :: "string \<Rightarrow> string list" where
  "path_comps p = rev (clean_stack (IsAbs p) [] p)"

lemma Clean_render: "Clean p = render_path (IsAbs p) (path_comps p)"
  by (simp add: Clean_def path_comps_def)

lemma path_comps_ok: "stack_ok (IsAbs p) (rev (path_comps p))"
  by (simp add: path_comps_def stack_ok_clean_stack)

lemma path_comps_Clean [simp]: "path_comps (Clean p) = path_comps p"
proof -
  have "IsAbs (render_path (IsAbs p) (path_comps p)) = IsAbs p"
    using IsAbs_Clean [of p] by (simp only: Clean_render)
  then show ?thesis
    using clean_stack_render [OF path_comps_ok [of p]]
    by (simp add: Clean_render path_comps_def [of "render_path _ _"])
qed

lemma clean_stack_append:
  "clean_stack r st (a @ CHR ''/'' # b) = clean_stack r (clean_stack r st a) b"
  by (simp add: clean_stack_def split_on_append_sep)

lemma below_path_comps:
  assumes "below_path n"
  obtains cs where "cs \<noteq> []" "list_all plain_comp cs" "n = strings_Join cs ''/''"
    "split_on CHR ''/'' n = cs"
proof -
  from assms have n: "Clean n = n" "\<not> IsAbs n" "n \<noteq> ''.''" "n \<noteq> ''..''" "\<not> HasPrefix n ''../''"
    by (auto simp: below_path_def)
  let ?cs = "path_comps n"
  have eq: "n = render_path False ?cs" using n(1,2) Clean_render [of n] by simp
  then have ne: "?cs \<noteq> []" using n(3) by (auto simp: render_path_def)
  with eq have join: "n = strings_Join ?cs ''/''" by (simp add: render_path_def)
  obtain k ps where st: "rev ?cs = ps @ replicate k ''..''" and ps: "list_all plain_comp ps"
    using path_comps_ok [of n] by (rule stack_okE)
  have cs: "?cs = replicate k ''..'' @ rev ps"
    using arg_cong [OF st, of rev] by simp
  have "k = 0"
  proof (rule ccontr)
    assume "k \<noteq> 0"
    then obtain tl where "?cs = ''..'' # tl" using cs by (cases k) auto
    then have "n = ''..'' \<or> HasPrefix n ''../''"
      using join by (cases tl) auto
    with n(4,5) show False by blast
  qed
  with cs ps have plain: "list_all plain_comp ?cs" by (simp add: list_all_iff)
  then have "split_on CHR ''/'' n = ?cs"
    using ne by (subst join, intro split_on_join) (auto simp: list_all_iff plain_comp_def comp_ok_def)
  with ne plain join show thesis by (rule that)
qed

lemma below_pathI:
  assumes "cs \<noteq> []" "list_all plain_comp cs"
  shows "below_path (strings_Join cs ''/'')"
proof -
  let ?n = "strings_Join cs ''/''"
  have ok: "list_all comp_ok cs" using assms(2) by (auto simp: list_all_iff plain_comp_def)
  have rel: "\<not> IsAbs ?n" using ok by (rule join_not_abs)
  have sp: "split_on CHR ''/'' ?n = cs"
    using assms ok by (intro split_on_join) (auto simp: list_all_iff comp_ok_def)
  have "Clean ?n = ?n"
    using rel sp assms by (simp add: Clean_def clean_stack_def foldl_clean_plain render_path_def)
  moreover have "?n \<noteq> ''.''" "?n \<noteq> ''..''"
    using sp assms(2) by (auto simp: plain_comp_def comp_ok_def)
  moreover have "\<not> HasPrefix ?n ''../''"
  proof
    assume "HasPrefix ?n ''../''"
    then obtain t where t: "?n = ''../'' @ t" by (auto simp: HasPrefix_iff)
    have "split_on CHR ''/'' ?n = ''..'' # split_on CHR ''/'' t" by (simp add: t)
    with sp assms(2) show False by (auto simp: plain_comp_def)
  qed
  ultimately show ?thesis using rel by (simp add: below_path_def)
qed

text \<open>The components of a joined path: those of the base, then those of the name.\<close>

lemma Join2_comps:
  assumes "a \<noteq> ''''" "below_path n"
  shows "path_comps (Join2 a n) = path_comps a @ split_on CHR ''/'' n"
    and "Join2 a n = render_path (IsAbs a) (path_comps a @ split_on CHR ''/'' n)"
proof -
  obtain cs where cs: "cs \<noteq> []" "list_all plain_comp cs" "split_on CHR ''/'' n = cs"
    using assms(2) by (rule below_path_comps)
  have abs: "IsAbs (a @ CHR ''/'' # n) = IsAbs a"
    using assms(1) by (cases a) (auto simp: IsAbs_def)
  have st: "clean_stack (IsAbs a) [] (a @ CHR ''/'' # n) = rev cs @ clean_stack (IsAbs a) [] a"
    using cs by (simp add: clean_stack_append clean_stack_def [of _ _ n] foldl_clean_plain)
  then have comps: "path_comps (a @ CHR ''/'' # n) = path_comps a @ split_on CHR ''/'' n"
    using cs abs by (simp add: path_comps_def)
  then show "path_comps (Join2 a n) = path_comps a @ split_on CHR ''/'' n"
    using assms(1) by (simp add: Join2_def)
  show "Join2 a n = render_path (IsAbs a) (path_comps a @ split_on CHR ''/'' n)"
    using assms(1) comps abs by (simp add: Join2_def Clean_render)
qed

lemma strings_Join_append:
  "xs \<noteq> [] \<Longrightarrow> ys \<noteq> [] \<Longrightarrow> strings_Join (xs @ ys) s = strings_Join xs s @ s @ strings_Join ys s"
proof (induction xs s rule: strings_Join.induct)
  case (2 s sep)
  then show ?case by (cases ys) auto
qed auto

lemma split_on_comps:
  "cs \<noteq> [] \<Longrightarrow> list_all comp_ok cs \<Longrightarrow> split_on CHR ''/'' (strings_Join cs ''/'') = cs"
  by (intro split_on_join) (auto simp: list_all_iff comp_ok_def)

lemma join_comps_text:
  assumes "cs \<noteq> []" "list_all comp_ok cs"
  shows "strings_Join cs ''/'' \<noteq> ''''" "strings_Join cs ''/'' \<noteq> ''.''"
proof -
  show "strings_Join cs ''/'' \<noteq> ''''"
  proof
    assume "strings_Join cs ''/'' = ''''"
    then have "cs = ['''']" using split_on_comps [OF assms] by simp
    with assms(2) show False by (simp add: comp_ok_def)
  qed
  show "strings_Join cs ''/'' \<noteq> ''.''"
  proof
    assume "strings_Join cs ''/'' = ''.''"
    then have "cs = [''.'']" using split_on_comps [OF assms] by simp
    with assms(2) show False by (simp add: comp_ok_def)
  qed
qed

lemma path_comps_all_ok: "list_all comp_ok (path_comps a)"
  using path_comps_ok [of a] by (auto simp: list_all_iff stack_ok_comps)

lemma Clean_not_empty: "Clean p \<noteq> ''''"
proof (cases "IsAbs p \<or> path_comps p = []")
  case True
  then show ?thesis by (auto simp: Clean_render render_path_def)
next
  case False
  then obtain c cs where "path_comps p = c # cs" "comp_ok c"
    using path_comps_all_ok [of p] by (cases "path_comps p") auto
  with False show ?thesis by (cases cs) (auto simp: Clean_render render_path_def comp_ok_def)
qed

lemma Clean_eq_dot: "Clean a = ''.'' \<longleftrightarrow> path_comps a = [] \<and> \<not> IsAbs a"
  using join_comps_text [OF _ path_comps_all_ok [of a]]
  by (auto simp: Clean_render render_path_def)

text \<open>Joining a name below the base gives a path that literally extends the cleaned base.\<close>

lemma Join2_below:
  assumes "a \<noteq> ''''" "below_path n"
  shows "Join2 a n =
    (if Clean a = ''/'' then ''/'' @ n else if Clean a = ''.'' then n else Clean a @ ''/'' @ n)"
proof -
  obtain cs where cs: "cs \<noteq> []" "split_on CHR ''/'' n = cs" "n = strings_Join cs ''/''"
    using assms(2) by (rule below_path_comps)
  show ?thesis
  proof (cases "path_comps a = []")
    case True
    then show ?thesis
      using cs Join2_comps(2) [OF assms] by (simp add: Clean_render render_path_def)
  next
    case False
    then have "Clean a \<noteq> ''/''" "Clean a \<noteq> ''.''"
      using False join_comps_text [OF _ path_comps_all_ok [of a]]
        join_not_abs [OF path_comps_all_ok [of a], of "''/''"]
      by (auto simp: Clean_render render_path_def IsAbs_def)
    then show ?thesis
      using cs False Join2_comps(2) [OF assms]
      by (simp add: Clean_render render_path_def strings_Join_append)
  qed
qed

text \<open>\<open>Rel\<close> recovers the name: packing and unpacking agree on where a file lives.\<close>

lemma drop_common_append: "drop_common bs (bs @ ts) = ([], ts)"
proof (induction bs)
  case Nil
  then show ?case by (cases ts) simp_all
qed simp

lemma rel_comps_render:
  assumes "list_all comp_ok cs" "cs \<noteq> [] \<or> r"
  shows "rel_comps (render_path r cs) = cs"
proof (cases "cs = []")
  case True
  then show ?thesis using assms by (simp add: rel_comps_def render_path_def)
next
  case False
  with assms have sp: "split_on CHR ''/'' (strings_Join cs ''/'') = cs"
    by (intro split_on_comps)
  have "filter (\<lambda>c. c \<noteq> '''') cs = cs"
    using assms(1) by (auto simp: filter_id_conv list_all_iff comp_ok_def)
  with sp False show ?thesis
    by (cases r) (simp_all add: rel_comps_def render_path_def)
qed

lemma Rel_Join2:
  assumes "a \<noteq> ''''" "below_path n"
  shows "Rel a (Join2 a n) = Inr n"
proof -
  obtain cs where cs: "cs \<noteq> []" "list_all plain_comp cs" "split_on CHR ''/'' n = cs"
    "n = strings_Join cs ''/''"
    using assms(2) by (rule below_path_comps)
  let ?b = "path_comps a"
  have okb: "list_all comp_ok ?b" by (rule path_comps_all_ok)
  have okc: "list_all comp_ok cs" using cs(2) by (auto simp: list_all_iff plain_comp_def)
  have J: "Join2 a n = render_path (IsAbs a) (?b @ cs)"
    using Join2_comps(2) [OF assms] cs(3) by simp
  have CJ: "Clean (Join2 a n) = Join2 a n" using assms(1) by (simp add: Join2_def)
  have absJ: "IsAbs (Join2 a n) = IsAbs a"
    unfolding J using okb okc by (intro IsAbs_render) simp
  have tcomps: "rel_comps (Join2 a n) = ?b @ cs"
    unfolding J using okb okc cs(1) by (intro rel_comps_render) auto
  let ?base = "if Clean a = ''.'' then '''' else Clean a"
  note dot = Clean_eq_dot [of a]
  have bcomps: "rel_comps ?base = ?b"
  proof (cases "Clean a = ''.''")
    case True
    then show ?thesis using dot by (simp add: rel_comps_def)
  next
    case False
    then have "?b \<noteq> [] \<or> IsAbs a" using dot by blast
    with False okb show ?thesis by (simp add: Clean_render rel_comps_render)
  qed
  have absb: "IsAbs ?base = IsAbs a"
    using dot IsAbs_Clean [of a] by (cases "Clean a = ''.''") (auto simp: IsAbs_def [of "''''"])
  have "Join2 a n \<noteq> Clean a"
  proof
    assume "Join2 a n = Clean a"
    then have "path_comps (Join2 a n) = path_comps a" by simp
    with Join2_comps(1) [OF assms] cs(1,3) show False by simp
  qed
  then show ?thesis
    using tcomps bcomps absJ absb CJ cs(4) by (simp add: Rel_def Let_def drop_common_append)
qed

end
