(* ===== verification/Bbsit_Types.thy ===== *)
theory Bbsit_Types
  imports Go_Path
begin

text \<open>
  The data types of \<open>internal/types/types.go\<close> and the events of
  \<open>internal/deployer/listener.go\<close>. A Go struct is a \<open>record\<close> with the struct's fields under
  a short prefix; a named string type is a \<open>datatype\<close> of its constants. \<open>ConfigMode\<close> and
  \<open>HealthType\<close> also come from user input, so they have a constructor for any other text
  (the empty string included). Times are nanoseconds since the epoch. A nil map or nil slice
  is \<open>None\<close> where the code tells it from an empty one (\<open>EnvVars\<close>, \<open>SecretEnvKeys\<close>), and the
  empty list where it does not.
\<close>

section \<open>Named string types\<close>

datatype ConfigMode = ConfigModeForm | ConfigModeCustom | ConfigModeOther string

datatype ProjectStatus =
    StatusUnknown | StatusRunning | StatusStopped | StatusStopping | StatusStarting
  | StatusDeploying | StatusFailed | StatusRolledBack

datatype DeployTrigger = TriggerPoll | TriggerManual | TriggerStartup

datatype DeployStatus = DeploySuccess | DeployFailed | DeployRolledBack | DeployInProgress

datatype HealthType = HealthHTTP | HealthTCP | HealthNone | HealthOther string

datatype BackupStatus = BackupInProgress | BackupSuccess | BackupFailed

text \<open>The text of each constant, as it is stored, sent and logged.\<close>

fun ConfigMode_text :: "ConfigMode \<Rightarrow> string" where
  "ConfigMode_text ConfigModeForm = ''form''"
| "ConfigMode_text ConfigModeCustom = ''custom''"
| "ConfigMode_text (ConfigModeOther s) = s"

fun ProjectStatus_text :: "ProjectStatus \<Rightarrow> string" where
  "ProjectStatus_text StatusUnknown = ''unknown''"
| "ProjectStatus_text StatusRunning = ''running''"
| "ProjectStatus_text StatusStopped = ''stopped''"
| "ProjectStatus_text StatusStopping = ''stopping''"
| "ProjectStatus_text StatusStarting = ''starting''"
| "ProjectStatus_text StatusDeploying = ''deploying''"
| "ProjectStatus_text StatusFailed = ''failed''"
| "ProjectStatus_text StatusRolledBack = ''rolled_back''"

fun HealthType_text :: "HealthType \<Rightarrow> string" where
  "HealthType_text HealthHTTP = ''http''"
| "HealthType_text HealthTCP = ''tcp''"
| "HealthType_text HealthNone = ''none''"
| "HealthType_text (HealthOther s) = s"

text \<open>The statuses form a finite type, so statements about all of them evaluate.\<close>

instantiation ProjectStatus :: enum
begin

definition enum_ProjectStatus :: "ProjectStatus list" where
  "enum_ProjectStatus =
     [StatusUnknown, StatusRunning, StatusStopped, StatusStopping, StatusStarting,
      StatusDeploying, StatusFailed, StatusRolledBack]"

definition enum_all_ProjectStatus :: "(ProjectStatus \<Rightarrow> bool) \<Rightarrow> bool" where
  "enum_all_ProjectStatus P = list_all P enum_class.enum"

definition enum_ex_ProjectStatus :: "(ProjectStatus \<Rightarrow> bool) \<Rightarrow> bool" where
  "enum_ex_ProjectStatus P = list_ex P enum_class.enum"

instance
proof
  show univ: "(UNIV :: ProjectStatus set) = set enum_class.enum"
    by (auto simp: enum_ProjectStatus_def intro: ProjectStatus.exhaust)
  show "distinct (enum_class.enum :: ProjectStatus list)"
    by (simp add: enum_ProjectStatus_def)
  show "enum_class.enum_all P = Ball UNIV P" for P :: "ProjectStatus \<Rightarrow> bool"
    unfolding enum_all_ProjectStatus_def list_all_iff univ [symmetric] by simp
  show "enum_class.enum_ex P = Bex UNIV P" for P :: "ProjectStatus \<Rightarrow> bool"
    unfolding enum_ex_ProjectStatus_def list_ex_iff univ [symmetric] by simp
qed

end

lemma ProjectStatus_text_inj: "ProjectStatus_text a = ProjectStatus_text b \<longleftrightarrow> a = b"
  by (cases a; cases b) simp_all

section \<open>Projects\<close>

record PortMapping =
  pm_HostPort :: string
  pm_ContainerPort :: int
  pm_Protocol :: string

record VolumeMount =
  vm_HostPath :: string
  vm_ContainerPath :: string
  vm_ReadOnly :: bool

record BackupSpec =
  bs_Service :: string
  bs_BackupCommand :: string
  bs_RestoreCommand :: string
  bs_OutputPath :: string
  bs_OutputPattern :: string
  bs_User :: string
  bs_TimeoutSec :: int

record BackupRun =
  br_ID :: nat
  br_ProjectID :: string
  br_Status :: BackupStatus
  br_Trigger :: string
  br_FilePath :: string
  br_Bytes :: int
  br_SHA256 :: string
  br_StartedAt :: int
  br_EndedAt :: "int option"
  br_Error :: string

record BackupFile =
  bf_Name :: string
  bf_Path :: string
  bf_Bytes :: int
  bf_Modified :: int

record PublicHostname =
  ph_TunnelID :: string
  ph_Hostname :: string
  ph_Port :: int

record ServiceConfig =
  svc_Name :: string
  svc_RegistryImage :: string
  svc_ImageTag :: string
  svc_Polled :: bool
  svc_PullPolicy :: string
  svc_Platform :: string
  svc_Ports :: "PortMapping list"
  svc_Volumes :: "VolumeMount list"
  svc_ExtraOptions :: string
  svc_HealthType :: HealthType
  svc_HealthTarget :: string
  svc_PublicHostnames :: "PublicHostname list"

record Project =
  p_ID :: string
  p_DisplayName :: string
  p_ConfigMode :: ConfigMode
  p_Services :: "ServiceConfig list"
  p_BindHost :: string
  p_RegistryImage :: string
  p_ImageTag :: string
  p_Ports :: "PortMapping list"
  p_Volumes :: "VolumeMount list"
  p_ExtraOptions :: string
  p_CustomCompose :: string
  p_StackPath :: string
  p_HealthType :: HealthType
  p_HealthTarget :: string
  p_PollInterval :: int
  p_Enabled :: bool
  p_EnvVars :: "smap option"
  p_SecretEnvKeys :: "string list option"
  p_IsSystem :: bool
  p_Backup :: "BackupSpec option"
  p_CreatedAt :: int
  p_UpdatedAt :: int

text \<open>Go's zero values of a service and of a project (the starting point of a literal).\<close>

definition zero_service :: ServiceConfig where
  "zero_service =
     \<lparr>svc_Name = [], svc_RegistryImage = [], svc_ImageTag = [], svc_Polled = False,
      svc_PullPolicy = [], svc_Platform = [], svc_Ports = [], svc_Volumes = [],
      svc_ExtraOptions = [], svc_HealthType = HealthOther [], svc_HealthTarget = [],
      svc_PublicHostnames = []\<rparr>"

text \<open>The zero \<open>time.Time\<close>, in nanoseconds since 1970.\<close>

definition zero_time :: int where
  "zero_time = - 62135596800 * 1000000000"

definition zero_project :: Project where
  "zero_project =
     \<lparr>p_ID = [], p_DisplayName = [], p_ConfigMode = ConfigModeOther [], p_Services = [],
      p_BindHost = [], p_RegistryImage = [], p_ImageTag = [], p_Ports = [], p_Volumes = [],
      p_ExtraOptions = [], p_CustomCompose = [], p_StackPath = [],
      p_HealthType = HealthOther [], p_HealthTarget = [], p_PollInterval = 0,
      p_Enabled = False, p_EnvVars = None, p_SecretEnvKeys = None, p_IsSystem = False,
      p_Backup = None, p_CreatedAt = zero_time, p_UpdatedAt = zero_time\<rparr>"

definition BackupHostDir :: "Project \<Rightarrow> string" where
  "BackupHostDir p = (if p_StackPath p = '''' then '''' else p_StackPath p @ ''/backups'')"

definition PolledServices :: "Project \<Rightarrow> ServiceConfig list" where
  "PolledServices p = filter svc_Polled (p_Services p)"

definition PrimaryService :: "Project \<Rightarrow> ServiceConfig option" where
  "PrimaryService p = (case p_Services p of [] \<Rightarrow> None | s # _ \<Rightarrow> Some s)"

text \<open>\<open>len(p.EnvVars)\<close> and its entries, for nil and for a map.\<close>

definition env_entries :: "Project \<Rightarrow> smap" where
  "env_entries p = (case p_EnvVars p of None \<Rightarrow> [] | Some m \<Rightarrow> m)"

section \<open>Tunnels, runtime state, deployments\<close>

record Tunnel =
  t_ID :: string
  t_Name :: string
  t_CFTunnelID :: string
  t_AccountTag :: string
  t_TunnelSecret :: string
  t_CFAPIToken :: string
  t_Enabled :: bool
  t_CreatedAt :: int
  t_UpdatedAt :: int

record TunnelCredentials =
  tc_AccountTag :: string
  tc_TunnelSecret :: string
  tc_TunnelID :: string

record ProjectState =
  st_ProjectID :: string
  st_CurrentDigests :: smap
  st_PreviousDigests :: smap
  st_DesiredDigests :: smap
  st_Status :: ProjectStatus
  st_LastCheckAt :: "int option"
  st_LastDeployAt :: "int option"
  st_LastSuccessAt :: "int option"
  st_LastError :: string

record Deployment =
  d_ID :: nat
  d_ProjectID :: string
  d_FromDigests :: smap
  d_ToDigests :: smap
  d_Status :: DeployStatus
  d_Trigger :: DeployTrigger
  d_StartedAt :: int
  d_EndedAt :: "int option"
  d_ErrorMessage :: string

section \<open>Events\<close>

datatype EventType =
    EventStepStart | EventStepDone | EventLog | EventStateChange | EventDeployDone
  | EventPollDone | EventProjectUpdated | EventProjectDeleted

record Event =
  ev_Type :: EventType
  ev_ProjectID :: string
  ev_Timestamp :: int
  ev_Step :: string
  ev_Status :: string
  ev_Message :: string
  ev_Error :: bool

text \<open>
  An event literal with only its type and project set; the zero \<open>Timestamp\<close> is 0 here, and
  \<open>emit\<close> replaces it by the current time.
\<close>

definition mk_event :: "EventType \<Rightarrow> string \<Rightarrow> Event" where
  "mk_event ty pid =
     \<lparr>ev_Type = ty, ev_ProjectID = pid, ev_Timestamp = 0, ev_Step = [], ev_Status = [],
      ev_Message = [], ev_Error = False\<rparr>"

section \<open>Host ports\<close>

text \<open>\<open>net.SplitHostPort\<close>, with the reasons it gives for refusing an address.\<close>

datatype addr_error =
    MissingPort | TooManyColons | MissingBracket | UnexpectedOpen | UnexpectedClose

definition index_of :: "char \<Rightarrow> string \<Rightarrow> nat option" where
  "index_of c s =
     (let n = length (takeWhile (\<lambda>x. x \<noteq> c) s) in if n < length s then Some n else None)"

definition last_index_of :: "char \<Rightarrow> string \<Rightarrow> nat option" where
  "last_index_of c s =
     (case index_of c (rev s) of None \<Rightarrow> None | Some n \<Rightarrow> Some (length s - Suc n))"

definition SplitHostPort :: "string \<Rightarrow> addr_error + string \<times> string" where
  "SplitHostPort hp =
     (case last_index_of CHR '':'' hp of
        None \<Rightarrow> Inl MissingPort
      | Some i \<Rightarrow>
          let split = (if HasPrefix hp ''['' then
                 (case index_of CHR '']'' hp of
                    None \<Rightarrow> Inl MissingBracket
                  | Some e \<Rightarrow>
                      if Suc e = length hp then Inl MissingPort
                      else if Suc e = i then Inr (take (e - 1) (drop 1 hp), 1, Suc e)
                      else if hp ! Suc e = CHR '':'' then Inl TooManyColons
                      else Inl MissingPort)
               else if CHR '':'' \<in> set (take i hp) then Inl TooManyColons
               else Inr (take i hp, 0, 0)) in
          case split of
            Inl e \<Rightarrow> Inl e
          | Inr (host, j, k) \<Rightarrow>
              if CHR ''['' \<in> set (drop j hp) then Inl UnexpectedOpen
              else if CHR '']'' \<in> set (drop k hp) then Inl UnexpectedClose
              else Inr (host, drop (Suc i) hp))"

datatype hostport_error =
    EmptyHostPort | InvalidHostPort string addr_error | InvalidPort string

text \<open>\<open>PortMapping.ParseHostPort\<close>: \<open>"8080"\<close> or \<open>"127.0.0.1:8080"\<close>.\<close>

definition ParseHostPort :: "PortMapping \<Rightarrow> hostport_error + string \<times> int" where
  "ParseHostPort pm =
     (let s = pm_HostPort pm in
      if s = '''' then Inl EmptyHostPort
      else case Atoi s of
        Some p \<Rightarrow> Inr ('''', p)
      | None \<Rightarrow>
          (case SplitHostPort s of
             Inl e \<Rightarrow> Inl (InvalidHostPort s e)
           | Inr (host, portStr) \<Rightarrow>
               (case Atoi portStr of
                  None \<Rightarrow> Inl (InvalidPort s)
                | Some p \<Rightarrow> Inr (host, p))))"

section \<open>Lemmas\<close>

lemma PolledServices_subset: "set (PolledServices p) \<subseteq> set (p_Services p)"
  by (auto simp: PolledServices_def)

lemma last_index_of_append:
  assumes "c \<notin> set t"
  shows "last_index_of c (s @ c # t) = Some (length s)"
proof -
  have tw: "takeWhile (\<lambda>x. x \<noteq> c) (rev t @ c # rev s) = rev t"
    using assms by (subst takeWhile_append2) auto
  then show ?thesis by (simp add: last_index_of_def index_of_def tw Let_def)
qed

lemma Itoa_chars:
  assumes "c \<in> set (Itoa i)"
  shows "is_digit c \<or> c = CHR ''-''"
proof -
  have "is_digit d" if "d \<in> set (nat_text n)" for d n
    using nat_text_digits [of n] that by (simp add: list_all_iff)
  with assms show ?thesis by (auto simp: Itoa_def split: if_splits)
qed

lemma Itoa_no_special:
  "CHR '':'' \<notin> set (Itoa i)" "CHR ''['' \<notin> set (Itoa i)" "CHR '']'' \<notin> set (Itoa i)"
  using Itoa_chars [of "CHR '':''" i] Itoa_chars [of "CHR ''[''" i] Itoa_chars [of "CHR '']''" i]
  by (auto simp: is_digit_def less_eq_char_def)

lemma colon_not_number: "CHR '':'' \<in> set s \<Longrightarrow> Atoi s = None"
proof -
  assume "CHR '':'' \<in> set s"
  then have "CHR '':'' \<in> set (if HasPrefix s ''-'' \<or> HasPrefix s ''+'' then drop 1 s else s)"
    by (cases s) auto
  moreover have "\<not> is_digit CHR '':''" by (simp add: is_digit_def less_eq_char_def)
  ultimately show ?thesis by (auto simp: Atoi_def list_all_iff Let_def)
qed

text \<open>
  Writing a port as \<open>"port"\<close> or \<open>"host:port"\<close> and parsing it back is the identity, for a
  64-bit port and a host without brackets and colons.
\<close>

lemma ParseHostPort_plain:
  assumes "int64_ok n"
  shows "ParseHostPort (pm\<lparr>pm_HostPort := Itoa n\<rparr>) = Inr ('''', n)"
proof -
  have "Itoa n \<noteq> ''''" by (simp add: Itoa_def)
  then show ?thesis using Atoi_Itoa [OF assms] by (simp add: ParseHostPort_def Let_def)
qed

lemma ParseHostPort_bound:
  assumes "int64_ok n" "set h \<inter> {CHR '':'', CHR ''['', CHR '']''} = {}"
  shows "ParseHostPort (pm\<lparr>pm_HostPort := h @ '':'' @ Itoa n\<rparr>) = Inr (h, n)"
proof -
  let ?s = "h @ '':'' @ Itoa n"
  have i: "last_index_of CHR '':'' ?s = Some (length h)"
    using last_index_of_append [OF Itoa_no_special(1)] by simp
  have nb: "\<not> HasPrefix ?s ''[''" using assms(2) by (cases h) auto
  have "SplitHostPort ?s = Inr (h, Itoa n)"
    using assms(2) nb i Itoa_no_special [of n] by (auto simp: SplitHostPort_def Let_def)
  moreover have "Atoi ?s = None" by (rule colon_not_number) simp
  ultimately show ?thesis
    using Atoi_Itoa [OF assms(1)] by (simp add: ParseHostPort_def Let_def)
qed

end
