(* ===== verification/Secrets.thy ===== *)
theory Secrets
  imports Bbsit_Types
begin

text \<open>
  \<open>internal/db/secrets.go\<close>: the encoding of encrypted database fields. A stored secret is the
  prefix \<open>bbsit:secret:v1:\<close> and the unpadded base64 of nonce and ciphertext; the field's
  identity is authenticated as additional data. \<open>encoding/base64\<close> is modelled in full.
  AES-GCM and the JSON text of an environment map are parameters (\<open>Codec\<close>); what the code
  relies on is stated as the hypotheses \<open>aead_ok\<close> and \<open>env_codec_ok\<close>.
\<close>

section \<open>Unpadded base64\<close>

definition b64_alphabet :: string where
  "b64_alphabet = ''ABCDEFGHIJKLMNOPQRSTUVWXYZabcdefghijklmnopqrstuvwxyz0123456789+/''"

definition b64_char :: "nat \<Rightarrow> char" where
  "b64_char n = b64_alphabet ! n"

definition b64_val :: "char \<Rightarrow> nat option" where
  "b64_val c = index_of c b64_alphabet"

fun b64_sextets :: "nat list \<Rightarrow> nat list" where
  "b64_sextets [] = []"
| "b64_sextets [a] = [a div 4, (a mod 4) * 16]"
| "b64_sextets [a, b] = [a div 4, (a mod 4) * 16 + b div 16, (b mod 16) * 4]"
| "b64_sextets (a # b # c # r) =
     [a div 4, (a mod 4) * 16 + b div 16, (b mod 16) * 4 + c div 64, c mod 64] @ b64_sextets r"

fun b64_octets :: "nat list \<Rightarrow> nat list option" where
  "b64_octets [] = Some []"
| "b64_octets [w] = None"
| "b64_octets [w, x] = Some [w * 4 + x div 16]"
| "b64_octets [w, x, y] = Some [w * 4 + x div 16, (x mod 16) * 16 + y div 4]"
| "b64_octets (w # x # y # z # r) =
     (case b64_octets r of
        None \<Rightarrow> None
      | Some os \<Rightarrow> Some ([w * 4 + x div 16, (x mod 16) * 16 + y div 4, (y mod 4) * 64 + z] @ os))"

definition b64_encode :: "string \<Rightarrow> string" where
  "b64_encode s = map b64_char (b64_sextets (map of_char s))"

fun map_all :: "('a \<Rightarrow> 'b option) \<Rightarrow> 'a list \<Rightarrow> 'b list option" where
  "map_all f [] = Some []"
| "map_all f (x # xs) =
     (case f x of None \<Rightarrow> None
      | Some y \<Rightarrow> (case map_all f xs of None \<Rightarrow> None | Some ys \<Rightarrow> Some (y # ys)))"

text \<open>The decoder skips carriage returns and newlines and does not check the spare bits.\<close>

definition b64_decode :: "string \<Rightarrow> string option" where
  "b64_decode s =
     (case map_all b64_val (filter (\<lambda>c. c \<noteq> CHR 0x0A \<and> c \<noteq> CHR 0x0D) s) of
        None \<Rightarrow> None
      | Some ws \<Rightarrow> map_option (map char_of) (b64_octets ws))"

section \<open>The cipher\<close>

text \<open>
  \<open>cd_seal\<close> and \<open>cd_open\<close> are the AEAD's \<open>Seal\<close> and \<open>Open\<close> (nonce, text, additional data).
  \<open>cd_marshal_env\<close> and \<open>cd_unmarshal_env\<close> turn an environment map into JSON text and back.
\<close>

record Codec =
  cd_NonceSize :: nat
  cd_seal :: "string \<Rightarrow> string \<Rightarrow> string \<Rightarrow> string"
  cd_open :: "string \<Rightarrow> string \<Rightarrow> string \<Rightarrow> string option"
  cd_marshal_env :: "smap \<Rightarrow> string"
  cd_unmarshal_env :: "string \<Rightarrow> smap option"

definition secretPrefix :: string where
  "secretPrefix = ''bbsit:secret:v1:''"

definition isEncryptedSecret :: "string \<Rightarrow> bool" where
  "isEncryptedSecret value = HasPrefix value secretPrefix"

text \<open>The nonce is what the random source returns: an error or \<open>NonceSize\<close> bytes.\<close>

definition secret_encrypt :: "Codec \<Rightarrow> string result \<Rightarrow> string \<Rightarrow> string \<Rightarrow> string result" where
  "secret_encrypt cd rand aad plaintext =
     (case rand of
        Inl e \<Rightarrow> Inl (''generate secret nonce: '' @ e)
      | Inr nonce \<Rightarrow>
          let sealed = nonce @ cd_seal cd nonce plaintext aad
          in Inr (secretPrefix @ b64_encode sealed))"

definition secret_decrypt :: "Codec \<Rightarrow> string \<Rightarrow> string \<Rightarrow> string result" where
  "secret_decrypt cd aad value =
     (if \<not> isEncryptedSecret value then Inl ''secret field is not encrypted''
      else case b64_decode (TrimPrefix value secretPrefix) of
        None \<Rightarrow> Inl ''decode encrypted secret: illegal base64 data''
      | Some raw \<Rightarrow>
          if length raw < cd_NonceSize cd then Inl ''encrypted secret is truncated''
          else case cd_open cd (take (cd_NonceSize cd) raw) (drop (cd_NonceSize cd) raw) aad of
            None \<Rightarrow> Inl ''decrypt secret: cipher: message authentication failed''
          | Some plain \<Rightarrow> Inr plain)"

definition fileContainsEncryptedSecrets :: "string option \<Rightarrow> bool" where
  "fileContainsEncryptedSecrets content =
     (case content of None \<Rightarrow> False | Some data \<Rightarrow> Contains data secretPrefix)"

definition projectEnvAAD :: "string \<Rightarrow> string" where
  "projectEnvAAD i = ''projects/'' @ i @ ''/env_vars''"

definition tunnelSecretAAD :: "string \<Rightarrow> string \<Rightarrow> string" where
  "tunnelSecretAAD i field = ''tunnels/'' @ i @ ''/'' @ field"

section \<open>What the code relies on\<close>

text \<open>
  AES-GCM opens what it sealed, and only under the same additional data. \<open>encoding/json\<close>
  reads back the map it wrote.
\<close>

definition aead_ok :: "Codec \<Rightarrow> bool" where
  "aead_ok cd \<longleftrightarrow>
     (\<forall>n t a b. length n = cd_NonceSize cd \<longrightarrow>
        cd_open cd n (cd_seal cd n t a) b = (if a = b then Some t else None))"

definition env_codec_ok :: "Codec \<Rightarrow> smap \<Rightarrow> bool" where
  "env_codec_ok cd m \<longleftrightarrow>
     (\<exists>m'. cd_unmarshal_env cd (cd_marshal_env cd m) = Some m' \<and> map_of m' = map_of m)"

definition rand_ok :: "Codec \<Rightarrow> string result \<Rightarrow> bool" where
  "rand_ok cd r \<longleftrightarrow> (\<exists>n. r = Inr n \<and> length n = cd_NonceSize cd)"

section \<open>Lemmas\<close>

lemma b64_octets_sextets:
  "list_all (\<lambda>b. b < 256) bs \<Longrightarrow> b64_octets (b64_sextets bs) = Some bs"
proof (induction bs rule: b64_sextets.induct)
  case (4 a b c r)
  have bc: "b div 16 < 16" "c div 64 < 4" using 4 by auto
  then have "((a mod 4) * 16 + b div 16) div 16 = a mod 4"
    "((a mod 4) * 16 + b div 16) mod 16 = b div 16"
    "((b mod 16) * 4 + c div 64) div 4 = b mod 16"
    "((b mod 16) * 4 + c div 64) mod 4 = c div 64"
    by auto
  with 4 show ?case by simp
next
  case (3 a b)
  then have "b div 16 < 16" by auto
  then have "((a mod 4) * 16 + b div 16) div 16 = a mod 4"
    "((a mod 4) * 16 + b div 16) mod 16 = b div 16"
    by auto
  with 3 show ?case by simp
qed simp_all

lemma b64_sextets_bound:
  "list_all (\<lambda>b. b < 256) bs \<Longrightarrow> list_all (\<lambda>w. w < 64) (b64_sextets bs)"
proof (induction bs rule: b64_sextets.induct)
  case (4 a b c r)
  then have d: "a div 4 < 64" "b div 16 < 16" "c div 64 < 4" by auto
  moreover have "a mod 4 < 4" "b mod 16 < 16" "c mod 64 < 64" by simp_all
  ultimately have "(a mod 4) * 16 + b div 16 < 64" "(b mod 16) * 4 + c div 64 < 64" by linarith+
  with 4 d show ?case by simp
next
  case (3 a b)
  then have d: "a div 4 < 64" "b div 16 < 16" by auto
  moreover have "a mod 4 < 4" "b mod 16 < 16" by simp_all
  ultimately have "(a mod 4) * 16 + b div 16 < 64" "(b mod 16) * 4 < 64" by linarith+
  with 3 d show ?case by simp
qed auto

lemma b64_table:
  "list_all (\<lambda>n. b64_val (b64_char n) = Some n \<and> b64_char n \<noteq> CHR 0x0A \<and> b64_char n \<noteq> CHR 0x0D)
     [0..<64]"
  by code_simp

lemma b64_val_char:
  "n < 64 \<Longrightarrow> b64_val (b64_char n) = Some n \<and> b64_char n \<noteq> CHR 0x0A \<and> b64_char n \<noteq> CHR 0x0D"
  using b64_table unfolding list_all_iff by simp

lemma map_all_b64: "list_all (\<lambda>w. w < 64) ws \<Longrightarrow> map_all b64_val (map b64_char ws) = Some ws"
  by (induction ws) (simp_all add: b64_val_char)

text \<open>Decoding inverts encoding on every byte string.\<close>

lemma b64_decode_encode [simp]: "b64_decode (b64_encode s) = Some s"
proof -
  let ?bs = "map of_char s :: nat list"
  have bound: "list_all (\<lambda>b. b < 256) ?bs" by (simp add: list_all_iff)
  then have six: "list_all (\<lambda>w. w < 64) (b64_sextets ?bs)" by (rule b64_sextets_bound)
  have fl: "filter (\<lambda>c. c \<noteq> CHR 0x0A \<and> c \<noteq> CHR 0x0D) (map b64_char ws) = map b64_char ws"
    if "list_all (\<lambda>w. w < 64) ws" for ws
    using that by (induction ws) (simp_all add: b64_val_char)
  have "map char_of ?bs = s" by (simp add: comp_def)
  then show ?thesis
    unfolding b64_decode_def b64_encode_def
    by (simp add: fl [OF six] map_all_b64 [OF six] b64_octets_sextets [OF bound])
qed

lemma projectEnvAAD_inj: "projectEnvAAD i = projectEnvAAD j \<longleftrightarrow> i = j"
  by (simp add: projectEnvAAD_def)

lemma AAD_disjoint: "projectEnvAAD i \<noteq> tunnelSecretAAD j f"
  by (simp add: projectEnvAAD_def tunnelSecretAAD_def)

lemma isEncryptedSecret_prefix [simp]: "isEncryptedSecret (secretPrefix @ s)"
  by (simp add: isEncryptedSecret_def)

lemma secret_encrypt_isEncrypted: "secret_encrypt cd r aad t = Inr v \<Longrightarrow> isEncryptedSecret v"
  by (auto simp: secret_encrypt_def Let_def split: sum.splits)

lemma secret_encrypt_rand_ok:
  "rand_ok cd r \<Longrightarrow> \<exists>v. secret_encrypt cd r aad t = Inr v"
  by (auto simp: rand_ok_def secret_encrypt_def Let_def)

text \<open>
  A stored secret decrypts under the identity it was written for, and under no other.
\<close>

lemma secret_decrypt_encrypt:
  assumes "aead_ok cd" "rand_ok cd r" "secret_encrypt cd r aad t = Inr v"
  shows "secret_decrypt cd aad' v =
    (if aad = aad' then Inr t
     else Inl ''decrypt secret: cipher: message authentication failed'')"
proof -
  obtain n where r: "r = Inr n" and n: "length n = cd_NonceSize cd"
    using assms(2) by (auto simp: rand_ok_def)
  with assms(3) have v: "v = secretPrefix @ b64_encode (n @ cd_seal cd n t aad)"
    by (simp add: secret_encrypt_def Let_def)
  have op: "cd_open cd n (cd_seal cd n t aad) aad' = (if aad = aad' then Some t else None)"
    using assms(1) n by (simp add: aead_ok_def)
  show ?thesis
    by (simp add: v secret_decrypt_def op n [symmetric])
qed

end
