(* ===== verification/Sql_Table.thy ===== *)
theory Sql_Table
  imports Secrets
begin

text \<open>
  The slice of SQL the daemon uses on a table with a text primary key: insert, update of the
  rows with a key, delete, look-up. A table is its rows in insertion order. The interface the
  rest of the development relies on is the locale \<open>keyed_table\<close>; \<open>rows\<close> interprets it on the
  list of rows.
\<close>

section \<open>Errors of the SQL layer\<close>

text \<open>
  Texts of the driver. The code looks only for \<open>UNIQUE\<close> in them (\<open>apiCreateProject\<close>,
  \<open>apiCreateTunnel\<close>) and passes them on.
\<close>

definition err_no_rows :: error where
  "err_no_rows = ''sql: no rows in result set''"

definition err_unique :: error where
  "err_unique = ''constraint failed: UNIQUE constraint failed''"

definition err_foreign_key :: error where
  "err_foreign_key = ''constraint failed: FOREIGN KEY constraint failed''"

definition err_scan_null :: error where
  "err_scan_null = ''sql: Scan error: converting NULL to string is unsupported''"

section \<open>Rows\<close>

type_synonym 'r table = "(string \<times> 'r) list"

definition sql_insert :: "string \<Rightarrow> 'r \<Rightarrow> 'r table \<Rightarrow> 'r table" where
  "sql_insert k r t = t @ [(k, r)]"

definition sql_update :: "string \<Rightarrow> ('r \<Rightarrow> 'r) \<Rightarrow> 'r table \<Rightarrow> 'r table" where
  "sql_update k f t = map (\<lambda>(k', r). (k', if k' = k then f r else r)) t"

definition sql_delete :: "string \<Rightarrow> 'r table \<Rightarrow> 'r table" where
  "sql_delete k t = filter (\<lambda>(k', r). k' \<noteq> k) t"

text \<open>\<open>UPDATE\<close> whose \<open>WHERE\<close> looks at the row itself.\<close>

definition sql_update_all :: "('r \<Rightarrow> 'r) \<Rightarrow> 'r table \<Rightarrow> 'r table" where
  "sql_update_all f t = map (\<lambda>(k, r). (k, f r)) t"

text \<open>\<open>ORDER BY\<close> the key.\<close>

definition sql_ordered :: "'r table \<Rightarrow> 'r table" where
  "sql_ordered t = sort_key fst t"

definition table_ok :: "'r table \<Rightarrow> bool" where
  "table_ok t \<longleftrightarrow> distinct (map fst t)"

definition table_keys :: "'r table \<Rightarrow> string set" where
  "table_keys t = fst ` set t"

text \<open>A property of every row and its key.\<close>

definition rows_all :: "(string \<Rightarrow> 'r \<Rightarrow> bool) \<Rightarrow> 'r table \<Rightarrow> bool" where
  "rows_all P t \<longleftrightarrow> list_all (\<lambda>(k, r). P k r) t"

lemma rows_all_Nil [simp]: "rows_all P []"
  by (simp add: rows_all_def)

lemma rows_all_insert [simp]: "rows_all P (sql_insert k r t) \<longleftrightarrow> rows_all P t \<and> P k r"
  by (simp add: rows_all_def sql_insert_def)

lemma rows_all_update:
  "rows_all P t \<Longrightarrow> (\<And>r. P k r \<Longrightarrow> P k (f r)) \<Longrightarrow> rows_all P (sql_update k f t)"
  unfolding rows_all_def sql_update_def by (induction t) auto

lemma rows_all_delete: "rows_all P t \<Longrightarrow> rows_all P (sql_delete k t)"
  unfolding rows_all_def sql_delete_def by (induction t) auto

lemma rows_all_update_all:
  "rows_all P t \<Longrightarrow> (\<And>k r. P k r \<Longrightarrow> P k (f r)) \<Longrightarrow> rows_all P (sql_update_all f t)"
  unfolding rows_all_def sql_update_all_def by (induction t) auto

lemma rows_all_look: "rows_all P t \<Longrightarrow> map_of t k = Some r \<Longrightarrow> P k r"
  by (auto simp: rows_all_def list_all_iff dest: map_of_SomeD)

lemma map_of_sql_insert:
  "map_of t k = None \<Longrightarrow> map_of (sql_insert k r t) = (map_of t)(k \<mapsto> r)"
  by (auto simp: sql_insert_def fun_eq_iff map_add_def split: option.splits)

lemma map_of_sql_update:
  "map_of (sql_update k f t) = (map_of t)(k := map_option f (map_of t k))"
  unfolding sql_update_def by (induction t) (auto simp: fun_eq_iff)

lemma map_of_sql_update_all: "map_of (sql_update_all f t) k = map_option f (map_of t k)"
  unfolding sql_update_all_def by (induction t) auto

lemma map_of_sql_delete: "map_of (sql_delete k t) = (map_of t)(k := None)"
  unfolding sql_delete_def by (induction t) (auto simp: fun_eq_iff)

lemma keys_sql_insert [simp]: "table_keys (sql_insert k r t) = insert k (table_keys t)"
  by (auto simp: table_keys_def sql_insert_def)

lemma map_fst_sql_update [simp]: "map fst (sql_update k f t) = map fst t"
  unfolding sql_update_def by (induction t) auto

lemma keys_sql_update [simp]: "table_keys (sql_update k f t) = table_keys t"
  unfolding table_keys_def set_map [symmetric] map_fst_sql_update ..

lemma map_fst_sql_update_all [simp]: "map fst (sql_update_all f t) = map fst t"
  unfolding sql_update_all_def by (induction t) auto

lemma keys_sql_update_all [simp]: "table_keys (sql_update_all f t) = table_keys t"
  unfolding table_keys_def set_map [symmetric] map_fst_sql_update_all ..

lemma keys_sql_delete [simp]: "table_keys (sql_delete k t) = table_keys t - {k}"
  by (force simp: table_keys_def sql_delete_def)

lemma map_of_table_keys: "k \<in> table_keys t \<longleftrightarrow> (\<exists>r. map_of t k = Some r)"
  by (metis map_of_eq_None option.exhaust option.simps(3) table_keys_def)

lemma table_ok_Nil [simp]: "table_ok []"
  by (simp add: table_ok_def)

lemma table_ok_insert [intro]: "table_ok t \<Longrightarrow> k \<notin> table_keys t \<Longrightarrow> table_ok (sql_insert k r t)"
  by (auto simp: table_ok_def table_keys_def sql_insert_def)

lemma table_ok_update [simp]: "table_ok (sql_update k f t) = table_ok t"
  by (simp add: table_ok_def)

lemma table_ok_update_all [simp]: "table_ok (sql_update_all f t) = table_ok t"
  by (simp add: table_ok_def)

lemma table_ok_delete [intro]: "table_ok t \<Longrightarrow> table_ok (sql_delete k t)"
  unfolding table_ok_def sql_delete_def by (simp add: distinct_map_filter)

lemma set_sql_ordered [simp]: "set (sql_ordered t) = set t"
  by (simp add: sql_ordered_def)

section \<open>The interface\<close>

locale keyed_table =
  fixes look :: "'t \<Rightarrow> 'k \<Rightarrow> 'r option"
    and ins :: "'k \<Rightarrow> 'r \<Rightarrow> 't \<Rightarrow> 't"
    and upd :: "'k \<Rightarrow> ('r \<Rightarrow> 'r) \<Rightarrow> 't \<Rightarrow> 't"
    and del :: "'k \<Rightarrow> 't \<Rightarrow> 't"
  assumes look_ins: "look t k = None \<Longrightarrow> look (ins k r t) = (look t)(k := Some r)"
    and look_upd: "look (upd k f t) = (look t)(k := map_option f (look t k))"
    and look_del: "look (del k t) = (look t)(k := None)"
begin

lemma look_upd_same: "look t k = Some r \<Longrightarrow> look (upd k f t) k = Some (f r)"
  by (simp add: look_upd)

lemma look_upd_other: "k' \<noteq> k \<Longrightarrow> look (upd k f t) k' = look t k'"
  by (simp add: look_upd)

lemma look_upd_missing: "look t k = None \<Longrightarrow> look (upd k f t) = look t"
  by (auto simp: look_upd)

lemma look_upd_upd: "look (upd k g (upd k f t)) = look (upd k (\<lambda>r. g (f r)) t)"
  by (auto simp: look_upd fun_eq_iff option.map_comp comp_def)

lemma look_upd_commute:
  "k \<noteq> k' \<Longrightarrow> look (upd k f (upd k' g t)) = look (upd k' g (upd k f t))"
  by (auto simp: look_upd fun_eq_iff)

lemma look_del_ins: "look t k = None \<Longrightarrow> look (del k (ins k r t)) = look t"
  by (auto simp: look_del look_ins fun_eq_iff)

lemma look_del_upd: "look (del k (upd k f t)) = look (del k t)"
  by (auto simp: look_del look_upd fun_eq_iff)

lemma dom_upd: "dom (look (upd k f t)) = dom (look t)"
  by (auto simp: look_upd dom_def)

end

interpretation rows: keyed_table map_of sql_insert sql_update sql_delete
  by unfold_locales (rule map_of_sql_insert map_of_sql_update map_of_sql_delete; assumption?)+

end
