(* ===== verification/Database.thy ===== *)
theory Database
  imports Sql_Table
begin

text \<open>
  \<open>internal/db/db.go\<close>: the SQLite state as a record of tables and its operations as functions
  that return a result and the new state. Columns that hold JSON of services, ports, volumes,
  backup specs and digest maps hold the value itself; \<open>env_vars\<close> and the tunnel credentials
  hold their ciphertext, and \<open>secret_env_keys\<close> tells SQL NULL, JSON \<open>null\<close> and a JSON array
  apart. \<open>ON DELETE CASCADE\<close>, the foreign keys and \<open>AUTOINCREMENT\<close> of the schema are written
  out. The engine itself (disk, locking) does not fail. \<open>db_ok\<close> is the invariant that the
  schema's keys promise; every operation keeps it.
\<close>

section \<open>State\<close>

datatype secret_col = SqlNull | JsonNull | JsonKeys "string list"

record project_row =
  row_project :: Project
  row_env_vars :: string
  row_secret_env_keys :: secret_col

record DB =
  db_projects :: "project_row table"
  db_states :: "ProjectState table"
  db_deployments :: "Deployment list"
  db_deploy_seq :: nat
  db_tunnels :: "Tunnel table"
  db_backup_runs :: "BackupRun list"
  db_backup_seq :: nat
  db_auth :: "(string \<times> int) option"

definition empty_db :: DB where
  "empty_db =
     \<lparr>db_projects = [], db_states = [], db_deployments = [], db_deploy_seq = 0, db_tunnels = [],
      db_backup_runs = [], db_backup_seq = 0, db_auth = None\<rparr>"

text \<open>RFC 3339 text keeps whole seconds.\<close>

definition rfc3339 :: "int \<Rightarrow> int" where
  "rfc3339 t = t - t mod 1000000000"

definition fmtTime :: "int option \<Rightarrow> int option" where
  "fmtTime t = map_option rfc3339 t"

section \<open>Columns\<close>

definition marshalSecretEnvKeys :: "smap \<Rightarrow> string list option \<Rightarrow> secret_col" where
  "marshalSecretEnvKeys env configured =
     (let keys = (case configured of None \<Rightarrow> map fst env | Some ks \<Rightarrow> ks)
      in if keys = [] then JsonNull else JsonKeys (sort keys))"

definition scanSecretEnvKeys :: "secret_col \<Rightarrow> (string list option) result" where
  "scanSecretEnvKeys c =
     (case c of SqlNull \<Rightarrow> Inl err_scan_null | JsonNull \<Rightarrow> Inr None | JsonKeys ks \<Rightarrow> Inr (Some ks))"

definition decodeProjectEnv :: "Codec \<Rightarrow> string \<Rightarrow> string \<Rightarrow> smap result" where
  "decodeProjectEnv cd i stored =
     (case secret_decrypt cd (projectEnvAAD i) stored of
        Inl e \<Rightarrow> Inl e
      | Inr plain \<Rightarrow>
          (case cd_unmarshal_env cd plain of
             None \<Rightarrow> Inl ''parse decrypted environment JSON''
           | Some m \<Rightarrow> Inr m))"

definition encryptOptionalTunnelSecret ::
    "Codec \<Rightarrow> string result \<Rightarrow> string \<Rightarrow> string \<Rightarrow> string \<Rightarrow> string result" where
  "encryptOptionalTunnelSecret cd rand i field value =
     (if value = '''' then Inr ''''
      else case secret_encrypt cd rand (tunnelSecretAAD i field) value of
        Inl e \<Rightarrow> Inl (''encrypt tunnel '' @ field @ '': '' @ e)
      | Inr v \<Rightarrow> Inr v)"

section \<open>Projects\<close>

text \<open>The columns written for a project, but for \<open>created_at\<close>.\<close>

definition project_columns :: "Project \<Rightarrow> int \<Rightarrow> int \<Rightarrow> Project" where
  "project_columns p created updated =
     p\<lparr>p_EnvVars := None, p_SecretEnvKeys := None, p_CreatedAt := created, p_UpdatedAt := updated\<rparr>"

definition initial_state :: "string \<Rightarrow> ProjectState" where
  "initial_state i =
     \<lparr>st_ProjectID = i, st_CurrentDigests = [], st_PreviousDigests = [], st_DesiredDigests = [],
      st_Status = StatusUnknown, st_LastCheckAt = None, st_LastDeployAt = None,
      st_LastSuccessAt = None, st_LastError = []\<rparr>"

definition CreateProject ::
    "Codec \<Rightarrow> string result \<Rightarrow> int \<Rightarrow> Project \<Rightarrow> DB \<Rightarrow> unit result \<times> DB" where
  "CreateProject cd rand now p db =
     (case secret_encrypt cd rand (projectEnvAAD (p_ID p)) (cd_marshal_env cd (env_entries p)) of
        Inl e \<Rightarrow> (Inl (''encrypt project environment: '' @ e), db)
      | Inr encryptedEnv \<Rightarrow>
          if p_ID p \<in> table_keys (db_projects db)
          then (Inl (''insert project: '' @ err_unique), db)
          else if p_ID p \<in> table_keys (db_states db)
          then (Inl (''insert state: '' @ err_unique), db)
          else
            let row = \<lparr>row_project = project_columns p (rfc3339 now) (rfc3339 now),
                       row_env_vars = encryptedEnv,
                       row_secret_env_keys =
                         marshalSecretEnvKeys (env_entries p) (p_SecretEnvKeys p)\<rparr>
            in (Inr (), db\<lparr>db_projects := sql_insert (p_ID p) row (db_projects db),
                           db_states := sql_insert (p_ID p) (initial_state (p_ID p)) (db_states db)\<rparr>))"

definition UpdateProject ::
    "Codec \<Rightarrow> string result \<Rightarrow> int \<Rightarrow> Project \<Rightarrow> DB \<Rightarrow> unit result \<times> DB" where
  "UpdateProject cd rand now p db =
     (case secret_encrypt cd rand (projectEnvAAD (p_ID p)) (cd_marshal_env cd (env_entries p)) of
        Inl e \<Rightarrow> (Inl (''encrypt project environment: '' @ e), db)
      | Inr encryptedEnv \<Rightarrow>
          (Inr (), db\<lparr>db_projects := sql_update (p_ID p)
             (\<lambda>r. \<lparr>row_project =
                      project_columns p (p_CreatedAt (row_project r)) (rfc3339 now),
                    row_env_vars = encryptedEnv,
                    row_secret_env_keys =
                      marshalSecretEnvKeys (env_entries p) (p_SecretEnvKeys p)\<rparr>)
             (db_projects db)\<rparr>))"

definition DeleteProject :: "string \<Rightarrow> DB \<Rightarrow> unit result \<times> DB" where
  "DeleteProject i db =
     (Inr (), db\<lparr>db_projects := sql_delete i (db_projects db),
                 db_states := sql_delete i (db_states db),
                 db_deployments := filter (\<lambda>d. d_ProjectID d \<noteq> i) (db_deployments db),
                 db_backup_runs := filter (\<lambda>r. br_ProjectID r \<noteq> i) (db_backup_runs db)\<rparr>)"

definition scanProject :: "Codec \<Rightarrow> project_row \<Rightarrow> Project result" where
  "scanProject cd r =
     (let p = row_project r in
      case scanSecretEnvKeys (row_secret_env_keys r) of
        Inl e \<Rightarrow> Inl e
      | Inr keys \<Rightarrow>
          (case decodeProjectEnv cd (p_ID p) (row_env_vars r) of
             Inl e \<Rightarrow> Inl (''decode project '' @ p_ID p @ '' environment: '' @ e)
           | Inr env \<Rightarrow> Inr (p\<lparr>p_EnvVars := Some env, p_SecretEnvKeys := keys\<rparr>)))"

definition GetProject :: "Codec \<Rightarrow> DB \<Rightarrow> string \<Rightarrow> Project result" where
  "GetProject cd db i =
     (case map_of (db_projects db) i of
        None \<Rightarrow> Inl err_no_rows
      | Some r \<Rightarrow> scanProject cd r)"

text \<open>The loop over the rows stops at the first one that does not scan.\<close>

fun scan_all :: "('r \<Rightarrow> 'a result) \<Rightarrow> 'r list \<Rightarrow> 'a list result" where
  "scan_all f [] = Inr []"
| "scan_all f (r # rs) =
     (case f r of
        Inl e \<Rightarrow> Inl e
      | Inr x \<Rightarrow> (case scan_all f rs of Inl e \<Rightarrow> Inl e | Inr xs \<Rightarrow> Inr (x # xs)))"

definition ListProjects :: "Codec \<Rightarrow> DB \<Rightarrow> Project list result" where
  "ListProjects cd db = scan_all (scanProject cd) (map snd (sql_ordered (db_projects db)))"

text \<open>Each project with its state; \<open>None\<close> when the outer join finds no state row.\<close>

definition ListProjectsWithState :: "Codec \<Rightarrow> DB \<Rightarrow> (Project \<times> ProjectState option) list result" where
  "ListProjectsWithState cd db =
     scan_all
       (\<lambda>(i, r). case scanProject cd r of
          Inl e \<Rightarrow> Inl e
        | Inr p \<Rightarrow> Inr (p, map_of (db_states db) i))
       (sql_ordered (db_projects db))"

section \<open>State\<close>

definition UpdateState :: "ProjectState \<Rightarrow> DB \<Rightarrow> DB" where
  "UpdateState s db =
     db\<lparr>db_states := sql_update (st_ProjectID s)
         (\<lambda>r. s\<lparr>st_LastCheckAt := fmtTime (st_LastCheckAt s),
                 st_LastDeployAt := fmtTime (st_LastDeployAt s),
                 st_LastSuccessAt := fmtTime (st_LastSuccessAt s)\<rparr>)
         (db_states db)\<rparr>"

definition GetState :: "DB \<Rightarrow> string \<Rightarrow> ProjectState result" where
  "GetState db i =
     (case map_of (db_states db) i of None \<Rightarrow> Inl err_no_rows | Some s \<Rightarrow> Inr s)"

definition ResetStaleStates :: "int \<Rightarrow> DB \<Rightarrow> DB" where
  "ResetStaleStates now db =
     db\<lparr>db_states := sql_update_all (\<lambda>s. if st_Status s = StatusDeploying
            then s\<lparr>st_Status := StatusFailed, st_LastError := ''interrupted by restart''\<rparr> else s)
          (db_states db),
        db_deployments := map (\<lambda>d. if d_Status d = DeployInProgress
            then d\<lparr>d_Status := DeployFailed, d_EndedAt := Some (rfc3339 now),
                    d_ErrorMessage := ''interrupted by restart''\<rparr> else d)
          (db_deployments db)\<rparr>"

section \<open>Deployments\<close>

definition InsertDeployment :: "Deployment \<Rightarrow> DB \<Rightarrow> nat result \<times> DB" where
  "InsertDeployment d db =
     (if d_ProjectID d \<notin> table_keys (db_projects db) then (Inl err_foreign_key, db)
      else let i = Suc (db_deploy_seq db) in
        (Inr i, db\<lparr>db_deployments := db_deployments db @
                     [d\<lparr>d_ID := i, d_StartedAt := rfc3339 (d_StartedAt d),
                         d_EndedAt := fmtTime (d_EndedAt d)\<rparr>],
                   db_deploy_seq := i\<rparr>))"

definition FinishDeployment :: "int \<Rightarrow> nat \<Rightarrow> DeployStatus \<Rightarrow> string \<Rightarrow> DB \<Rightarrow> DB" where
  "FinishDeployment now i status errMsg db =
     db\<lparr>db_deployments := map (\<lambda>d. if d_ID d = i
            then d\<lparr>d_Status := status, d_EndedAt := Some (rfc3339 now), d_ErrorMessage := errMsg\<rparr>
            else d) (db_deployments db)\<rparr>"

definition ListDeployments :: "DB \<Rightarrow> string \<Rightarrow> nat \<Rightarrow> Deployment list" where
  "ListDeployments db pid limit =
     take limit (sort_key (\<lambda>d. - d_StartedAt d)
       (filter (\<lambda>d. d_ProjectID d = pid) (db_deployments db)))"

section \<open>Tunnels\<close>

definition CreateTunnel ::
    "Codec \<Rightarrow> string result \<Rightarrow> string result \<Rightarrow> int \<Rightarrow> Tunnel \<Rightarrow> DB \<Rightarrow> unit result \<times> DB" where
  "CreateTunnel cd rand1 rand2 now t db =
     (case encryptOptionalTunnelSecret cd rand1 (t_ID t) ''tunnel_secret'' (t_TunnelSecret t) of
        Inl e \<Rightarrow> (Inl e, db)
      | Inr secret \<Rightarrow>
          (case encryptOptionalTunnelSecret cd rand2 (t_ID t) ''cf_api_token'' (t_CFAPIToken t) of
             Inl e \<Rightarrow> (Inl e, db)
           | Inr token \<Rightarrow>
               if t_ID t \<in> table_keys (db_tunnels db) then (Inl err_unique, db)
               else (Inr (), db\<lparr>db_tunnels := sql_insert (t_ID t)
                       (t\<lparr>t_TunnelSecret := secret, t_CFAPIToken := token,
                          t_CreatedAt := rfc3339 now, t_UpdatedAt := rfc3339 now\<rparr>)
                       (db_tunnels db)\<rparr>)))"

definition UpdateTunnel ::
    "Codec \<Rightarrow> string result \<Rightarrow> string result \<Rightarrow> int \<Rightarrow> Tunnel \<Rightarrow> DB \<Rightarrow> unit result \<times> DB" where
  "UpdateTunnel cd rand1 rand2 now t db =
     (case encryptOptionalTunnelSecret cd rand1 (t_ID t) ''tunnel_secret'' (t_TunnelSecret t) of
        Inl e \<Rightarrow> (Inl e, db)
      | Inr secret \<Rightarrow>
          (case encryptOptionalTunnelSecret cd rand2 (t_ID t) ''cf_api_token'' (t_CFAPIToken t) of
             Inl e \<Rightarrow> (Inl e, db)
           | Inr token \<Rightarrow>
               (Inr (), db\<lparr>db_tunnels := sql_update (t_ID t)
                  (\<lambda>r. t\<lparr>t_TunnelSecret := secret, t_CFAPIToken := token,
                         t_CreatedAt := t_CreatedAt r, t_UpdatedAt := rfc3339 now\<rparr>)
                  (db_tunnels db)\<rparr>)))"

definition db_DeleteTunnel :: "string \<Rightarrow> DB \<Rightarrow> unit result \<times> DB" where
  "db_DeleteTunnel i db = (Inr (), db\<lparr>db_tunnels := sql_delete i (db_tunnels db)\<rparr>)"

definition scan_secret :: "Codec \<Rightarrow> string \<Rightarrow> string \<Rightarrow> string \<Rightarrow> string result" where
  "scan_secret cd i field stored =
     (if stored = '''' then Inr '''' else secret_decrypt cd (tunnelSecretAAD i field) stored)"

definition scanTunnel :: "Codec \<Rightarrow> Tunnel \<Rightarrow> Tunnel result" where
  "scanTunnel cd t =
     (case scan_secret cd (t_ID t) ''tunnel_secret'' (t_TunnelSecret t) of
        Inl e \<Rightarrow> Inl (''decrypt tunnel '' @ t_ID t @ '' secret: '' @ e)
      | Inr secret \<Rightarrow>
          (case scan_secret cd (t_ID t) ''cf_api_token'' (t_CFAPIToken t) of
             Inl e \<Rightarrow> Inl (''decrypt tunnel '' @ t_ID t @ '' API token: '' @ e)
           | Inr token \<Rightarrow> Inr (t\<lparr>t_TunnelSecret := secret, t_CFAPIToken := token\<rparr>)))"

definition GetTunnel :: "Codec \<Rightarrow> DB \<Rightarrow> string \<Rightarrow> Tunnel result" where
  "GetTunnel cd db i =
     (case map_of (db_tunnels db) i of None \<Rightarrow> Inl err_no_rows | Some t \<Rightarrow> scanTunnel cd t)"

definition ListTunnels :: "Codec \<Rightarrow> DB \<Rightarrow> Tunnel list result" where
  "ListTunnels cd db = scan_all (scanTunnel cd) (map snd (sql_ordered (db_tunnels db)))"

section \<open>Password\<close>

definition SetPassword :: "int \<Rightarrow> string \<Rightarrow> DB \<Rightarrow> DB" where
  "SetPassword now hash db = db\<lparr>db_auth := Some (hash, rfc3339 now)\<rparr>"

definition GetPasswordHash :: "DB \<Rightarrow> string result" where
  "GetPasswordHash db = (case db_auth db of None \<Rightarrow> Inl err_no_rows | Some (h, t) \<Rightarrow> Inr h)"

section \<open>Backup runs\<close>

definition InsertBackupRun :: "BackupRun \<Rightarrow> DB \<Rightarrow> nat result \<times> DB" where
  "InsertBackupRun r db =
     (if br_ProjectID r \<notin> table_keys (db_projects db) then (Inl err_foreign_key, db)
      else let i = Suc (db_backup_seq db) in
        (Inr i, db\<lparr>db_backup_runs := db_backup_runs db @
                     [r\<lparr>br_ID := i, br_StartedAt := rfc3339 (br_StartedAt r),
                         br_EndedAt := fmtTime (br_EndedAt r)\<rparr>],
                   db_backup_seq := i\<rparr>))"

definition FinishBackupRun ::
    "int \<Rightarrow> nat \<Rightarrow> BackupStatus \<Rightarrow> string \<Rightarrow> string \<Rightarrow> int \<Rightarrow> string \<Rightarrow> DB \<Rightarrow> DB" where
  "FinishBackupRun now i status filePath sha nbytes errMsg db =
     db\<lparr>db_backup_runs := map (\<lambda>r. if br_ID r = i
            then r\<lparr>br_Status := status, br_FilePath := filePath, br_SHA256 := sha,
                    br_Bytes := nbytes, br_EndedAt := Some (rfc3339 now), br_Error := errMsg\<rparr>
            else r) (db_backup_runs db)\<rparr>"

definition ListBackupRuns :: "DB \<Rightarrow> string \<Rightarrow> int \<Rightarrow> BackupRun list" where
  "ListBackupRuns db pid limit =
     take (nat (if limit \<le> 0 then 50 else limit))
       (sort_key (\<lambda>r. - br_StartedAt r) (filter (\<lambda>r. br_ProjectID r = pid) (db_backup_runs db)))"

definition ResetStaleBackups :: "int \<Rightarrow> DB \<Rightarrow> DB" where
  "ResetStaleBackups now db =
     db\<lparr>db_backup_runs := map (\<lambda>r. if br_Status r = BackupInProgress
            then r\<lparr>br_Status := BackupFailed, br_EndedAt := Some (rfc3339 now),
                    br_Error := ''interrupted by restart''\<rparr> else r) (db_backup_runs db)\<rparr>"

end
