(* ===== verification/Database_Inv.thy ===== *)
theory Database_Inv
  imports Database
begin

text \<open>
  What the database promises its clients: the invariant \<open>db_ok\<close> of the schema, kept by every
  operation; the read-after-write laws of the state table, stated as the interface
  \<open>state_store\<close> that the deployer and the scheduler are verified against; the audit-log
  interface \<open>run_log\<close> shared by deployments and backup runs; round trips of projects and
  tunnels through their encrypted columns.
\<close>

section \<open>The invariant of the schema\<close>

definition deployments_ok :: "DB \<Rightarrow> bool" where
  "deployments_ok db \<longleftrightarrow>
     distinct (map d_ID (db_deployments db)) \<and>
     (\<forall>d \<in> set (db_deployments db).
        d_ID d \<le> db_deploy_seq db \<and> d_ProjectID d \<in> table_keys (db_projects db))"

definition backup_runs_ok :: "DB \<Rightarrow> bool" where
  "backup_runs_ok db \<longleftrightarrow>
     distinct (map br_ID (db_backup_runs db)) \<and>
     (\<forall>r \<in> set (db_backup_runs db).
        br_ID r \<le> db_backup_seq db \<and> br_ProjectID r \<in> table_keys (db_projects db))"

definition projects_ok :: "DB \<Rightarrow> bool" where
  "projects_ok db \<longleftrightarrow>
     table_ok (db_projects db) \<and>
     rows_all (\<lambda>i r. p_ID (row_project r) = i \<and> isEncryptedSecret (row_env_vars r))
       (db_projects db)"

definition states_ok :: "DB \<Rightarrow> bool" where
  "states_ok db \<longleftrightarrow>
     table_ok (db_states db) \<and> table_keys (db_states db) = table_keys (db_projects db) \<and>
     rows_all (\<lambda>i s. st_ProjectID s = i) (db_states db)"

text \<open>A credential column is empty or encrypted; never plain text.\<close>

definition tunnels_ok :: "DB \<Rightarrow> bool" where
  "tunnels_ok db \<longleftrightarrow>
     table_ok (db_tunnels db) \<and>
     rows_all (\<lambda>i t. t_ID t = i \<and>
        (t_TunnelSecret t = '''' \<or> isEncryptedSecret (t_TunnelSecret t)) \<and>
        (t_CFAPIToken t = '''' \<or> isEncryptedSecret (t_CFAPIToken t))) (db_tunnels db)"

definition db_ok :: "DB \<Rightarrow> bool" where
  "db_ok db \<longleftrightarrow>
     projects_ok db \<and> states_ok db \<and> deployments_ok db \<and> backup_runs_ok db \<and> tunnels_ok db"

lemmas db_ok_defs = db_ok_def projects_ok_def states_ok_def deployments_ok_def
  backup_runs_ok_def tunnels_ok_def

lemma db_ok_empty [wf_intros]: "db_ok empty_db"
  by (simp add: db_ok_defs empty_db_def table_keys_def)



lemma db_ok_CreateProject [wf_intros]: "db_ok db \<Longrightarrow> db_ok (snd (CreateProject cd r now p db))"
  by (auto simp: db_ok_defs CreateProject_def project_columns_def Let_def
        initial_state_def secret_encrypt_isEncrypted split: sum.splits)

lemma db_ok_UpdateProject [wf_intros]: "db_ok db \<Longrightarrow> db_ok (snd (UpdateProject cd r now p db))"
  unfolding UpdateProject_def
  by (auto simp: db_ok_defs project_columns_def secret_encrypt_isEncrypted
      intro!: rows_all_update split: sum.splits)

lemma db_ok_DeleteProject [wf_intros]: "db_ok db \<Longrightarrow> db_ok (snd (DeleteProject i db))"
  unfolding DeleteProject_def
  by (auto simp: db_ok_defs distinct_map_filter intro!: rows_all_delete)

lemma db_ok_UpdateState [wf_intros]: "db_ok db \<Longrightarrow> db_ok (UpdateState s db)"
  unfolding UpdateState_def
  by (auto simp: db_ok_defs intro!: rows_all_update)

lemma map_ID_ResetStaleStates:
  "map d_ID (db_deployments (ResetStaleStates now db)) = map d_ID (db_deployments db)"
  by (simp add: ResetStaleStates_def comp_def if_distrib cong: if_cong)

lemma db_ok_ResetStaleStates [wf_intros]: "db_ok db \<Longrightarrow> db_ok (ResetStaleStates now db)"
  using map_ID_ResetStaleStates [of now db]
  by (auto simp: db_ok_defs) (auto simp: ResetStaleStates_def intro!: rows_all_update_all)

lemma db_ok_InsertDeployment [wf_intros]: "db_ok db \<Longrightarrow> db_ok (snd (InsertDeployment d db))"
  by (fastforce simp: db_ok_defs InsertDeployment_def Let_def)

lemma map_ID_FinishDeployment:
  "map d_ID (db_deployments (FinishDeployment now i st e db)) = map d_ID (db_deployments db)"
  by (simp add: FinishDeployment_def comp_def if_distrib cong: if_cong)

lemma db_ok_FinishDeployment [wf_intros]: "db_ok db \<Longrightarrow> db_ok (FinishDeployment now i st e db)"
  using map_ID_FinishDeployment [of now i st e db]
  by (auto simp: db_ok_defs) (auto simp: FinishDeployment_def)

lemma encryptOptional_ok:
  "encryptOptionalTunnelSecret cd r i f v = Inr s \<Longrightarrow> s = '''' \<or> isEncryptedSecret s"
  by (auto simp: encryptOptionalTunnelSecret_def secret_encrypt_isEncrypted
      split: if_splits sum.splits)

lemma db_ok_CreateTunnel [wf_intros]: "db_ok db \<Longrightarrow> db_ok (snd (CreateTunnel cd r1 r2 now t db))"
  by (auto simp: db_ok_defs CreateTunnel_def split: sum.splits
      dest: encryptOptional_ok)

lemma db_ok_UpdateTunnel [wf_intros]: "db_ok db \<Longrightarrow> db_ok (snd (UpdateTunnel cd r1 r2 now t db))"
  unfolding UpdateTunnel_def
  by (auto simp: db_ok_defs intro!: rows_all_update split: sum.splits dest: encryptOptional_ok)

lemma db_ok_DeleteTunnel [wf_intros]: "db_ok db \<Longrightarrow> db_ok (snd (db_DeleteTunnel i db))"
  unfolding db_DeleteTunnel_def by (auto simp: db_ok_defs intro!: rows_all_delete)

lemma db_ok_SetPassword [wf_intros]: "db_ok db \<Longrightarrow> db_ok (SetPassword now h db)"
  by (simp add: db_ok_defs SetPassword_def)

lemma db_ok_InsertBackupRun [wf_intros]: "db_ok db \<Longrightarrow> db_ok (snd (InsertBackupRun r db))"
  by (fastforce simp: db_ok_defs InsertBackupRun_def Let_def)

lemma map_ID_FinishBackupRun:
  "map br_ID (db_backup_runs (FinishBackupRun now i st f h n e db)) = map br_ID (db_backup_runs db)"
  by (simp add: FinishBackupRun_def comp_def if_distrib cong: if_cong)

lemma db_ok_FinishBackupRun [wf_intros]:
  "db_ok db \<Longrightarrow> db_ok (FinishBackupRun now i st f h n e db)"
  using map_ID_FinishBackupRun [of now i st f h n e db]
  by (auto simp: db_ok_defs) (auto simp: FinishBackupRun_def)

lemma map_ID_ResetStaleBackups:
  "map br_ID (db_backup_runs (ResetStaleBackups now db)) = map br_ID (db_backup_runs db)"
  by (simp add: ResetStaleBackups_def comp_def if_distrib cong: if_cong)

lemma db_ok_ResetStaleBackups [wf_intros]: "db_ok db \<Longrightarrow> db_ok (ResetStaleBackups now db)"
  using map_ID_ResetStaleBackups [of now db]
  by (auto simp: db_ok_defs) (auto simp: ResetStaleBackups_def)

section \<open>Reachable databases\<close>

text \<open>One operation of the daemon on the database, with any arguments.\<close>

inductive db_step :: "DB \<Rightarrow> DB \<Rightarrow> bool" where
  step_create: "db_step db (snd (CreateProject cd r now p db))"
| step_update: "db_step db (snd (UpdateProject cd r now p db))"
| step_delete: "db_step db (snd (DeleteProject i db))"
| step_state: "db_step db (UpdateState s db)"
| step_reset: "db_step db (ResetStaleStates now db)"
| step_insert: "db_step db (snd (InsertDeployment d db))"
| step_finish: "db_step db (FinishDeployment now n status msg db)"
| step_tunnel_create: "db_step db (snd (CreateTunnel cd r r' now t db))"
| step_tunnel_update: "db_step db (snd (UpdateTunnel cd r r' now t db))"
| step_tunnel_delete: "db_step db (snd (db_DeleteTunnel i db))"
| step_password: "db_step db (SetPassword now h db)"
| step_backup_insert: "db_step db (snd (InsertBackupRun b db))"
| step_backup_finish: "db_step db (FinishBackupRun now n bstatus f h bytes msg db)"
| step_backup_reset: "db_step db (ResetStaleBackups now db)"

inductive_cases db_stepE: "db_step db db'"

definition db_reachable :: "DB \<Rightarrow> bool" where
  "db_reachable db \<longleftrightarrow> db_step\<^sup>*\<^sup>* empty_db db"

lemma db_ok_step: "db_step db db' \<Longrightarrow> db_ok db \<Longrightarrow> db_ok db'"
  by (induction rule: db_step.induct) (simp_all add: wf_intros)

text \<open>
  Property C10. Every database the daemon can reach from an empty one is well-formed: project,
  state and tunnel ids are unique, each project has exactly one state row, every deployment and
  backup run has a unique id within its sequence and belongs to an existing project, and no
  environment or tunnel credential is stored in plain text.
\<close>

theorem db_reachable_ok: "db_reachable db \<Longrightarrow> db_ok db"
  unfolding db_reachable_def
  by (induction rule: rtranclp_induct) (auto simp: db_ok_empty intro: db_ok_step)

lemma db_reachable_step: "db_reachable db \<Longrightarrow> db_step db db' \<Longrightarrow> db_reachable db'"
  unfolding db_reachable_def by (rule rtranclp.rtrancl_into_rtrancl)

lemma db_reachable_empty: "db_reachable empty_db"
  by (simp add: db_reachable_def)

lemma db_reachable_ok_witness:
  "db_ok (UpdateState (initial_state ''a'') (SetPassword 0 ''h'' empty_db))"
proof -
  have "db_reachable (UpdateState (initial_state ''a'') (SetPassword 0 ''h'' empty_db))"
    by (intro db_reachable_step [OF _ step_state] db_reachable_step [OF _ step_password]
        db_reachable_empty)
  then show ?thesis by (rule db_reachable_ok)
qed

section \<open>The state table as an interface\<close>

text \<open>
  What the deployer and the scheduler rely on: a written state is read back (times at the
  resolution of the store), other keys are untouched, and a write without a row does nothing.
\<close>

locale state_store =
  fixes get :: "'d \<Rightarrow> 'k \<Rightarrow> 's option"
    and put :: "'s \<Rightarrow> 'd \<Rightarrow> 'd"
    and key :: "'s \<Rightarrow> 'k"
    and norm :: "'s \<Rightarrow> 's"
  assumes get_put: "get (put s d) k = (if k = key s then map_option (\<lambda>_. norm s) (get d k) else get d k)"
    and norm_key: "key (norm s) = key s"
    and norm_norm: "norm (norm s) = norm s"
begin

lemma get_put_same: "get d (key s) = Some r \<Longrightarrow> get (put s d) (key s) = Some (norm s)"
  by (simp add: get_put)

lemma get_put_other: "k \<noteq> key s \<Longrightarrow> get (put s d) k = get d k"
  by (simp add: get_put)

lemma put_missing: "get d (key s) = None \<Longrightarrow> get (put s d) = get d"
  by (auto simp: get_put)

lemma put_put: "key s = key s' \<Longrightarrow> get (put s (put s' d)) = get (put s d)"
  by (auto simp: get_put fun_eq_iff option.map_comp comp_def)

lemma put_commute: "key s \<noteq> key s' \<Longrightarrow> get (put s (put s' d)) = get (put s' (put s d))"
  by (auto simp: get_put fun_eq_iff)

lemma put_keys: "(get (put s d) k = None) = (get d k = None)"
  by (simp add: get_put)

lemma put_norm: "get (put (norm s) d) = get (put s d)"
  by (auto simp: get_put fun_eq_iff norm_key norm_norm)

end

definition state_of :: "DB \<Rightarrow> string \<Rightarrow> ProjectState option" where
  "state_of db i = (case GetState db i of Inl e \<Rightarrow> None | Inr s \<Rightarrow> Some s)"

definition stored_state :: "ProjectState \<Rightarrow> ProjectState" where
  "stored_state s = s\<lparr>st_LastCheckAt := fmtTime (st_LastCheckAt s),
     st_LastDeployAt := fmtTime (st_LastDeployAt s), st_LastSuccessAt := fmtTime (st_LastSuccessAt s)\<rparr>"

lemma fmtTime_fmtTime [simp]: "fmtTime (fmtTime x) = fmtTime x"
  by (cases x) (simp_all add: fmtTime_def rfc3339_def)

lemma state_of_map: "state_of db i = map_of (db_states db) i"
  by (simp add: state_of_def GetState_def split: option.splits)

interpretation states: state_store state_of UpdateState st_ProjectID stored_state
proof
  show "state_of (UpdateState s d) k =
      (if k = st_ProjectID s then map_option (\<lambda>_. stored_state s) (state_of d k) else state_of d k)" for s d k
    by (simp add: state_of_map UpdateState_def map_of_sql_update stored_state_def)
qed (simp_all add: stored_state_def)

section \<open>Audit logs as an interface\<close>

text \<open>
  Deployments and backup runs share a contract: a new record gets an id no other record has,
  finishing a record settles that one only, and a restart settles every open record.
\<close>

locale run_log =
  fixes entries :: "'d \<Rightarrow> 'r list"
    and ident :: "'r \<Rightarrow> nat"
    and open_run :: "'r \<Rightarrow> bool"
    and ins :: "'r \<Rightarrow> 'd \<Rightarrow> nat result \<times> 'd"
    and fin :: "nat \<Rightarrow> 'd \<Rightarrow> 'd"
    and reset :: "'d \<Rightarrow> 'd"
    and ok :: "'d \<Rightarrow> bool"
  assumes ins_ok: "ok d \<Longrightarrow> ins r d = (Inr i, d') \<Longrightarrow>
      \<exists>x. entries d' = entries d @ [x] \<and> ident x = i \<and> i \<notin> ident ` set (entries d)"
    and ins_error: "ins r d = (Inl e, d') \<Longrightarrow> d' = d"
    and fin_other: "r \<in> set (entries (fin i d)) \<Longrightarrow> ident r \<noteq> i \<Longrightarrow> r \<in> set (entries d)"
    and fin_settles: "r \<in> set (entries (fin i d)) \<Longrightarrow> ident r = i \<Longrightarrow> \<not> open_run r"
    and reset_settles: "r \<in> set (entries (reset d)) \<Longrightarrow> \<not> open_run r"
    and reset_idents: "map ident (entries (reset d)) = map ident (entries d)"
begin

definition settled :: "'d \<Rightarrow> bool" where
  "settled d \<longleftrightarrow> (\<forall>r \<in> set (entries d). \<not> open_run r)"

lemma settled_reset: "settled (reset d)"
  by (simp add: settled_def reset_settles)

text \<open>A run that is inserted and finished leaves no open record if there was none.\<close>

lemma settled_run:
  assumes "ok d" "settled d" "ins r d = (Inr i, d')"
  shows "settled (fin i d')"
  unfolding settled_def
proof
  fix x assume x: "x \<in> set (entries (fin i d'))"
  obtain y where y: "entries d' = entries d @ [y]" "ident y = i" "i \<notin> ident ` set (entries d)"
    using ins_ok [OF assms(1,3)] by blast
  show "\<not> open_run x"
  proof (cases "ident x = i")
    case True
    then show ?thesis using x fin_settles by blast
  next
    case False
    with x fin_other have "x \<in> set (entries d')" by blast
    with y False have "x \<in> set (entries d)" by auto
    with assms(2) show ?thesis by (simp add: settled_def)
  qed
qed

lemma fresh_ident:
  assumes "ok d" "ins r d = (Inr i, d')" "r' \<in> set (entries d)"
  shows "ident r' \<noteq> i"
  using ins_ok [OF assms(1,2)] assms(3) by (metis imageI)

end

lemma InsertDeployment_ok:
  assumes "db_ok d" "InsertDeployment r d = (Inr i, d')"
  shows "\<exists>x. db_deployments d' = db_deployments d @ [x] \<and> d_ID x = i \<and> i \<notin> d_ID ` set (db_deployments d)"
  using assms
  by (auto simp: InsertDeployment_def Let_def db_ok_def deployments_ok_def split: if_splits)
     fastforce

lemma InsertBackupRun_ok:
  assumes "db_ok d" "InsertBackupRun r d = (Inr i, d')"
  shows "\<exists>x. db_backup_runs d' = db_backup_runs d @ [x] \<and> br_ID x = i \<and> i \<notin> br_ID ` set (db_backup_runs d)"
  using assms
  by (auto simp: InsertBackupRun_def Let_def db_ok_def backup_runs_ok_def split: if_splits)
     fastforce

text \<open>Closing a record with either outcome.\<close>

definition settle_deployment :: "int \<Rightarrow> bool \<Rightarrow> string \<Rightarrow> nat \<Rightarrow> DB \<Rightarrow> DB" where
  "settle_deployment now success msg i =
     FinishDeployment now i (if success then DeploySuccess else DeployFailed) msg"

definition settle_backup :: "int \<Rightarrow> bool \<Rightarrow> string \<Rightarrow> nat \<Rightarrow> DB \<Rightarrow> DB" where
  "settle_backup now success msg i =
     FinishBackupRun now i (if success then BackupSuccess else BackupFailed) '''' '''' 0 msg"

interpretation deployments: run_log db_deployments d_ID "\<lambda>r. d_Status r = DeployInProgress"
    InsertDeployment "settle_deployment now success msg" "ResetStaleStates now" db_ok
  for now success msg
proof
  fix d :: DB and i
  show "map d_ID (db_deployments (ResetStaleStates now d)) = map d_ID (db_deployments d)"
    by (rule map_ID_ResetStaleStates)
qed (auto simp: settle_deployment_def FinishDeployment_def ResetStaleStates_def
    InsertDeployment_def Let_def InsertDeployment_ok split: if_splits)

interpretation backups: run_log db_backup_runs br_ID "\<lambda>r. br_Status r = BackupInProgress"
    InsertBackupRun "settle_backup now success msg" "ResetStaleBackups now" db_ok
  for now success msg
proof
  fix d :: DB and i
  show "map br_ID (db_backup_runs (ResetStaleBackups now d)) = map br_ID (db_backup_runs d)"
    by (rule map_ID_ResetStaleBackups)
qed (auto simp: settle_backup_def FinishBackupRun_def ResetStaleBackups_def
    InsertBackupRun_def Let_def InsertBackupRun_ok split: if_splits)

section \<open>Encrypted columns\<close>

text \<open>The project as it is read back: environment \<open>m\<close>, keys sorted, times in whole seconds.\<close>

definition read_back :: "int \<Rightarrow> smap \<Rightarrow> Project \<Rightarrow> Project" where
  "read_back now m p =
     (let ks = (case p_SecretEnvKeys p of None \<Rightarrow> map fst (env_entries p) | Some ks \<Rightarrow> ks)
      in p\<lparr>p_EnvVars := Some m, p_SecretEnvKeys := (if ks = [] then None else Some (sort ks)),
           p_CreatedAt := rfc3339 now, p_UpdatedAt := rfc3339 now\<rparr>)"

lemma scan_marshal:
  "scanSecretEnvKeys (marshalSecretEnvKeys env c) =
     Inr (let ks = (case c of None \<Rightarrow> map fst env | Some ks \<Rightarrow> ks) in if ks = [] then None else Some (sort ks))"
  by (simp add: scanSecretEnvKeys_def marshalSecretEnvKeys_def Let_def)

lemma decode_encrypted_env:
  assumes "aead_ok cd" "rand_ok cd r" "env_codec_ok cd m"
    and "secret_encrypt cd r (projectEnvAAD i) (cd_marshal_env cd m) = Inr v"
  shows "\<exists>m'. decodeProjectEnv cd i v = Inr m' \<and> map_of m' = map_of m"
  using assms(3) secret_decrypt_encrypt [OF assms(1,2,4), of "projectEnvAAD i"]
  by (auto simp: decodeProjectEnv_def env_codec_ok_def)

text \<open>
  Property C11. A project that is created is read back with the same fields and the same
  environment, although the environment is only ever stored encrypted. Relied on: the cipher
  opens what it sealed, the random source gives a full nonce, JSON reads back the map it wrote.
\<close>

theorem CreateProject_GetProject:
  assumes "aead_ok cd" "rand_ok cd r" "env_codec_ok cd (env_entries p)"
    and "p_ID p \<notin> table_keys (db_projects db)" "p_ID p \<notin> table_keys (db_states db)"
  shows "\<exists>db' m. CreateProject cd r now p db = (Inr (), db') \<and>
     GetProject cd db' (p_ID p) = Inr (read_back now m p) \<and> map_of m = map_of (env_entries p) \<and>
     GetState db' (p_ID p) = Inr (initial_state (p_ID p))"
proof -
  obtain v where v: "secret_encrypt cd r (projectEnvAAD (p_ID p)) (cd_marshal_env cd (env_entries p)) = Inr v"
    using secret_encrypt_rand_ok [OF assms(2)] by blast
  obtain m where m: "decodeProjectEnv cd (p_ID p) v = Inr m" "map_of m = map_of (env_entries p)"
    using decode_encrypted_env [OF assms(1,2,3) v] by blast
  have none: "map_of (db_projects db) (p_ID p) = None" "map_of (db_states db) (p_ID p) = None"
    using assms(4,5) by (simp_all add: map_of_eq_None table_keys_def)
  show ?thesis
    using assms(4,5) v m none
    by (intro exI [of _ "snd (CreateProject cd r now p db)"] exI [of _ m])
       (simp add: CreateProject_def Let_def GetProject_def GetState_def map_of_sql_insert
          scanProject_def scan_marshal project_columns_def read_back_def)
qed

text \<open>
  Ciphertext is bound to its row: an environment column decrypts in the row it was
  written for, and neither in the row of another project nor in a credential column of a tunnel.
\<close>

theorem env_bound_to_project:
  assumes "aead_ok cd" "rand_ok cd r"
    and "secret_encrypt cd r (projectEnvAAD i) t = Inr v"
  shows "secret_decrypt cd (projectEnvAAD j) v =
      (if i = j then Inr t else Inl ''decrypt secret: cipher: message authentication failed'') \<and>
    secret_decrypt cd (tunnelSecretAAD k f) v =
      Inl ''decrypt secret: cipher: message authentication failed''"
  using secret_decrypt_encrypt [OF assms] by (simp add: projectEnvAAD_inj AAD_disjoint)

lemma tunnelSecretAAD_inj:
  assumes "f \<in> {''tunnel_secret'', ''cf_api_token''}" "g \<in> {''tunnel_secret'', ''cf_api_token''}"
  shows "tunnelSecretAAD i f = tunnelSecretAAD j g \<longleftrightarrow> i = j \<and> f = g"
proof -
  have "rev (tunnelSecretAAD i f) = rev (tunnelSecretAAD j g) \<longleftrightarrow> i = j \<and> f = g"
    using assms by (auto simp: tunnelSecretAAD_def)
  then show ?thesis by simp
qed

lemma scan_encrypted:
  assumes "aead_ok cd" "rand_ok cd r"
    and "encryptOptionalTunnelSecret cd r i f v = Inr s"
  shows "scan_secret cd i f s = Inr v"
    and "v \<noteq> '''' \<Longrightarrow> tunnelSecretAAD i f \<noteq> tunnelSecretAAD j g \<Longrightarrow>
      scan_secret cd j g s = Inl ''decrypt secret: cipher: message authentication failed''"
proof -
  show "scan_secret cd i f s = Inr v"
  proof (cases "v = ''''")
    case False
    then have "secret_encrypt cd r (tunnelSecretAAD i f) v = Inr s"
      using assms(3) by (simp add: encryptOptionalTunnelSecret_def split: sum.splits)
    moreover from this have "s \<noteq> ''''"
      using secret_encrypt_isEncrypted by (fastforce simp: isEncryptedSecret_def secretPrefix_def)
    ultimately show ?thesis
      using secret_decrypt_encrypt [OF assms(1,2)] by (simp add: scan_secret_def)
  qed (use assms(3) in \<open>simp add: encryptOptionalTunnelSecret_def scan_secret_def\<close>)
  assume v: "v \<noteq> ''''" and ne: "tunnelSecretAAD i f \<noteq> tunnelSecretAAD j g"
  then have enc: "secret_encrypt cd r (tunnelSecretAAD i f) v = Inr s"
    using assms(3) by (simp add: encryptOptionalTunnelSecret_def split: sum.splits)
  then have "s \<noteq> ''''"
    using secret_encrypt_isEncrypted by (fastforce simp: isEncryptedSecret_def secretPrefix_def)
  with ne show "scan_secret cd j g s = Inl ''decrypt secret: cipher: message authentication failed''"
    using secret_decrypt_encrypt [OF assms(1,2) enc] by (simp add: scan_secret_def)
qed

lemma encryptOptional_rand_ok:
  "rand_ok cd r \<Longrightarrow> \<exists>s. encryptOptionalTunnelSecret cd r i f v = Inr s"
  using secret_encrypt_rand_ok [of cd r "tunnelSecretAAD i f" v]
  by (auto simp: encryptOptionalTunnelSecret_def)

text \<open>
  A tunnel that is created is read back with its credentials, which are stored
  encrypted (or empty), and the stored secret does not decrypt in the token column, nor in any
  column of another tunnel.
\<close>

theorem CreateTunnel_GetTunnel:
  assumes "aead_ok cd" "rand_ok cd r1" "rand_ok cd r2" "t_ID t \<notin> table_keys (db_tunnels db)"
    and "t_TunnelSecret t \<noteq> ''''"
  shows "\<exists>db' row. CreateTunnel cd r1 r2 now t db = (Inr (), db') \<and>
     GetTunnel cd db' (t_ID t) =
       Inr (t\<lparr>t_CreatedAt := rfc3339 now, t_UpdatedAt := rfc3339 now\<rparr>) \<and>
     map_of (db_tunnels db') (t_ID t) = Some row \<and>
     isEncryptedSecret (t_TunnelSecret row) \<and>
     (t_CFAPIToken row = '''' \<or> isEncryptedSecret (t_CFAPIToken row)) \<and>
     scan_secret cd (t_ID t) ''cf_api_token'' (t_TunnelSecret row) =
       Inl ''decrypt secret: cipher: message authentication failed'' \<and>
     (\<forall>j. j = t_ID t \<or> scan_secret cd j ''tunnel_secret'' (t_TunnelSecret row) =
       Inl ''decrypt secret: cipher: message authentication failed'')"
proof -
  obtain s where s: "encryptOptionalTunnelSecret cd r1 (t_ID t) ''tunnel_secret'' (t_TunnelSecret t) = Inr s"
    using encryptOptional_rand_ok [OF assms(2)] by blast
  obtain k where k: "encryptOptionalTunnelSecret cd r2 (t_ID t) ''cf_api_token'' (t_CFAPIToken t) = Inr k"
    using encryptOptional_rand_ok [OF assms(3)] by blast
  let ?row = "t\<lparr>t_TunnelSecret := s, t_CFAPIToken := k, t_CreatedAt := rfc3339 now,
    t_UpdatedAt := rfc3339 now\<rparr>"
  have enc: "isEncryptedSecret s"
    using s assms(5) by (auto simp: encryptOptionalTunnelSecret_def secret_encrypt_isEncrypted split: sum.splits)
  have bound: "scan_secret cd j g s = Inl ''decrypt secret: cipher: message authentication failed''"
    if "tunnelSecretAAD (t_ID t) ''tunnel_secret'' \<noteq> tunnelSecretAAD j g" for j g
    using scan_encrypted(2) [OF assms(1,2) s assms(5)] that .
  have b1: "scan_secret cd (t_ID t) ''cf_api_token'' s =
      Inl ''decrypt secret: cipher: message authentication failed''"
    by (rule bound) (simp add: tunnelSecretAAD_inj)
  have b2: "j = t_ID t \<or> scan_secret cd j ''tunnel_secret'' s =
      Inl ''decrypt secret: cipher: message authentication failed''" for j
    using bound [of j "''tunnel_secret''"] by (auto simp: tunnelSecretAAD_inj)
  have "map_of (db_tunnels db) (t_ID t) = None"
    using assms(4) by (simp add: map_of_eq_None table_keys_def)
  then show ?thesis
    using assms(4) s k enc b1 b2 encryptOptional_ok [OF k]
      scan_encrypted(1) [OF assms(1,2) s] scan_encrypted(1) [OF assms(1,3) k]
    by (intro exI [of _ "snd (CreateTunnel cd r1 r2 now t db)"] exI [of _ ?row])
       (simp add: CreateTunnel_def GetTunnel_def scanTunnel_def map_of_sql_insert)
qed

definition interrupted :: "int \<Rightarrow> Deployment \<Rightarrow> Deployment" where
  "interrupted now d = d\<lparr>d_Status := DeployFailed, d_EndedAt := Some (rfc3339 now),
     d_ErrorMessage := ''interrupted by restart''\<rparr>"

text \<open>
  A restart leaves no project in state \<open>deploying\<close> and no deployment or backup run
  in progress: those become failed with the error \<open>interrupted by restart\<close>, and every other
  state and deployment stays as it was.
\<close>

lemma restart_settled:
  "GetState (ResetStaleBackups now (ResetStaleStates now db)) i =
     (case GetState db i of
        Inl e \<Rightarrow> Inl e
      | Inr s \<Rightarrow> Inr (if st_Status s = StatusDeploying
          then s\<lparr>st_Status := StatusFailed, st_LastError := ''interrupted by restart''\<rparr> else s)) \<and>
   db_deployments (ResetStaleBackups now (ResetStaleStates now db)) =
     map (\<lambda>d. if d_Status d = DeployInProgress then interrupted now d else d) (db_deployments db) \<and>
   list_all (\<lambda>d. d_Status d \<noteq> DeployInProgress)
     (db_deployments (ResetStaleBackups now (ResetStaleStates now db))) \<and>
   list_all (\<lambda>r. br_Status r \<noteq> BackupInProgress)
     (db_backup_runs (ResetStaleBackups now (ResetStaleStates now db)))"
proof -
  have dep: "db_deployments (ResetStaleBackups now (ResetStaleStates now db)) =
      db_deployments (ResetStaleStates now db)"
    by (simp add: ResetStaleBackups_def)
  have d: "list_all (\<lambda>d. d_Status d \<noteq> DeployInProgress)
      (db_deployments (ResetStaleBackups now (ResetStaleStates now db)))"
    using deployments.settled_reset [of now db] unfolding deployments.settled_def dep list_all_iff .
  have b: "list_all (\<lambda>r. br_Status r \<noteq> BackupInProgress)
      (db_backup_runs (ResetStaleBackups now (ResetStaleStates now db)))"
    using backups.settled_reset [of now "ResetStaleStates now db"]
    unfolding backups.settled_def list_all_iff .
  have "db_deployments (ResetStaleStates now db) =
      map (\<lambda>d. if d_Status d = DeployInProgress then interrupted now d else d) (db_deployments db)"
    by (simp add: ResetStaleStates_def interrupted_def)
  with d b show ?thesis
    by (simp add: dep GetState_def ResetStaleBackups_def ResetStaleStates_def
        map_of_sql_update_all split: option.splits)
qed

end
