(* ===== verification/World.thy ===== *)
theory World
  imports Database_Inv "HOL-Library.State_Monad"
begin

text \<open>
  The world the daemon acts on and the operations of Go's standard library that touch it. A
  \<open>World\<close> is the daemon's own state (database, deploy locks, published events) with the
  file system and a trace of the calls to the outside. What the outside answers is the
  parameter \<open>Env\<close>: an oracle per kind of call, indexed by the number of calls made so far,
  so that two equal calls may answer differently. Handlers are programs of the state monad;
  \<open>leaves\<close> and \<open>keeps\<close> are the rules for what a program does not touch and what it preserves.
  A system call that fails changes nothing; symbolic links are not modelled.
\<close>

section \<open>State\<close>

datatype Node = DirNode | FileNode string int

text \<open>A file system: cleaned absolute paths, each with a directory or contents and mode.\<close>

type_synonym fs = "(string \<times> Node) list"

text \<open>
  What the daemon asks of the outside; a command is recorded with the files it saw, a request to
  a remote API with its method, address and body.
\<close>

datatype Action =
    ActRun "string list" string fs
  | ActGet string
  | ActDial string
  | ActSleep int
  | ActCall string string string

record World =
  w_db :: DB
  w_fs :: fs
  w_locks :: "string list"
  w_events :: "Event list"
  w_trace :: "Action list"
  w_tick :: nat
  w_backup_locks :: "string list"

text \<open>
  The outcome of a command: a start failure, the two output streams with the order in which
  their lines arrive (\<open>True\<close> takes from stdout), the output read as one stream, the error of
  \<open>Wait\<close>, whether the process exited by itself and its code, and the file system it leaves.
\<close>

record ExecOut =
  xo_Start :: "error option"
  xo_Stdout :: string
  xo_Stderr :: string
  xo_Order :: "bool list"
  xo_Combined :: string
  xo_Wait :: "error option"
  xo_Exited :: bool
  xo_ExitCode :: int
  xo_FS :: fs

record Env =
  env_now :: "nat \<Rightarrow> int"
  env_exec :: "nat \<Rightarrow> string list \<Rightarrow> fs \<Rightarrow> ExecOut"
  env_http :: "nat \<Rightarrow> string \<Rightarrow> int result"
  env_dial :: "nat \<Rightarrow> string \<Rightarrow> error option"
  env_fs_error :: "nat \<Rightarrow> string \<Rightarrow> error option"
  env_rand :: "nat \<Rightarrow> string result"
  env_done :: "nat \<Rightarrow> bool"
  env_pipe :: "nat \<Rightarrow> error option"

type_synonym 'a io = "(World, 'a) state"

abbreviation ret :: "'a \<Rightarrow> 'a io" where
  "ret \<equiv> State_Monad.return"

section \<open>Programs\<close>

definition io_tick :: "nat io" where
  "io_tick = State (\<lambda>w. (w_tick w, w\<lparr>w_tick := Suc (w_tick w)\<rparr>))"

definition io_gets :: "(World \<Rightarrow> 'a) \<Rightarrow> 'a io" where
  "io_gets f = State (\<lambda>w. (f w, w))"

definition io_trace :: "Action \<Rightarrow> unit io" where
  "io_trace a = State (\<lambda>w. ((), w\<lparr>w_trace := w_trace w @ [a]\<rparr>))"

definition db_read :: "(DB \<Rightarrow> 'a) \<Rightarrow> 'a io" where
  "db_read f = io_gets (\<lambda>w. f (w_db w))"

definition db_write :: "(DB \<Rightarrow> DB) \<Rightarrow> unit io" where
  "db_write f = State (\<lambda>w. ((), w\<lparr>w_db := f (w_db w)\<rparr>))"

definition db_exec :: "(DB \<Rightarrow> 'a \<times> DB) \<Rightarrow> 'a io" where
  "db_exec f = State (\<lambda>w. case f (w_db w) of (a, d) \<Rightarrow> (a, w\<lparr>w_db := d\<rparr>))"

text \<open>\<open>time.Now().UTC()\<close>, \<open>time.Sleep\<close>, \<open>ctx.Err() != nil\<close> and a random nonce.\<close>

definition time_Now :: "Env \<Rightarrow> int io" where
  "time_Now e = do { t \<leftarrow> io_tick; ret (env_now e t) }"

definition time_Sleep :: "int \<Rightarrow> unit io" where
  "time_Sleep d = io_trace (ActSleep d)"

definition ctx_Err :: "Env \<Rightarrow> bool io" where
  "ctx_Err e = do { t \<leftarrow> io_tick; ret (env_done e t) }"

definition rand_Read :: "Env \<Rightarrow> string result io" where
  "rand_Read e = do { t \<leftarrow> io_tick; ret (env_rand e t) }"

text \<open>Creating the pipe of an output stream.\<close>

definition os_Pipe :: "Env \<Rightarrow> error option io" where
  "os_Pipe e = do { t \<leftarrow> io_tick; ret (env_pipe e t) }"

text \<open>\<open>if err := m; err != nil { return fmt.Errorf("<prefix>: %w", err) }\<close>, then \<open>k\<close>.\<close>

definition check_err :: "string \<Rightarrow> unit result io \<Rightarrow> 'a result io \<Rightarrow> 'a result io" where
  "check_err pfx m k = do {
     r \<leftarrow> m;
     case r of Inl err \<Rightarrow> ret (Inl (pfx @ err)) | Inr u \<Rightarrow> k
   }"

text \<open>A for loop whose body returns early on an error.\<close>

fun io_for :: "('a \<Rightarrow> unit result io) \<Rightarrow> 'a list \<Rightarrow> unit result io" where
  "io_for f [] = ret (Inr ())"
| "io_for f (x # xs) = do {
     r \<leftarrow> f x;
     case r of Inl err \<Rightarrow> ret (Inl err) | Inr u \<Rightarrow> io_for f xs
   }"

fun io_each :: "('a \<Rightarrow> unit io) \<Rightarrow> 'a list \<Rightarrow> unit io" where
  "io_each f [] = ret ()"
| "io_each f (x # xs) = do { f x; io_each f xs }"

section \<open>Files\<close>

text \<open>The directories above a path, nearest first, \<open>/\<close> excluded, and the path itself.\<close>

definition path_prefixes :: "string \<Rightarrow> string list" where
  "path_prefixes p =
     (let cs = path_comps p
      in map (\<lambda>n. render_path (IsAbs p) (take n cs)) (rev [1 ..< Suc (length cs)]))"

definition is_file :: "fs \<Rightarrow> string \<Rightarrow> bool" where
  "is_file f p \<longleftrightarrow> (case map_of f p of Some (FileNode c m) \<Rightarrow> True | _ \<Rightarrow> False)"

definition is_dir :: "fs \<Rightarrow> string \<Rightarrow> bool" where
  "is_dir f p \<longleftrightarrow> p = ''/'' \<or> map_of f p = Some DirNode"

datatype stat_result = StatFound Node | StatMissing | StatError error

definition fs_stat :: "fs \<Rightarrow> string \<Rightarrow> stat_result" where
  "fs_stat f path =
     (let p = Clean path in
      if p = ''/'' then StatFound DirNode
      else case map_of f p of
        Some n \<Rightarrow> StatFound n
      | None \<Rightarrow> if list_ex (is_file f) (tl (path_prefixes p))
          then StatError (''stat '' @ path @ '': not a directory'') else StatMissing)"

definition os_Stat :: "Env \<Rightarrow> string \<Rightarrow> stat_result io" where
  "os_Stat e path = do {
     t \<leftarrow> io_tick;
     case env_fs_error e t path of
       Some err \<Rightarrow> ret (StatError err)
     | None \<Rightarrow> io_gets (\<lambda>w. fs_stat (w_fs w) path)
   }"

text \<open>\<open>deployer.fileExists\<close> and \<open>runtime.fileExists\<close>.\<close>

definition fileExists :: "Env \<Rightarrow> string \<Rightarrow> bool io" where
  "fileExists e path = do {
     r \<leftarrow> os_Stat e path;
     ret (case r of StatFound n \<Rightarrow> True | _ \<Rightarrow> False)
   }"

definition fs_op :: "Env \<Rightarrow> string \<Rightarrow> (fs \<Rightarrow> fs result) \<Rightarrow> unit result io" where
  "fs_op e path f = do {
     t \<leftarrow> io_tick;
     case env_fs_error e t path of
       Some err \<Rightarrow> ret (Inl err)
     | None \<Rightarrow> State (\<lambda>w. case f (w_fs w) of
         Inl err \<Rightarrow> (Inl err, w)
       | Inr fs' \<Rightarrow> (Inr (), w\<lparr>w_fs := fs'\<rparr>))
   }"

definition fs_MkdirAll :: "string \<Rightarrow> fs \<Rightarrow> fs result" where
  "fs_MkdirAll path f =
     (if list_ex (is_file f) (path_prefixes path)
      then Inl (''mkdir '' @ path @ '': not a directory'')
      else Inr (foldl (\<lambda>g d. if is_dir g d then g else AList.update d DirNode g) f
             (rev (path_prefixes path))))"

definition fs_WriteFile :: "string \<Rightarrow> string \<Rightarrow> int \<Rightarrow> fs \<Rightarrow> fs result" where
  "fs_WriteFile path data mode f =
     (let p = Clean path in
      if is_dir f p then Inl (''open '' @ path @ '': is a directory'')
      else if \<not> is_dir f (DirOf p) then Inl (''open '' @ path @ '': no such file or directory'')
      else case map_of f p of
        Some (FileNode old m) \<Rightarrow> Inr (AList.update p (FileNode data m) f)
      | _ \<Rightarrow> Inr (AList.update p (FileNode data mode) f))"

definition fs_Chmod :: "string \<Rightarrow> int \<Rightarrow> fs \<Rightarrow> fs result" where
  "fs_Chmod path mode f =
     (let p = Clean path in
      case map_of f p of
        Some (FileNode c m) \<Rightarrow> Inr (AList.update p (FileNode c mode) f)
      | Some DirNode \<Rightarrow> Inr f
      | None \<Rightarrow> Inl (''chmod '' @ path @ '': no such file or directory''))"

text \<open>\<open>os.Remove\<close> of a file or of an empty directory.\<close>

definition fs_Remove :: "string \<Rightarrow> fs \<Rightarrow> fs result" where
  "fs_Remove path f =
     (let p = Clean path in
      case map_of f p of
        None \<Rightarrow> Inl (''remove '' @ path @ '': no such file or directory'')
      | Some n \<Rightarrow>
          if n = DirNode \<and> list_ex (\<lambda>(q, m). DirOf q = p) f
          then Inl (''remove '' @ path @ '': directory not empty'')
          else Inr (filter (\<lambda>(q, m). q \<noteq> p) f))"

definition os_MkdirAll :: "Env \<Rightarrow> string \<Rightarrow> unit result io" where
  "os_MkdirAll e path = fs_op e path (fs_MkdirAll path)"

definition os_WriteFile :: "Env \<Rightarrow> string \<Rightarrow> string \<Rightarrow> int \<Rightarrow> unit result io" where
  "os_WriteFile e path data mode = fs_op e path (fs_WriteFile path data mode)"

definition os_Chmod :: "Env \<Rightarrow> string \<Rightarrow> int \<Rightarrow> unit result io" where
  "os_Chmod e path mode = fs_op e path (fs_Chmod path mode)"

definition os_Remove :: "Env \<Rightarrow> string \<Rightarrow> unit result io" where
  "os_Remove e path = fs_op e path (fs_Remove path)"

text \<open>The contents of a file, when it is one.\<close>

definition fs_contents :: "fs \<Rightarrow> string \<Rightarrow> string option" where
  "fs_contents f path =
     (case map_of f (Clean path) of Some (FileNode c m) \<Rightarrow> Some c | _ \<Rightarrow> None)"

text \<open>\<open>os.RemoveAll\<close>: nothing when the path is empty or missing, an error when it ends in a dot.\<close>

definition under_path :: "string \<Rightarrow> string \<Rightarrow> bool" where
  "under_path p q \<longleftrightarrow> p = ''/'' \<or> q = p \<or> HasPrefix q (p @ ''/'')"

definition fs_RemoveAll :: "string \<Rightarrow> fs \<Rightarrow> fs result" where
  "fs_RemoveAll path f =
     (if path = '''' then Inr f
      else if path = ''.'' \<or> HasSuffix path ''/.'' then Inl (''RemoveAll '' @ path @ '': invalid argument'')
      else Inr (filter (\<lambda>(q, n). \<not> under_path (Clean path) q) f))"

definition os_RemoveAll :: "Env \<Rightarrow> string \<Rightarrow> unit result io" where
  "os_RemoveAll e path = fs_op e path (fs_RemoveAll path)"

text \<open>Reading a whole file, as \<open>os.Open\<close> and \<open>io.Copy\<close> do.\<close>

definition os_ReadFile :: "Env \<Rightarrow> string \<Rightarrow> string result io" where
  "os_ReadFile e path = do {
     t \<leftarrow> io_tick;
     case env_fs_error e t path of
       Some err \<Rightarrow> ret (Inl err)
     | None \<Rightarrow> do {
         f \<leftarrow> io_gets w_fs;
         ret (case fs_stat f path of
           StatFound (FileNode c m) \<Rightarrow> Inr c
         | StatFound DirNode \<Rightarrow> Inl (''read '' @ path @ '': is a directory'')
         | StatMissing \<Rightarrow> Inl (''open '' @ path @ '': no such file or directory'')
         | StatError err \<Rightarrow> Inl err)
       }
   }"

section \<open>Commands\<close>

text \<open>\<open>exec.Command(argv).Run()\<close> in a directory.\<close>

definition exec_run :: "Env \<Rightarrow> string list \<Rightarrow> string \<Rightarrow> ExecOut io" where
  "exec_run e argv dir = do {
     t \<leftarrow> io_tick;
     f \<leftarrow> io_gets w_fs;
     io_trace (ActRun argv dir f);
     let out = env_exec e t argv f in do {
       (case xo_Start out of
          Some err \<Rightarrow> ret ()
        | None \<Rightarrow> State (\<lambda>w. ((), w\<lparr>w_fs := xo_FS out\<rparr>)));
       ret out
     }
   }"

text \<open>The error that \<open>CombinedOutput\<close> and \<open>Run\<close> report.\<close>

definition xo_error :: "ExecOut \<Rightarrow> error option" where
  "xo_error out = (case xo_Start out of Some err \<Rightarrow> Some err | None \<Rightarrow> xo_Wait out)"

section \<open>What a program leaves alone\<close>

text \<open>
  \<open>leaves f m\<close>: running \<open>m\<close> does not change the part of the world that \<open>f\<close> reads.
  \<open>keeps P m\<close>: a world that satisfies \<open>P\<close> still does after \<open>m\<close>. Both are proved by the
  rules of the collections \<open>frame\<close> and \<open>wf_intros\<close>, one per construct.
\<close>

definition keeps :: "(World \<Rightarrow> bool) \<Rightarrow> 'a io \<Rightarrow> bool" where
  "keeps P m \<longleftrightarrow> (\<forall>w. P w \<longrightarrow> P (snd (run_state m w)))"

definition leaves :: "(World \<Rightarrow> 'b) \<Rightarrow> 'a io \<Rightarrow> bool" where
  "leaves f m \<longleftrightarrow> (\<forall>w. f (snd (run_state m w)) = f w)"

lemma keepsD: "keeps P m \<Longrightarrow> P w \<Longrightarrow> run_state m w = (a, w') \<Longrightarrow> P w'"
  unfolding keeps_def by (metis snd_conv)

lemma leavesD: "leaves f m \<Longrightarrow> run_state m w = (a, w') \<Longrightarrow> f w' = f w"
  unfolding leaves_def by (metis snd_conv)

lemma leaves_keeps: "leaves f m \<Longrightarrow> keeps (\<lambda>w. P (f w)) m"
  by (simp add: leaves_def keeps_def)

lemma keeps_ret [wf_intros]: "keeps P (ret a)"
  by (simp add: keeps_def)

lemma keeps_bind [wf_intros]:
  "keeps P m \<Longrightarrow> (\<And>a. keeps P (k a)) \<Longrightarrow> keeps P (m \<bind> k)"
  by (auto simp: keeps_def split: prod.splits)

lemma keeps_if [wf_intros]: "keeps P m \<Longrightarrow> keeps P n \<Longrightarrow> keeps P (if b then m else n)"
  by simp

lemma keeps_sum [wf_intros]:
  "(\<And>x. keeps P (m x)) \<Longrightarrow> (\<And>x. keeps P (n x)) \<Longrightarrow> keeps P (case s of Inl x \<Rightarrow> m x | Inr x \<Rightarrow> n x)"
  by (cases s) simp_all

lemma keeps_option [wf_intros]:
  "keeps P m \<Longrightarrow> (\<And>x. keeps P (n x)) \<Longrightarrow> keeps P (case s of None \<Rightarrow> m | Some x \<Rightarrow> n x)"
  by (cases s) simp_all

lemma keeps_let [wf_intros]: "(\<And>x. keeps P (m x)) \<Longrightarrow> keeps P (Let a m)"
  by simp

lemma keeps_prod [wf_intros]:
  "(\<And>x y. keeps P (m x y)) \<Longrightarrow> keeps P (case s of (x, y) \<Rightarrow> m x y)"
  by (cases s) simp

lemma keeps_gets [wf_intros]: "keeps P (io_gets f)"
  by (simp add: keeps_def io_gets_def)

lemma keeps_db_read [wf_intros]: "keeps P (db_read f)"
  by (simp add: keeps_gets db_read_def)

lemma leaves_ret [frame]: "leaves f (ret a)"
  by (simp add: leaves_def)

lemma leaves_bind [frame]:
  "leaves f m \<Longrightarrow> (\<And>a. leaves f (k a)) \<Longrightarrow> leaves f (m \<bind> k)"
  by (auto simp: leaves_def split: prod.splits) (metis snd_conv)

lemma leaves_if [frame]: "leaves f m \<Longrightarrow> leaves f n \<Longrightarrow> leaves f (if b then m else n)"
  by simp

lemma leaves_sum [frame]:
  "(\<And>x. leaves f (m x)) \<Longrightarrow> (\<And>x. leaves f (n x)) \<Longrightarrow> leaves f (case s of Inl x \<Rightarrow> m x | Inr x \<Rightarrow> n x)"
  by (cases s) simp_all

lemma leaves_option [frame]:
  "leaves f m \<Longrightarrow> (\<And>x. leaves f (n x)) \<Longrightarrow> leaves f (case s of None \<Rightarrow> m | Some x \<Rightarrow> n x)"
  by (cases s) simp_all

lemma leaves_let [frame]: "(\<And>x. leaves f (m x)) \<Longrightarrow> leaves f (Let a m)"
  by simp

lemma leaves_prod [frame]:
  "(\<And>x y. leaves f (m x y)) \<Longrightarrow> leaves f (case s of (x, y) \<Rightarrow> m x y)"
  by (cases s) simp

lemma leaves_stat [frame]:
  "(\<And>n. leaves f (a n)) \<Longrightarrow> leaves f b \<Longrightarrow> (\<And>x. leaves f (c x)) \<Longrightarrow>
   leaves f (case s of StatFound n \<Rightarrow> a n | StatMissing \<Rightarrow> b | StatError x \<Rightarrow> c x)"
  by (cases s) simp_all

lemma leaves_gets [frame]: "leaves f (io_gets g)"
  by (simp add: leaves_def io_gets_def)

lemma leaves_db_read [frame]: "leaves f (db_read g)"
  by (simp add: db_read_def leaves_gets)

lemma leaves_for [frame]: "(\<And>x. leaves f (m x)) \<Longrightarrow> leaves f (io_for m xs)"
  by (induction xs) (auto intro!: frame)

lemma leaves_each [frame]: "(\<And>x. leaves f (m x)) \<Longrightarrow> leaves f (io_each m xs)"
  by (induction xs) (auto intro!: frame)

lemma leaves_check_err [frame]: "leaves f m \<Longrightarrow> leaves f k \<Longrightarrow> leaves f (check_err s m k)"
  by (auto simp: check_err_def intro!: frame)

lemma keeps_check_err [wf_intros]: "keeps P m \<Longrightarrow> keeps P k \<Longrightarrow> keeps P (check_err s m k)"
  by (auto simp: check_err_def intro!: wf_intros)

text \<open>The daemon's own state, which calls to the outside leave alone.\<close>

definition own_state :: "World \<Rightarrow> DB \<times> string list" where
  "own_state w = (w_db w, w_locks w)"

lemma leaves_own_db: "leaves own_state m \<Longrightarrow> leaves w_db m"
  by (simp add: leaves_def own_state_def)

lemma leaves_own_locks: "leaves own_state m \<Longrightarrow> leaves w_locks m"
  by (simp add: leaves_def own_state_def)

lemma leaves_tick [frame]: "leaves own_state io_tick" "leaves w_events io_tick"
    "leaves w_trace io_tick" "leaves w_fs io_tick"
  by (simp_all add: leaves_def io_tick_def own_state_def)

lemma leaves_trace [frame]: "leaves own_state (io_trace a)" "leaves w_events (io_trace a)"
    "leaves w_fs (io_trace a)"
  by (simp_all add: leaves_def io_trace_def own_state_def)

lemma leaves_time [frame]: "leaves own_state (time_Now e)" "leaves w_events (time_Now e)"
    "leaves w_trace (time_Now e)" "leaves w_fs (time_Now e)"
  by (auto simp: time_Now_def intro!: frame)

lemma leaves_ctx [frame]: "leaves own_state (ctx_Err e)" "leaves w_events (ctx_Err e)"
    "leaves w_trace (ctx_Err e)" "leaves w_fs (ctx_Err e)"
  by (auto simp: ctx_Err_def intro!: frame)

lemma leaves_rand [frame]: "leaves own_state (rand_Read e)" "leaves w_events (rand_Read e)"
    "leaves w_trace (rand_Read e)" "leaves w_fs (rand_Read e)"
  by (auto simp: rand_Read_def intro!: frame)

lemma leaves_pipe [frame]: "leaves own_state (os_Pipe e)" "leaves w_events (os_Pipe e)"
    "leaves w_trace (os_Pipe e)" "leaves w_fs (os_Pipe e)"
  by (auto simp: os_Pipe_def intro!: frame)

lemma leaves_sleep [frame]: "leaves own_state (time_Sleep d)" "leaves w_events (time_Sleep d)"
    "leaves w_fs (time_Sleep d)"
  by (auto simp: time_Sleep_def intro!: frame)

lemma leaves_Stat [frame]: "leaves own_state (os_Stat e p)" "leaves w_events (os_Stat e p)"
    "leaves w_trace (os_Stat e p)" "leaves w_fs (os_Stat e p)"
  by (auto simp: os_Stat_def intro!: frame)

lemma leaves_fileExists [frame]: "leaves own_state (fileExists e p)"
    "leaves w_events (fileExists e p)" "leaves w_trace (fileExists e p)"
    "leaves w_fs (fileExists e p)"
  by (auto simp: fileExists_def intro!: frame)

lemma leaves_fs_op [frame]: "leaves own_state (fs_op e p g)" "leaves w_events (fs_op e p g)"
    "leaves w_trace (fs_op e p g)"
  by (auto simp: fs_op_def leaves_def own_state_def io_tick_def split: option.splits sum.splits)

lemma leaves_os [frame]:
    "leaves own_state (os_MkdirAll e p)" "leaves w_events (os_MkdirAll e p)"
    "leaves w_trace (os_MkdirAll e p)"
    "leaves own_state (os_WriteFile e p d m)" "leaves w_events (os_WriteFile e p d m)"
    "leaves w_trace (os_WriteFile e p d m)"
    "leaves own_state (os_Chmod e p m)" "leaves w_events (os_Chmod e p m)"
    "leaves w_trace (os_Chmod e p m)"
    "leaves own_state (os_Remove e p)" "leaves w_events (os_Remove e p)"
    "leaves w_trace (os_Remove e p)"
  by (auto simp: os_MkdirAll_def os_WriteFile_def os_Chmod_def os_Remove_def intro!: frame)

lemma leaves_RemoveAll [frame]: "leaves own_state (os_RemoveAll e p)" "leaves w_events (os_RemoveAll e p)"
    "leaves w_trace (os_RemoveAll e p)"
  by (auto simp: os_RemoveAll_def intro!: frame)

lemma leaves_ReadFile [frame]: "leaves own_state (os_ReadFile e p)"
    "leaves w_fs (os_ReadFile e p)" "leaves w_events (os_ReadFile e p)" "leaves w_trace (os_ReadFile e p)"
  by (auto simp: os_ReadFile_def intro!: frame)

lemma leaves_exec [frame]: "leaves own_state (exec_run e argv d)" "leaves w_events (exec_run e argv d)"
  by (auto simp: exec_run_def leaves_def own_state_def io_tick_def io_gets_def io_trace_def Let_def
      split: option.splits)

section \<open>Weakest preconditions\<close>

text \<open>\<open>wp m w Q\<close>: running \<open>m\<close> in \<open>w\<close> ends in a result and a world that satisfy \<open>Q\<close>.\<close>

definition wp :: "'a io \<Rightarrow> World \<Rightarrow> ('a \<Rightarrow> World \<Rightarrow> bool) \<Rightarrow> bool" where
  "wp m w Q = (case run_state m w of (a, w') \<Rightarrow> Q a w')"

lemma wp_ret [simp]: "wp (ret a) w Q = Q a w"
  by (simp add: wp_def)

lemma wp_bind [simp]: "wp (m \<bind> k) w Q = wp m w (\<lambda>a w'. wp (k a) w' Q)"
  by (simp add: wp_def split: prod.splits)

lemma wp_mono: "wp m w P \<Longrightarrow> (\<And>a w'. P a w' \<Longrightarrow> Q a w') \<Longrightarrow> wp m w Q"
  by (simp add: wp_def split: prod.splits)

lemma wp_conj: "wp m w P \<Longrightarrow> wp m w Q \<Longrightarrow> wp m w (\<lambda>a w'. P a w' \<and> Q a w')"
  by (simp add: wp_def split: prod.splits)

lemma wp_leaves: "leaves f m \<Longrightarrow> wp m w (\<lambda>a w'. f w' = f w)"
  by (simp add: wp_def leaves_def split: prod.splits) (metis snd_conv)

lemma wp_leavesI: "leaves f m \<Longrightarrow> (\<And>a w'. f w' = f w \<Longrightarrow> Q a w') \<Longrightarrow> wp m w Q"
  by (rule wp_mono [OF wp_leaves])

lemma wp_run: "wp m w Q \<Longrightarrow> run_state m w = (a, w') \<Longrightarrow> Q a w'"
  by (simp add: wp_def)

lemma wp_gets [simp]: "wp (io_gets f) w Q = Q (f w) w"
  by (simp add: wp_def io_gets_def)

lemma wp_db_read [simp]: "wp (db_read f) w Q = Q (f (w_db w)) w"
  by (simp add: db_read_def)

lemma wp_db_write [simp]: "wp (db_write f) w Q = Q () (w\<lparr>w_db := f (w_db w)\<rparr>)"
  by (simp add: wp_def db_write_def)

lemma wp_db_exec [simp]:
  "wp (db_exec f) w Q = Q (fst (f (w_db w))) (w\<lparr>w_db := snd (f (w_db w))\<rparr>)"
  by (simp add: wp_def db_exec_def split: prod.splits)

lemma keeps_db_write [wf_intros]:
  "(\<And>d. P d \<Longrightarrow> P (f d)) \<Longrightarrow> keeps (\<lambda>w. P (w_db w)) (db_write f)"
  by (simp add: keeps_def db_write_def)

lemma keeps_db_exec [wf_intros]:
  "(\<And>d. P d \<Longrightarrow> P (snd (f d))) \<Longrightarrow> keeps (\<lambda>w. P (w_db w)) (db_exec f)"
  by (auto simp: keeps_def db_exec_def split: prod.splits) (metis snd_conv)

lemma wp_check_err:
  "wp (check_err s m k) w Q =
     wp m w (\<lambda>r w'. case r of Inl err \<Rightarrow> Q (Inl (s @ err)) w' | Inr u \<Rightarrow> wp k w' Q)"
  by (auto simp: check_err_def wp_def split: sum.splits prod.splits)

section \<open>What the file operations do\<close>

definition file_at :: "fs \<Rightarrow> string \<Rightarrow> string \<Rightarrow> int \<Rightarrow> bool" where
  "file_at f p c m \<longleftrightarrow> map_of f (Clean p) = Some (FileNode c m)"

lemma file_at_contents: "file_at f p c m \<Longrightarrow> fs_contents f p = Some c"
  by (simp add: file_at_def fs_contents_def)

lemma fs_WriteFile_at:
  "fs_WriteFile p d m f = Inr f' \<Longrightarrow> \<exists>m'. file_at f' p d m'"
  by (auto simp: fs_WriteFile_def file_at_def Let_def split: if_splits option.splits Node.splits)

lemma fs_WriteFile_other:
  "fs_WriteFile p d m f = Inr f' \<Longrightarrow> Clean q \<noteq> Clean p \<Longrightarrow> map_of f' (Clean q) = map_of f (Clean q)"
  by (auto simp: fs_WriteFile_def Let_def split: if_splits option.splits Node.splits)

lemma fs_Chmod_at: "fs_Chmod p m f = Inr f' \<Longrightarrow> file_at f p d m' \<Longrightarrow> file_at f' p d m"
  by (auto simp: fs_Chmod_def file_at_def Let_def split: option.splits Node.splits)

lemma fs_Chmod_other:
  "fs_Chmod p m f = Inr f' \<Longrightarrow> Clean q \<noteq> Clean p \<Longrightarrow> map_of f' (Clean q) = map_of f (Clean q)"
  by (auto simp: fs_Chmod_def Let_def split: option.splits Node.splits)

lemma map_of_filter_key: "map_of (filter (\<lambda>(q, m). q \<noteq> p) f) r = (if r = p then None else map_of f r)"
  by (induction f) auto

lemma fs_Remove_other:
  "fs_Remove p f = Inr f' \<Longrightarrow> Clean q \<noteq> Clean p \<Longrightarrow> map_of f' (Clean q) = map_of f (Clean q)"
  by (auto simp: fs_Remove_def Let_def map_of_filter_key split: option.splits if_splits)

lemma fs_Remove_gone: "fs_Remove p f = Inr f' \<Longrightarrow> map_of f' (Clean p) = None"
  by (auto simp: fs_Remove_def Let_def map_of_filter_key split: option.splits if_splits)

lemma is_file_mkdirs:
  "list_all (\<lambda>d. \<not> is_file f d) ds \<Longrightarrow> map_of f q = Some (FileNode c m) \<Longrightarrow>
   map_of (foldl (\<lambda>g d. if is_dir g d then g else AList.update d DirNode g) f ds) q =
     Some (FileNode c m)"
proof (induction ds arbitrary: f)
  case (Cons d ds)
  have "q \<noteq> d" using Cons.prems by (auto simp: is_file_def)
  moreover have "list_all (\<lambda>x. \<not> is_file (AList.update d DirNode f) x) ds"
    using Cons.prems(1) by (auto simp: list_all_iff is_file_def)
  ultimately show ?case using Cons.prems Cons.IH [of f] Cons.IH [of "AList.update d DirNode f"]
    by simp
qed simp

lemma fs_MkdirAll_file:
  "fs_MkdirAll p f = Inr f' \<Longrightarrow> file_at f q c m \<Longrightarrow> file_at f' q c m"
  unfolding fs_MkdirAll_def file_at_def
  by (auto simp: list_ex_iff list_all_iff split: if_splits intro!: is_file_mkdirs)

lemma wp_fs_op:
  assumes "\<And>err w'. w_fs w' = w_fs w \<Longrightarrow> Q (Inl err) w'"
    and "\<And>f' w'. g (w_fs w) = Inr f' \<Longrightarrow> w_fs w' = f' \<Longrightarrow> Q (Inr ()) w'"
  shows "wp (fs_op e p g) w Q"
  using assms
  by (auto simp: fs_op_def wp_def io_tick_def split: option.splits sum.splits prod.splits)

lemma wp_keeps: "keeps P m \<Longrightarrow> P w \<Longrightarrow> wp m w (\<lambda>a w'. P w')"
  by (simp add: wp_def keeps_def split: prod.splits) (metis snd_conv)

lemma keeps_conj: "keeps P m \<Longrightarrow> keeps Q m \<Longrightarrow> keeps (\<lambda>w. P w \<and> Q w) m"
  by (simp add: keeps_def)

lemma keeps_stat [wf_intros]:
  "(\<And>n. keeps P (a n)) \<Longrightarrow> keeps P b \<Longrightarrow> (\<And>x. keeps P (c x)) \<Longrightarrow>
   keeps P (case s of StatFound n \<Rightarrow> a n | StatMissing \<Rightarrow> b | StatError x \<Rightarrow> c x)"
  by (cases s) simp_all

lemma keeps_ex: "(\<And>n. keeps (P n) m) \<Longrightarrow> keeps (\<lambda>w. \<exists>n. P n w) m"
  by (auto simp: keeps_def)

lemma keeps_or: "keeps P m \<Longrightarrow> keeps (\<lambda>w. A \<or> P w) m"
  by (auto simp: keeps_def)

lemma wp_also:
  "wp m w (\<lambda>r w'. r = x \<longrightarrow> A w') \<Longrightarrow> wp m w (\<lambda>r w'. B w') \<Longrightarrow> wp m w (\<lambda>r w'. r = x \<longrightarrow> B w' \<and> A w')"
  by (simp add: wp_def split: prod.splits)

lemma wp_always: "wp m w (\<lambda>r w'. A w') \<Longrightarrow> wp m w (\<lambda>r w'. \<forall>x. r = Inr x \<longrightarrow> A w')"
  by (simp add: wp_def split: prod.splits)

section \<open>What a program asks of the outside\<close>

text \<open>
  \<open>extends f P m\<close>: running \<open>m\<close> appends to the log \<open>f\<close> only entries that satisfy \<open>P\<close>;
  \<open>adds\<close> is the case of the trace, \<open>emits\<close> that of the published events.
\<close>

definition extends :: "(World \<Rightarrow> 'b list) \<Rightarrow> ('b \<Rightarrow> bool) \<Rightarrow> 'a io \<Rightarrow> bool" where
  "extends f P m \<longleftrightarrow> (\<forall>w. \<exists>tr. f (snd (run_state m w)) = f w @ tr \<and> list_all P tr)"

abbreviation adds :: "(Action \<Rightarrow> bool) \<Rightarrow> 'a io \<Rightarrow> bool" where
  "adds \<equiv> extends w_trace"

abbreviation emits :: "(Event \<Rightarrow> bool) \<Rightarrow> 'a io \<Rightarrow> bool" where
  "emits \<equiv> extends w_events"

lemma extends_leaves: "leaves f m \<Longrightarrow> extends f P m"
  by (simp add: extends_def leaves_def)

lemma extends_ret [frame]: "extends f P (ret a)"
  by (simp add: extends_def)

lemma adds_trace: "P a \<Longrightarrow> adds P (io_trace a)"
  by (simp add: extends_def io_trace_def)

lemma extends_bind [frame]:
  assumes "extends f P m" "\<And>a. extends f P (k a)"
  shows "extends f P (m \<bind> k)"
  unfolding extends_def
proof
  fix w
  obtain a w1 where m: "run_state m w = (a, w1)" by (cases "run_state m w")
  obtain t1 where t1: "f w1 = f w @ t1" "list_all P t1"
    using assms(1) m unfolding extends_def by (metis snd_conv)
  obtain t2 where t2: "f (snd (run_state (k a) w1)) = f w1 @ t2" "list_all P t2"
    using assms(2) unfolding extends_def by metis
  show "\<exists>tr. f (snd (run_state (m \<bind> k) w)) = f w @ tr \<and> list_all P tr"
    using m t1 t2 by (intro exI [of _ "t1 @ t2"]) simp
qed

lemma extends_if [frame]: "extends f P m \<Longrightarrow> extends f P n \<Longrightarrow> extends f P (if b then m else n)"
  by simp

lemma extends_sum [frame]:
  "(\<And>x. extends f P (m x)) \<Longrightarrow> (\<And>x. extends f P (n x)) \<Longrightarrow> extends f P (case s of Inl x \<Rightarrow> m x | Inr x \<Rightarrow> n x)"
  by (cases s) simp_all

lemma extends_option [frame]:
  "extends f P m \<Longrightarrow> (\<And>x. extends f P (n x)) \<Longrightarrow> extends f P (case s of None \<Rightarrow> m | Some x \<Rightarrow> n x)"
  by (cases s) simp_all

lemma extends_check_err [frame]: "extends f P m \<Longrightarrow> extends f P k \<Longrightarrow> extends f P (check_err s m k)"
  by (auto simp: check_err_def intro!: frame)

lemma extends_for [frame]: "(\<And>x. extends f P (m x)) \<Longrightarrow> extends f P (io_for m xs)"
  by (induction xs) (auto intro!: frame)

lemma extends_each [frame]: "(\<And>x. extends f P (m x)) \<Longrightarrow> extends f P (io_each m xs)"
  by (induction xs) (auto intro!: frame)

lemma wp_adds: "extends f P m \<Longrightarrow> wp m w (\<lambda>r w'. \<exists>tr. f w' = f w @ tr \<and> list_all P tr)"
  by (simp add: extends_def wp_def split: prod.splits) (metis snd_conv)

definition no_run :: "Action \<Rightarrow> bool" where
  "no_run a \<longleftrightarrow> (case a of ActRun argv dir f \<Rightarrow> False | _ \<Rightarrow> True)"

lemma no_run_simps [simp]: "no_run (ActGet u)" "no_run (ActDial u)" "no_run (ActSleep d)" "no_run (ActCall m u b)"
    "\<not> no_run (ActRun argv dir f)"
  by (simp_all add: no_run_def)

lemma wp_True [simp]: "wp m w (\<lambda>a w'. True)"
  by (simp add: wp_def split: prod.splits)

lemma leaves_db_write [frame]: "leaves w_fs (db_write g)" "leaves w_trace (db_write g)"
    "leaves w_events (db_write g)" "leaves w_locks (db_write g)"
    "leaves w_fs (db_exec h)" "leaves w_trace (db_exec h)" "leaves w_events (db_exec h)"
    "leaves w_locks (db_exec h)"
  by (simp_all add: leaves_def db_write_def db_exec_def split: prod.splits)

lemma keeps_own: "leaves own_state m \<Longrightarrow> keeps (\<lambda>w. P (w_db w)) m"
  by (rule leaves_keeps [OF leaves_own_db])

lemma keeps_outside [wf_intros]: "keeps (\<lambda>w. P (w_db w)) (ctx_Err e)"
    "keeps (\<lambda>w. P (w_db w)) (time_Now e)" "keeps (\<lambda>w. P (w_db w)) (rand_Read e)"
  by (rule keeps_own, rule frame)+

lemma keeps_wp: "keeps P m \<longleftrightarrow> (\<forall>w. P w \<longrightarrow> wp m w (\<lambda>a. P))"
  by (simp add: keeps_def wp_def case_prod_beta)

text \<open>A property of the result alone.\<close>

definition returns :: "('a \<Rightarrow> bool) \<Rightarrow> 'a io \<Rightarrow> bool" where
  "returns F m \<longleftrightarrow> (\<forall>w. F (fst (run_state m w)))"

lemma returns_ret: "F a \<Longrightarrow> returns F (ret a)"
  by (simp add: returns_def)

lemma returns_bind: "(\<And>a. returns F (k a)) \<Longrightarrow> returns F (m \<bind> k)"
  by (auto simp: returns_def split: prod.splits)

lemma returns_sum:
  "(\<And>x. returns F (m x)) \<Longrightarrow> (\<And>x. returns F (n x)) \<Longrightarrow> returns F (case s of Inl x \<Rightarrow> m x | Inr x \<Rightarrow> n x)"
  by (cases s) simp_all

lemmas returns_rules = returns_ret returns_bind returns_sum

lemma ReadFile_post:
  "wp (os_ReadFile e path) w (\<lambda>r w'. w_fs w' = w_fs w \<and> (\<forall>c. r = Inr c \<longrightarrow> fs_contents (w_fs w) path = Some c))"
proof (rule wp_mono [OF wp_conj [OF wp_leaves [OF leaves_ReadFile(2)]]])
  show "wp (os_ReadFile e path) w (\<lambda>r w'. \<forall>c. r = Inr c \<longrightarrow> fs_contents (w_fs w) path = Some c)"
    unfolding os_ReadFile_def
    by (auto simp: wp_def io_tick_def io_gets_def fs_stat_def fs_contents_def Let_def is_dir_def
        split: option.splits stat_result.splits Node.splits if_splits)
qed

lemma wp_rand_Read:
  "wp (rand_Read e) w Q = Q (env_rand e (w_tick w)) (w\<lparr>w_tick := Suc (w_tick w)\<rparr>)"
  by (simp add: wp_def rand_Read_def io_tick_def)

lemma wp_time_Now:
  "wp (time_Now e) w Q = Q (env_now e (w_tick w)) (w\<lparr>w_tick := Suc (w_tick w)\<rparr>)"
  by (simp add: wp_def time_Now_def io_tick_def)

lemma wp_io_tick: "wp io_tick w Q = Q (w_tick w) (w\<lparr>w_tick := Suc (w_tick w)\<rparr>)"
  by (simp add: wp_def io_tick_def)

end
