(* ===== verification/Compose.thy ===== *)
theory Compose
  imports World
begin

text \<open>
  \<open>internal/deployer/compose.go\<close>: the texts of \<open>compose.yaml\<close>, \<open>compose.override.yaml\<close> and
  \<open>.env\<close>, and \<open>WriteComposeFiles\<close>, which puts them into the stack directory. The YAML reader
  of custom mode is the parameter \<open>yaml\<close>. A \<open>range\<close> over a map visits the association list in
  its order.
\<close>

section \<open>Texts\<close>

definition nl :: string where
  "nl = [CHR 0x0A]"

definition quote :: string where
  "quote = [CHR 0x22]"

record stackConfig =
  sc_RegistryImage :: string
  sc_ImageTag :: string
  sc_PullPolicy :: string
  sc_Platform :: string
  sc_Ports :: "PortMapping list"
  sc_Volumes :: "VolumeMount list"
  sc_EnvVars :: smap
  sc_ExtraOptions :: string
  sc_Services :: "ServiceConfig list"

definition volume_path :: "Project \<Rightarrow> VolumeMount \<Rightarrow> string" where
  "volume_path p v =
     (if IsAbs (vm_HostPath v) then vm_HostPath v else Join2 (p_StackPath p) (vm_HostPath v))"

definition port_line :: "string \<Rightarrow> PortMapping \<Rightarrow> string" where
  "port_line defaultBind pm =
     (let (addr, hostPort) = (case ParseHostPort pm of Inl e \<Rightarrow> ('''', 0) | Inr hp \<Rightarrow> hp);
          bindAddr = (if addr = '''' then defaultBind else addr);
          proto = pm_Protocol pm
      in if proto = '''' \<or> proto = ''tcp''
         then ''      - '' @ quote @ bindAddr @ '':'' @ Itoa hostPort @ '':'' @
              Itoa (pm_ContainerPort pm) @ quote @ nl
         else ''      - '' @ quote @ bindAddr @ '':'' @ Itoa hostPort @ '':'' @
              Itoa (pm_ContainerPort pm) @ ''/'' @ proto @ quote @ nl)"

definition ports_text :: "Project \<Rightarrow> ServiceConfig \<Rightarrow> string" where
  "ports_text p svc =
     (if svc_Ports svc = [] then ''''
      else let defaultBind = (if p_BindHost p = '''' then ''127.0.0.1'' else p_BindHost p)
        in ''    ports:'' @ nl @ concat (map (port_line defaultBind) (svc_Ports svc)))"

definition volume_line :: "Project \<Rightarrow> VolumeMount \<Rightarrow> string" where
  "volume_line p v =
     ''      - '' @ quote @ volume_path p v @ '':'' @ vm_ContainerPath v @
     (if vm_ReadOnly v then '':ro'' else '''') @ quote @ nl"

definition volumes_text :: "Project \<Rightarrow> ServiceConfig \<Rightarrow> string" where
  "volumes_text p svc =
     (if svc_Volumes svc = [] then ''''
      else ''    volumes:'' @ nl @ concat (map (volume_line p) (svc_Volumes svc)))"

definition extra_text :: "ServiceConfig \<Rightarrow> string" where
  "extra_text svc =
     (if svc_ExtraOptions svc = '''' then ''''
      else concat (map (\<lambda>line. ''    '' @ line @ nl)
             (split_on (CHR 0x0A) (TrimSpace (svc_ExtraOptions svc)))))"

definition service_text :: "Project \<Rightarrow> ServiceConfig \<Rightarrow> string" where
  "service_text p svc =
     ''  '' @ svc_Name svc @ '':'' @ nl @
     ''    image: '' @ svc_RegistryImage svc @ '':'' @ svc_ImageTag svc @ nl @
     (if svc_Platform svc = '''' then '''' else ''    platform: '' @ svc_Platform svc @ nl) @
     ''    pull_policy: '' @
       (if svc_PullPolicy svc = '''' then ''always'' else svc_PullPolicy svc) @ nl @
     ''    restart: unless-stopped'' @ nl @
     ports_text p svc @ volumes_text p svc @
     (if env_entries p = [] then '''' else ''    env_file:'' @ nl @ ''      - .env'' @ nl) @
     extra_text svc"

definition generateFormCompose :: "Project \<Rightarrow> string" where
  "generateFormCompose p =
     ''# Auto-generated by bbsit. Do not edit manually.'' @ nl @
     ''# Changes will be overwritten on next deploy.'' @ nl @ nl @
     ''services:'' @ nl @ concat (map (service_text p) (p_Services p))"

definition generateDigestOverride :: "smap \<Rightarrow> string" where
  "generateDigestOverride overrides =
     ''# Auto-generated by bbsit. Pins the exact image digest.'' @ nl @ ''services:'' @ nl @
     concat (map (\<lambda>(name, imageRef).
       ''  '' @ name @ '':'' @ nl @ ''    image: '' @ imageRef @ nl) overrides)"

definition env_specials :: string where
  "env_specials = '' '' @ [CHR 0x09] @ ''#'' @ [CHR 0x27, CHR 0x22, CHR 0x5C] @ ''$''"

definition env_line :: "string \<times> string \<Rightarrow> string" where
  "env_line kv = (case kv of (k, v) \<Rightarrow>
     if ContainsAny v env_specials
     then k @ ''='' @ quote @ ReplaceAll (CHR 0x22) [CHR 0x5C, CHR 0x22] v @ quote @ nl
     else k @ ''='' @ v @ nl)"

definition env_text :: "smap \<Rightarrow> string" where
  "env_text vars = ''# Auto-generated by bbsit'' @ nl @ concat (map env_line vars)"

section \<open>Files\<close>

definition writeEnvFile :: "Env \<Rightarrow> string \<Rightarrow> smap \<Rightarrow> unit result io" where
  "writeEnvFile e path vars =
     check_err '''' (os_WriteFile e path (env_text vars) 384) (os_Chmod e path 384)"

text \<open>The project that custom mode builds from its parsed text.\<close>

definition custom_project :: "Project \<Rightarrow> stackConfig \<Rightarrow> Project" where
  "custom_project p sc =
     zero_project\<lparr>p_ID := p_ID p, p_BindHost := p_BindHost p,
       p_Services := (if sc_Services sc \<noteq> [] then sc_Services sc
         else [zero_service\<lparr>svc_Name := p_ID p, svc_RegistryImage := sc_RegistryImage sc,
                 svc_ImageTag := (if sc_ImageTag sc = '''' then ''latest'' else sc_ImageTag sc),
                 svc_PullPolicy := sc_PullPolicy sc, svc_Platform := sc_Platform sc,
                 svc_Ports := sc_Ports sc, svc_Volumes := sc_Volumes sc,
                 svc_ExtraOptions := sc_ExtraOptions sc\<rparr>]),
       p_EnvVars := Some (sc_EnvVars sc), p_StackPath := p_StackPath p\<rparr>"

text \<open>
  The text of \<open>compose.yaml\<close> and the entries of \<open>.env\<close>. The code stores the entries of custom
  mode into \<open>p.EnvVars\<close>; a second call with the changed project finds the same entries.
\<close>

definition compose_content ::
    "(string \<Rightarrow> stackConfig result) \<Rightarrow> Project \<Rightarrow> (string \<times> smap) result" where
  "compose_content yaml p =
     (case p_ConfigMode p of
        ConfigModeForm \<Rightarrow> Inr (generateFormCompose p, env_entries p)
      | ConfigModeCustom \<Rightarrow>
          (case yaml (p_CustomCompose p) of
             Inl err \<Rightarrow> Inl (''parse stack config: '' @ err)
           | Inr sc \<Rightarrow> Inr (generateFormCompose (custom_project p sc),
               if sc_EnvVars sc = [] then env_entries p else sc_EnvVars sc))
      | ConfigModeOther s \<Rightarrow> Inl (''unknown config_mode: '' @ s))"

definition ensure_volume :: "Env \<Rightarrow> Project \<Rightarrow> VolumeMount \<Rightarrow> unit result io" where
  "ensure_volume e p v = do {
     let hostPath = volume_path p v;
     s \<leftarrow> os_Stat e hostPath;
     case s of
       StatFound n \<Rightarrow> ret (Inr ())
     | StatError err \<Rightarrow> ret (Inl (''stat volume '' @ hostPath @ '': '' @ err))
     | StatMissing \<Rightarrow>
         check_err (''mkdir volume '' @ hostPath @ '': '') (os_MkdirAll e hostPath) (ret (Inr ()))
   }"

definition composePath :: "Project \<Rightarrow> string" where
  "composePath p = Join2 (p_StackPath p) ''compose.yaml''"

definition overridePath :: "Project \<Rightarrow> string" where
  "overridePath p = Join2 (p_StackPath p) ''compose.override.yaml''"

definition envPath :: "Project \<Rightarrow> string" where
  "envPath p = Join2 (p_StackPath p) ''.env''"

definition write_override :: "Env \<Rightarrow> Project \<Rightarrow> smap \<Rightarrow> unit result io" where
  "write_override e p imageOverrides =
     (if imageOverrides \<noteq> []
      then os_WriteFile e (overridePath p) (generateDigestOverride imageOverrides) 420
      else do { r \<leftarrow> os_Remove e (overridePath p); ret (Inr ()) })"

definition WriteComposeFiles ::
    "Env \<Rightarrow> (string \<Rightarrow> stackConfig result) \<Rightarrow> Project \<Rightarrow> smap \<Rightarrow> unit result io" where
  "WriteComposeFiles e yaml p imageOverrides =
     check_err ''mkdir stack: '' (os_MkdirAll e (p_StackPath p))
       (case compose_content yaml p of
          Inl err \<Rightarrow> ret (Inl err)
        | Inr (content, vars) \<Rightarrow>
            check_err ''write compose.yaml: '' (os_WriteFile e (composePath p) content 420)
              (check_err ''write compose.override.yaml: '' (write_override e p imageOverrides)
                (check_err ''write .env: ''
                  (if vars \<noteq> [] then writeEnvFile e (envPath p) vars else ret (Inr ()))
                  (io_for (ensure_volume e p) (concat (map svc_Volumes (p_Services p)))))))"

section \<open>Lemmas\<close>

lemma leaves_writeEnvFile [frame]: "leaves own_state (writeEnvFile e p v)"
    "leaves w_events (writeEnvFile e p v)" "leaves w_trace (writeEnvFile e p v)"
  by (auto simp: writeEnvFile_def intro!: frame)

lemma leaves_ensure_volume [frame]: "leaves own_state (ensure_volume e p v)"
    "leaves w_events (ensure_volume e p v)" "leaves w_trace (ensure_volume e p v)"
  by (auto simp: ensure_volume_def Let_def intro!: frame)

lemma leaves_WriteComposeFiles [frame]: "leaves own_state (WriteComposeFiles e y p ov)"
    "leaves w_events (WriteComposeFiles e y p ov)" "leaves w_trace (WriteComposeFiles e y p ov)"
  by (auto simp: WriteComposeFiles_def write_override_def intro!: frame)

text \<open>The three files have different paths.\<close>

lemma stack_file_distinct:
  assumes "p_StackPath p \<noteq> ''''"
  shows "Clean (composePath p) \<noteq> Clean (overridePath p)" "Clean (envPath p) \<noteq> Clean (composePath p)"
    "Clean (envPath p) \<noteq> Clean (overridePath p)"
proof -
  have b: "below_path ''compose.yaml''" "below_path ''compose.override.yaml''" "below_path ''.env''"
    using below_pathI [of "[''compose.yaml'']"] below_pathI [of "[''compose.override.yaml'']"]
      below_pathI [of "[''.env'']"] by (simp_all add: plain_comp_def comp_ok_def)
  have comps: "path_comps (composePath p) = path_comps (p_StackPath p) @ [''compose.yaml'']"
      "path_comps (overridePath p) = path_comps (p_StackPath p) @ [''compose.override.yaml'']"
      "path_comps (envPath p) = path_comps (p_StackPath p) @ [''.env'']"
    using Join2_comps(1) [OF assms] b by (simp_all add: composePath_def overridePath_def envPath_def)
  have ne: "Clean a = Clean b \<Longrightarrow> path_comps a = path_comps b" for a b
    by (metis path_comps_Clean)
  show "Clean (composePath p) \<noteq> Clean (overridePath p)" "Clean (envPath p) \<noteq> Clean (composePath p)"
    "Clean (envPath p) \<noteq> Clean (overridePath p)"
    using comps by (auto dest!: ne)
qed

text \<open>A program that leaves a file as it is.\<close>

definition holds_file :: "string \<Rightarrow> string \<Rightarrow> int \<Rightarrow> World \<Rightarrow> bool" where
  "holds_file path c m w \<longleftrightarrow> file_at (w_fs w) path c m"

lemma keeps_file_op:
  assumes "\<And>f f'. g f = Inr f' \<Longrightarrow> file_at f q c m \<Longrightarrow> file_at f' q c m"
  shows "keeps (holds_file q c m) (fs_op e p g)"
  unfolding keeps_def
proof (intro allI impI)
  fix w assume h: "holds_file q c m w"
  have "wp (fs_op e p g) w (\<lambda>r w'. holds_file q c m w')"
    using h assms by (intro wp_fs_op) (auto simp: holds_file_def)
  then show "holds_file q c m (snd (run_state (fs_op e p g) w))"
    by (simp add: wp_def split: prod.splits)
qed

lemma keeps_file_MkdirAll [wf_intros]: "keeps (holds_file q c m) (os_MkdirAll e p)"
  unfolding os_MkdirAll_def by (rule keeps_file_op) (rule fs_MkdirAll_file)

lemma keeps_file_Write: "Clean q \<noteq> Clean p \<Longrightarrow> keeps (holds_file q c m) (os_WriteFile e p d n)"
  unfolding os_WriteFile_def
  by (rule keeps_file_op) (simp add: file_at_def fs_WriteFile_other)

lemma keeps_file_Chmod: "Clean q \<noteq> Clean p \<Longrightarrow> keeps (holds_file q c m) (os_Chmod e p n)"
  unfolding os_Chmod_def by (rule keeps_file_op) (simp add: file_at_def fs_Chmod_other)

lemma keeps_file_Remove: "Clean q \<noteq> Clean p \<Longrightarrow> keeps (holds_file q c m) (os_Remove e p)"
  unfolding os_Remove_def by (rule keeps_file_op) (simp add: file_at_def fs_Remove_other)

lemma keeps_file_leaves: "leaves w_fs m \<Longrightarrow> keeps (holds_file q c n) m"
  unfolding holds_file_def by (rule leaves_keeps)

lemma keeps_file_for [wf_intros]: "(\<And>x. keeps P (m x)) \<Longrightarrow> keeps P (io_for m xs)"
  by (induction xs) (auto intro!: wf_intros)

lemma keeps_file_Stat [wf_intros]: "keeps (holds_file q c m) (os_Stat e p)"
  by (rule keeps_file_leaves) (rule frame)

lemma keeps_file_volume [wf_intros]: "keeps (holds_file q c m) (ensure_volume e p v)"
  unfolding ensure_volume_def Let_def by (intro wf_intros)

lemma keeps_file_override:
  "Clean q \<noteq> Clean (overridePath p) \<Longrightarrow> keeps (holds_file q c m) (write_override e p ov)"
  unfolding write_override_def by (auto intro!: wf_intros keeps_file_Write keeps_file_Remove)

lemma keeps_file_env:
  "Clean q \<noteq> Clean path \<Longrightarrow> keeps (holds_file q c m) (writeEnvFile e path vars)"
  unfolding writeEnvFile_def by (auto intro!: wf_intros keeps_file_Write keeps_file_Chmod)

text \<open>
  After a successful call the three files hold the generated texts: \<open>compose.yaml\<close> always, the
  override when images are pinned, \<open>.env\<close> (mode 0600) when there are variables.
\<close>

lemma wp_WriteFile:
  "wp (os_WriteFile e p d n) w (\<lambda>r w'. r = Inr () \<longrightarrow> (\<exists>m. holds_file p d m w'))"
  unfolding os_WriteFile_def
  by (rule wp_fs_op) (auto simp: holds_file_def dest: fs_WriteFile_at)

lemma wp_check_errI:
  assumes "wp m w (\<lambda>r w'. r = Inr () \<longrightarrow> P w')"
    and "\<And>w'. P w' \<Longrightarrow> wp k w' (\<lambda>r w''. \<forall>x. r = Inr x \<longrightarrow> Q x w'')"
  shows "wp (check_err s m k) w (\<lambda>r w'. \<forall>x. r = Inr x \<longrightarrow> Q x w')"
  unfolding wp_check_err using assms
  by (intro wp_mono [OF assms(1)]) (auto split: sum.splits)

lemma wp_true: "wp m w (\<lambda>r w'. r = x \<longrightarrow> True)"
  by (simp add: wp_def split: prod.splits)

lemma wp_writeEnvFile:
  "wp (writeEnvFile e p vars) w (\<lambda>r w'. r = Inr () \<longrightarrow> holds_file p (env_text vars) 384 w')"
proof -
  have "wp (os_Chmod e p 384) w' (\<lambda>r w''. \<forall>x. r = Inr x \<longrightarrow> holds_file p (env_text vars) 384 w'')"
    if "\<exists>m. holds_file p (env_text vars) m w'" for w'
    unfolding os_Chmod_def using that
    by (intro wp_fs_op) (auto simp: holds_file_def intro: fs_Chmod_at)
  then have "wp (writeEnvFile e p vars) w
      (\<lambda>r w'. \<forall>x. r = Inr x \<longrightarrow> holds_file p (env_text vars) 384 w')"
    unfolding writeEnvFile_def by (rule wp_check_errI [OF wp_WriteFile])
  then show ?thesis by (simp add: wp_def split: prod.splits)
qed

definition files_written :: "Project \<Rightarrow> string \<Rightarrow> smap \<Rightarrow> smap \<Rightarrow> World \<Rightarrow> bool" where
  "files_written p content vars ov w \<longleftrightarrow>
     fs_contents (w_fs w) (composePath p) = Some content \<and>
     (ov = [] \<or> fs_contents (w_fs w) (overridePath p) = Some (generateDigestOverride ov)) \<and>
     (vars = [] \<or> file_at (w_fs w) (envPath p) (env_text vars) 384)"

lemma WriteComposeFiles_files:
  assumes "p_StackPath p \<noteq> ''''"
  shows "wp (WriteComposeFiles e yaml p ov) w (\<lambda>r w'. \<forall>x. r = Inr x \<longrightarrow>
     (\<exists>content vars. compose_content yaml p = Inr (content, vars) \<and> files_written p content vars ov w'))"
proof (cases "compose_content yaml p")
  case (Inl err)
  then show ?thesis
    unfolding WriteComposeFiles_def
    by (simp add: wp_check_err) (auto simp: wp_def split: sum.splits prod.splits)
next
  case (Inr cv)
  obtain content vars where cv: "cv = (content, vars)" by (cases cv)
  note d = stack_file_distinct [OF assms]
  let ?C = "\<lambda>w. \<exists>m. holds_file (composePath p) content m w"
  let ?O = "\<lambda>w. ov = [] \<or> (\<exists>m. holds_file (overridePath p) (generateDigestOverride ov) m w)"
  let ?E = "\<lambda>w. vars = [] \<or> holds_file (envPath p) (env_text vars) 384 w"
  have keepC: "wp m w' (\<lambda>r w''. ?C w'')"
    if "\<And>n. keeps (holds_file (composePath p) content n) m" "?C w'" for m :: "unit result io" and w'
    using that by (intro wp_keeps keeps_ex)
  have keepO: "wp m w' (\<lambda>r w''. ?O w'')"
    if "\<And>n. keeps (holds_file (overridePath p) (generateDigestOverride ov) n) m" "?O w'"
    for m :: "unit result io" and w'
    using that by (intro wp_keeps keeps_or keeps_ex)
  have s1: "wp (os_WriteFile e (composePath p) content 420) w' (\<lambda>r w''. r = Inr () \<longrightarrow> ?C w'')" for w'
    by (rule wp_WriteFile)
  have "wp (write_override e p ov) w' (\<lambda>r w''. r = Inr () \<longrightarrow> ?O w'')" for w'
    unfolding write_override_def using wp_WriteFile [of e "overridePath p" _ 420 w']
    by (cases "ov = []") (auto simp: wp_def split: prod.splits)
  then have s2: "wp (write_override e p ov) w' (\<lambda>r w''. r = Inr () \<longrightarrow> ?C w'' \<and> ?O w'')"
    if "?C w'" for w'
    using that by (intro wp_also keepC keeps_file_override d)
  let ?env = "if vars \<noteq> [] then writeEnvFile e (envPath p) vars else ret (Inr ())"
  have "wp ?env w' (\<lambda>r w''. r = Inr () \<longrightarrow> ?E w'')" for w'
    by (auto intro: wp_mono [OF wp_writeEnvFile])
  moreover have "keeps (holds_file (composePath p) content n) ?env"
      "keeps (holds_file (overridePath p) (generateDigestOverride ov) n) ?env" for n
    using d by (auto intro!: wf_intros keeps_file_env)
  ultimately have s3: "wp ?env w' (\<lambda>r w''. r = Inr () \<longrightarrow> ?C w'' \<and> ?O w'' \<and> ?E w'')"
    if "?C w' \<and> ?O w'" for w'
    using that keepC [of ?env w'] keepO [of ?env w'] wp_also [of ?env w' "Inr ()" ?E "\<lambda>w. ?C w \<and> ?O w"]
    by (simp add: conj_assoc wp_conj)
  let ?vols = "io_for (ensure_volume e p) (concat (map svc_Volumes (p_Services p)))"
  have "keeps (holds_file q c n) ?vols" for q c n
    by (intro wf_intros)
  then have s4: "wp ?vols w' (\<lambda>r w''. \<forall>x. r = Inr x \<longrightarrow> (?C w'' \<and> ?O w'') \<and> ?E w'')"
    if "?C w' \<and> ?O w' \<and> ?E w'" for w'
    using that by (intro wp_always wp_conj keepC keepO wp_keeps keeps_or) auto
  have "wp (WriteComposeFiles e yaml p ov) w
      (\<lambda>r w'. \<forall>x. r = Inr x \<longrightarrow> (?C w' \<and> ?O w') \<and> ?E w')"
    unfolding WriteComposeFiles_def Inr cv sum.case prod.case
    by (rule wp_check_errI [where P = "\<lambda>w. True"], simp add: wp_def split: prod.splits)
       (rule wp_check_errI [OF s1 wp_check_errI [OF s2 wp_check_errI [OF s3 s4]]])
  then show ?thesis
    using Inr cv by (auto simp: files_written_def holds_file_def elim!: wp_mono dest: file_at_contents)
qed

end
