(* ===== verification/Health.thy ===== *)
theory Health
  imports World
begin

text \<open>
  \<open>internal/health/checker.go\<close>: HTTP and TCP checks with retries. The answers of the checked
  service are the oracles \<open>env_http\<close> (a status code or a transport error) and \<open>env_dial\<close>.
  Durations are nanoseconds.
\<close>

section \<open>Checks\<close>

definition http_Get :: "Env \<Rightarrow> string \<Rightarrow> int result io" where
  "http_Get e url = do {
     t \<leftarrow> io_tick;
     io_trace (ActGet url);
     ret (env_http e t url)
   }"

definition net_Dial :: "Env \<Rightarrow> string \<Rightarrow> error option io" where
  "net_Dial e addr = do {
     t \<leftarrow> io_tick;
     io_trace (ActDial addr);
     ret (env_dial e t addr)
   }"

text \<open>\<open>fmt.Errorf("... %w", lastErr)\<close> of a nil error.\<close>

definition error_text :: "error option \<Rightarrow> string" where
  "error_text e = (case e of None \<Rightarrow> ''%!w(<nil>)'' | Some s \<Rightarrow> s)"

definition status_ok :: "int \<Rightarrow> bool" where
  "status_ok code \<longleftrightarrow> 200 \<le> code \<and> code < 400"

text \<open>The loop at index \<open>i\<close> with \<open>n\<close> attempts left.\<close>

fun http_attempts :: "Env \<Rightarrow> string \<Rightarrow> int \<Rightarrow> nat \<Rightarrow> nat \<Rightarrow> error option \<Rightarrow> unit result io" where
  "http_attempts e url pause i 0 lastErr =
     ret (Inl (''health check failed after '' @ Itoa (int i) @ '' attempts: '' @ error_text lastErr))"
| "http_attempts e url pause i (Suc n) lastErr = do {
     (if 0 < i then time_Sleep pause else ret ());
     r \<leftarrow> http_Get e url;
     case r of
       Inl err \<Rightarrow> http_attempts e url pause (Suc i) n
         (Some (''attempt '' @ Itoa (int i + 1) @ '': '' @ err))
     | Inr code \<Rightarrow>
         if status_ok code then ret (Inr ())
         else http_attempts e url pause (Suc i) n
           (Some (''attempt '' @ Itoa (int i + 1) @ '': status '' @ Itoa code))
   }"

definition checkHTTP :: "Env \<Rightarrow> string \<Rightarrow> int \<Rightarrow> nat \<Rightarrow> unit result io" where
  "checkHTTP e url timeout maxRetries =
     http_attempts e url (timeout div int maxRetries) 0 maxRetries None"

fun tcp_attempts :: "Env \<Rightarrow> string \<Rightarrow> int \<Rightarrow> nat \<Rightarrow> nat \<Rightarrow> error option \<Rightarrow> unit result io" where
  "tcp_attempts e addr pause i 0 lastErr =
     ret (Inl (''tcp check failed after '' @ Itoa (int i) @ '' attempts: '' @ error_text lastErr))"
| "tcp_attempts e addr pause i (Suc n) lastErr = do {
     (if 0 < i then time_Sleep pause else ret ());
     r \<leftarrow> net_Dial e addr;
     case r of
       Some err \<Rightarrow> tcp_attempts e addr pause (Suc i) n
         (Some (''attempt '' @ Itoa (int i + 1) @ '': '' @ err))
     | None \<Rightarrow> ret (Inr ())
   }"

definition checkTCP :: "Env \<Rightarrow> string \<Rightarrow> int \<Rightarrow> nat \<Rightarrow> unit result io" where
  "checkTCP e addr timeout maxRetries =
     tcp_attempts e addr (timeout div int maxRetries) 0 maxRetries None"

definition Check :: "Env \<Rightarrow> HealthType \<Rightarrow> string \<Rightarrow> int \<Rightarrow> nat \<Rightarrow> unit result io" where
  "Check e ty target timeout maxRetries =
     (case ty of
        HealthNone \<Rightarrow> ret (Inr ())
      | HealthHTTP \<Rightarrow> checkHTTP e target timeout maxRetries
      | HealthTCP \<Rightarrow> checkTCP e target timeout maxRetries
      | HealthOther s \<Rightarrow> ret (Inl (''unknown health type: '' @ s)))"

section \<open>Lemmas\<close>

lemma leaves_http_Get [frame]: "leaves own_state (http_Get e u)" "leaves w_events (http_Get e u)"
    "leaves w_fs (http_Get e u)"
  by (auto simp: http_Get_def intro!: frame)

lemma leaves_net_Dial [frame]: "leaves own_state (net_Dial e u)" "leaves w_events (net_Dial e u)"
    "leaves w_fs (net_Dial e u)"
  by (auto simp: net_Dial_def intro!: frame)

lemma leaves_http_attempts [frame]: "leaves own_state (http_attempts e u d i n l)"
    "leaves w_events (http_attempts e u d i n l)" "leaves w_fs (http_attempts e u d i n l)"
  by (induction n arbitrary: i l) (auto intro!: frame)

lemma leaves_tcp_attempts [frame]: "leaves own_state (tcp_attempts e u d i n l)"
    "leaves w_events (tcp_attempts e u d i n l)" "leaves w_fs (tcp_attempts e u d i n l)"
  by (induction n arbitrary: i l) (auto intro!: frame)

lemma leaves_Check [frame]: "leaves own_state (Check e ty u d n)"
    "leaves w_events (Check e ty u d n)" "leaves w_fs (Check e ty u d n)"
  by (cases ty; auto simp: Check_def checkHTTP_def checkTCP_def intro!: frame)+

text \<open>
  What a check did, read off its trace: \<open>k\<close> failed attempts, a pause before each attempt but
  the first, and a last attempt that succeeded if the check did.
\<close>

definition attempt_trace :: "Action \<Rightarrow> int \<Rightarrow> nat \<Rightarrow> nat \<Rightarrow> Action list" where
  "attempt_trace a pause i k =
     concat (map (\<lambda>j. (if 0 < j then [ActSleep pause] else []) @ [a]) [i ..< i + k])"

lemma attempt_trace_0 [simp]: "attempt_trace a d i 0 = []"
  by (simp add: attempt_trace_def)

lemma attempt_trace_Suc:
  "attempt_trace a d i (Suc k) =
     (if 0 < i then [ActSleep d] else []) @ a # attempt_trace a d (Suc i) k"
  by (simp add: attempt_trace_def upt_conv_Cons del: upt_Suc)

lemma attempts_in_trace:
  "length (filter (\<lambda>x. x = ActGet u) (attempt_trace (ActGet u) d i k)) = k"
  "length (filter (\<lambda>x. x = ActDial u) (attempt_trace (ActDial u) d i k)) = k"
  by (induction k arbitrary: i) (auto simp: attempt_trace_Suc)

lemma wp_http_Get:
  "wp (http_Get e u) w Q =
     Q (env_http e (w_tick w) u)
       (w\<lparr>w_tick := Suc (w_tick w), w_trace := w_trace w @ [ActGet u]\<rparr>)"
  by (simp add: wp_def http_Get_def io_tick_def io_trace_def)

lemma wp_net_Dial:
  "wp (net_Dial e u) w Q =
     Q (env_dial e (w_tick w) u)
       (w\<lparr>w_tick := Suc (w_tick w), w_trace := w_trace w @ [ActDial u]\<rparr>)"
  by (simp add: wp_def net_Dial_def io_tick_def io_trace_def)

lemma wp_sleep: "wp (time_Sleep d) w Q = Q () (w\<lparr>w_trace := w_trace w @ [ActSleep d]\<rparr>)"
  by (simp add: wp_def time_Sleep_def io_trace_def)

text \<open>
  The contract of a retry loop at index \<open>i\<close> with \<open>n\<close> attempts left, over the answers \<open>ok\<close> of
  the checked service: it stops at the first good answer, or fails after \<open>n\<close> bad ones.
\<close>

definition retry_post ::
    "Action \<Rightarrow> (nat \<Rightarrow> bool) \<Rightarrow> string \<Rightarrow> int \<Rightarrow> nat \<Rightarrow> nat \<Rightarrow> World \<Rightarrow> unit result \<Rightarrow> World \<Rightarrow> bool" where
  "retry_post a ok failure d i n w r w' \<longleftrightarrow>
     (\<exists>k. w_trace w' = w_trace w @ attempt_trace a d i k \<and> w_tick w' = w_tick w + k \<and>
        (case r of
           Inr x \<Rightarrow> 0 < k \<and> k \<le> n \<and> ok (w_tick w + k - 1) \<and> (\<forall>j. Suc j < k \<longrightarrow> \<not> ok (w_tick w + j))
         | Inl err \<Rightarrow> k = n \<and> (\<forall>j < n. \<not> ok (w_tick w + j)) \<and>
             HasPrefix err (failure @ Itoa (int (i + n)))))"

lemma retry_post_done:
  "ok (w_tick w) \<Longrightarrow> retry_post a ok f d i (Suc n) w (Inr x)
     (w\<lparr>w_tick := Suc (w_tick w),
        w_trace := w_trace w @ (if 0 < i then [ActSleep d] else []) @ [a]\<rparr>)"
  by (auto simp: retry_post_def attempt_trace_Suc intro!: exI [of _ 1])

lemma retry_post_give_up:
  "HasPrefix err (f @ Itoa (int i)) \<Longrightarrow> retry_post a ok f d i 0 w (Inl err) w"
  by (auto simp: retry_post_def intro!: exI [of _ 0])

lemma retry_post_again:
  assumes "\<not> ok (w_tick w)"
    and "retry_post a ok f d (Suc i) n
           (w\<lparr>w_tick := Suc (w_tick w),
              w_trace := w_trace w @ (if 0 < i then [ActSleep d] else []) @ [a]\<rparr>) r w'"
  shows "retry_post a ok f d i (Suc n) w r w'"
proof -
  have first: "P (w_tick w) \<Longrightarrow> (\<forall>j. Suc j < Suc k \<longrightarrow> P (w_tick w + j)) \<longleftrightarrow>
      (\<forall>j. Suc j < k \<longrightarrow> P (Suc (w_tick w + j)))" for k P
    by (auto simp: less_Suc_eq_0_disj) (case_tac j; auto)
  from this [of "\<lambda>t. \<not> ok t", OF assms(1)]
  have shift: "(\<forall>j. Suc j < Suc k \<longrightarrow> \<not> ok (w_tick w + j)) \<longleftrightarrow>
      (\<forall>j. Suc j < k \<longrightarrow> \<not> ok (Suc (w_tick w + j)))" for k by blast
  have shift': "(\<forall>j < Suc k. \<not> ok (w_tick w + j)) \<longleftrightarrow> (\<forall>j < k. \<not> ok (Suc (w_tick w + j)))" for k
    using shift [of "Suc k"] by simp
  obtain k where k: "w_trace w' = w_trace w @ attempt_trace a d i (Suc k)"
      "w_tick w' = w_tick w + Suc k"
      "case r of
         Inr x \<Rightarrow> 0 < k \<and> k \<le> n \<and> ok (Suc (w_tick w) + k - 1) \<and>
           (\<forall>j. Suc j < k \<longrightarrow> \<not> ok (Suc (w_tick w + j)))
       | Inl err \<Rightarrow> k = n \<and> (\<forall>j < n. \<not> ok (Suc (w_tick w + j))) \<and>
           HasPrefix err (f @ Itoa (int (Suc i + n)))"
    using assms(2) by (cases r) (auto simp: retry_post_def attempt_trace_Suc)
  show ?thesis
    unfolding retry_post_def using k
    by (intro exI [of _ "Suc k"]) (cases r; simp add: shift' add_ac; metis shift add.commute add_Suc Suc_less_eq)
qed

definition http_answer_ok :: "Env \<Rightarrow> string \<Rightarrow> nat \<Rightarrow> bool" where
  "http_answer_ok e u t = (case env_http e t u of Inl err \<Rightarrow> False | Inr c \<Rightarrow> status_ok c)"

definition dial_answer_ok :: "Env \<Rightarrow> string \<Rightarrow> nat \<Rightarrow> bool" where
  "dial_answer_ok e a t = (env_dial e t a = None)"

lemma http_attempts_post:
  "wp (http_attempts e u d i n l) w
     (retry_post (ActGet u) (http_answer_ok e u) ''health check failed after '' d i n w)"
proof (induction n arbitrary: i l w)
  case 0
  show ?case by (simp add: retry_post_give_up HasPrefix_iff)
next
  case (Suc n)
  let ?w = "w\<lparr>w_tick := Suc (w_tick w),
    w_trace := w_trace w @ (if 0 < i then [ActSleep d] else []) @ [ActGet u]\<rparr>"
  have again: "wp (http_attempts e u d (Suc i) n l') ?w
      (retry_post (ActGet u) (http_answer_ok e u) ''health check failed after '' d i (Suc n) w)"
    if "\<not> http_answer_ok e u (w_tick w)" for l'
    using that by (intro wp_mono [OF Suc.IH] retry_post_again)
  have fin: "retry_post (ActGet u) (http_answer_ok e u) f d i (Suc n) w (Inr ()) ?w"
    if "http_answer_ok e u (w_tick w)" for f
    using that by (rule retry_post_done)
  have "http_answer_ok e u (w_tick w) =
      (case env_http e (w_tick w) u of Inl err \<Rightarrow> False | Inr c \<Rightarrow> status_ok c)"
    by (simp add: http_answer_ok_def)
  with again fin show ?case
    by (cases "env_http e (w_tick w) u"; cases "0 < i") (auto simp: wp_http_Get wp_sleep)
qed

lemma tcp_attempts_post:
  "wp (tcp_attempts e u d i n l) w
     (retry_post (ActDial u) (dial_answer_ok e u) ''tcp check failed after '' d i n w)"
proof (induction n arbitrary: i l w)
  case 0
  show ?case by (simp add: retry_post_give_up HasPrefix_iff)
next
  case (Suc n)
  let ?w = "w\<lparr>w_tick := Suc (w_tick w),
    w_trace := w_trace w @ (if 0 < i then [ActSleep d] else []) @ [ActDial u]\<rparr>"
  have again: "wp (tcp_attempts e u d (Suc i) n l') ?w
      (retry_post (ActDial u) (dial_answer_ok e u) ''tcp check failed after '' d i (Suc n) w)"
    if "\<not> dial_answer_ok e u (w_tick w)" for l'
    using that by (intro wp_mono [OF Suc.IH] retry_post_again)
  have fin: "retry_post (ActDial u) (dial_answer_ok e u) f d i (Suc n) w (Inr ()) ?w"
    if "dial_answer_ok e u (w_tick w)" for f
    using that by (rule retry_post_done)
  have "dial_answer_ok e u (w_tick w) = (env_dial e (w_tick w) u = None)"
    by (simp add: dial_answer_ok_def)
  with again fin show ?case
    by (cases "env_dial e (w_tick w) u"; cases "0 < i") (auto simp: wp_net_Dial wp_sleep)
qed

lemma adds_http_attempts [frame]: "adds no_run (http_attempts e u d i n l)"
  by (induction n arbitrary: i l)
     (auto simp: http_Get_def time_Sleep_def intro!: frame adds_trace extends_leaves [OF leaves_tick(3)])

lemma adds_tcp_attempts [frame]: "adds no_run (tcp_attempts e u d i n l)"
  by (induction n arbitrary: i l)
     (auto simp: net_Dial_def time_Sleep_def intro!: frame adds_trace extends_leaves [OF leaves_tick(3)])

lemma adds_Check [frame]: "adds no_run (Check e ty u d n)"
  by (cases ty) (auto simp: Check_def checkHTTP_def checkTCP_def intro!: frame)

end
