(* ===== verification/Deployer.thy ===== *)
theory Deployer
  imports Compose Health
begin

text \<open>
  \<open>internal/deployer/deployer.go\<close>: the deployment transaction with its per-project lock, audit
  record, state row, events, health checks and rollback; stop, start and manual rollback; the
  compose command line and the clean-up of its output. A held lock is a project id in
  \<open>w_locks\<close>; the listeners are the event log \<open>w_events\<close>. Log lines are not modelled.
\<close>

section \<open>The output of compose\<close>

definition esc_char :: char where
  "esc_char = CHR 0x1B"

lemma length_strip_le: "length (dropWhile P (drop (Suc 0) s)) - Suc 0 \<le> length s"
  using length_dropWhile_le [of P "drop (Suc 0) s"] by simp

text \<open>Remove \<open>ESC [ ... letter\<close> sequences, where the letter is in \<open>@\<close> to \<open>~\<close>.\<close>

function strip_csi :: "string \<Rightarrow> string" where
  "strip_csi [] = []"
| "strip_csi (c # s) =
     (if c = esc_char \<and> HasPrefix s ''[''
      then strip_csi (drop 1 (dropWhile (\<lambda>x. x < CHR ''@'' \<or> CHR ''~'' < x) (drop 1 s)))
      else c # strip_csi s)"
  by pat_completeness auto

termination
  by (relation "measure length") (auto simp: less_Suc_eq_le length_strip_le)

declare strip_csi.simps [simp del]

definition stripANSI :: "string \<Rightarrow> string" where
  "stripANSI s = TrimSpace (strip_csi s)"

text \<open>
  The tokens of \<open>bufio.Scanner\<close>: lines without their end, up to the first one that does not
  fit its buffer of 64 KB, where the scanner stops.
\<close>

definition scan_limit :: int where
  "scan_limit = 65535"

definition drop_cr :: "string \<Rightarrow> string" where
  "drop_cr l = TrimSuffix l [CHR 0x0D]"

definition scan_tokens :: "string \<Rightarrow> string list" where
  "scan_tokens s =
     (let ls = split_on (CHR 0x0A) s;
          raw = (if last ls = '''' then butlast ls else ls)
      in map drop_cr (takeWhile (\<lambda>l. int (length l) \<le> scan_limit) raw))"

fun dedup_lines :: "string \<Rightarrow> string list \<Rightarrow> string list" where
  "dedup_lines prev [] = []"
| "dedup_lines prev (seg # segs) =
     (let line = stripANSI seg in
      if line = '''' \<or> line = prev then dedup_lines prev segs
      else line # dedup_lines line segs)"

definition scanDockerOutput :: "string \<Rightarrow> string list" where
  "scanDockerOutput s = dedup_lines '''' (concat (map (split_on (CHR 0x0D)) (scan_tokens s)))"

text \<open>The lines of both streams in the order given by the schedule; \<open>True\<close> marks stderr.\<close>

fun merge_lines :: "bool list \<Rightarrow> string list \<Rightarrow> string list \<Rightarrow> (string \<times> bool) list" where
  "merge_lines [] out err = map (\<lambda>l. (l, False)) out @ map (\<lambda>l. (l, True)) err"
| "merge_lines (True # sched) (l # out) err = (l, False) # merge_lines sched out err"
| "merge_lines (True # sched) [] err = merge_lines sched [] err"
| "merge_lines (False # sched) out (l # err) = (l, True) # merge_lines sched out err"
| "merge_lines (False # sched) out [] = merge_lines sched out []"

section \<open>Digests\<close>

definition ShortDigest :: "string \<Rightarrow> string" where
  "ShortDigest d = (if 19 < length d then take 19 d else d)"

text \<open>A copy with the same entries; nil becomes the empty map.\<close>

definition copyDigestMap :: "smap \<Rightarrow> smap" where
  "copyDigestMap m = map (\<lambda>(k, v). (k, v)) m"

definition add_override :: "smap \<Rightarrow> smap \<Rightarrow> ServiceConfig \<Rightarrow> smap" where
  "add_override digests overrides svc =
     (let digest = smap_get digests (svc_Name svc) in
      if digest \<noteq> ''''
      then AList.update (svc_Name svc) (svc_RegistryImage svc @ ''@'' @ digest) overrides
      else overrides)"

definition buildImageOverrides :: "Project \<Rightarrow> smap \<Rightarrow> smap" where
  "buildImageOverrides p digests =
     (if digests = [] then [] else foldl (add_override digests) [] (p_Services p))"

section \<open>Locks and events\<close>

record Deployer =
  dep_env :: Env
  dep_yaml :: "string \<Rightarrow> stackConfig result"
  dep_runtime :: string

text \<open>\<open>getLock(id).TryLock()\<close> and \<open>Unlock()\<close>.\<close>

definition TryLock :: "string \<Rightarrow> bool io" where
  "TryLock i = State (\<lambda>w. if i \<in> set (w_locks w) then (False, w)
     else (True, w\<lparr>w_locks := i # w_locks w\<rparr>))"

definition Unlock :: "string \<Rightarrow> unit io" where
  "Unlock i = State (\<lambda>w. ((), w\<lparr>w_locks := remove1 i (w_locks w)\<rparr>))"

definition publish :: "Event \<Rightarrow> unit io" where
  "publish ev = State (\<lambda>w. ((), w\<lparr>w_events := w_events w @ [ev]\<rparr>))"

definition emit :: "Deployer \<Rightarrow> Event \<Rightarrow> unit io" where
  "emit D ev =
     (if ev_Timestamp ev = 0
      then do { now \<leftarrow> time_Now (dep_env D); publish (ev\<lparr>ev_Timestamp := now\<rparr>) }
      else publish ev)"

definition emit_step :: "Deployer \<Rightarrow> Project \<Rightarrow> EventType \<Rightarrow> string \<Rightarrow> error option \<Rightarrow> unit io" where
  "emit_step D p ty step err =
     emit D ((mk_event ty (p_ID p))\<lparr>ev_Step := step, ev_Error := err \<noteq> None,
       ev_Message := (case err of None \<Rightarrow> '''' | Some s \<Rightarrow> s)\<rparr>)"

definition emit_status :: "Deployer \<Rightarrow> Project \<Rightarrow> EventType \<Rightarrow> ProjectStatus \<Rightarrow> error option \<Rightarrow> unit io" where
  "emit_status D p ty status err =
     emit D ((mk_event ty (p_ID p))\<lparr>ev_Status := ProjectStatus_text status, ev_Error := err \<noteq> None,
       ev_Message := (case err of None \<Rightarrow> '''' | Some s \<Rightarrow> s)\<rparr>)"

definition emit_log :: "Deployer \<Rightarrow> Project \<Rightarrow> string \<times> bool \<Rightarrow> unit io" where
  "emit_log D p l =
     emit D ((mk_event EventLog (p_ID p))\<lparr>ev_Message := fst l, ev_Error := snd l\<rparr>)"

section \<open>Compose\<close>

definition compose_args :: "string \<Rightarrow> string \<Rightarrow> bool \<Rightarrow> string list \<Rightarrow> string list" where
  "compose_args runtime stackPath override args =
     runtime # ''compose'' # ''-f'' # (stackPath @ ''/compose.yaml'') #
     (if override then [''-f'', stackPath @ ''/compose.override.yaml''] else []) @ args"

text \<open>With a log function (the events of project \<open>p\<close>) and without one.\<close>

definition composeCmd_log :: "Deployer \<Rightarrow> Project \<Rightarrow> string list \<Rightarrow> unit result io" where
  "composeCmd_log D p args = do {
     let stackPath = p_StackPath p;
     ov \<leftarrow> fileExists (dep_env D) (stackPath @ ''/compose.override.yaml'');
     outPipe \<leftarrow> os_Pipe (dep_env D);
     case outPipe of
       Some err \<Rightarrow> ret (Inl (''stdout pipe: '' @ err))
     | None \<Rightarrow> do {
     errPipe \<leftarrow> os_Pipe (dep_env D);
     case errPipe of
       Some err \<Rightarrow> ret (Inl (''stderr pipe: '' @ err))
     | None \<Rightarrow> do {
     out \<leftarrow> exec_run (dep_env D) (compose_args (dep_runtime D) stackPath ov args) stackPath;
     case xo_Start out of
       Some err \<Rightarrow> ret (Inl (''start: '' @ err))
     | None \<Rightarrow> do {
         io_each (emit_log D p)
           (merge_lines (xo_Order out) (scanDockerOutput (xo_Stdout out))
              (scanDockerOutput (xo_Stderr out)));
         case xo_Wait out of
           Some err \<Rightarrow> ret (Inl (strings_Join args '' '' @ '': '' @ err))
         | None \<Rightarrow> ret (Inr ())
       }}}
   }"

definition composeCmd_quiet :: "Deployer \<Rightarrow> Project \<Rightarrow> string list \<Rightarrow> unit result io" where
  "composeCmd_quiet D p args = do {
     let stackPath = p_StackPath p;
     ov \<leftarrow> fileExists (dep_env D) (stackPath @ ''/compose.override.yaml'');
     out \<leftarrow> exec_run (dep_env D) (compose_args (dep_runtime D) stackPath ov args) stackPath;
     case xo_error out of
       Some err \<Rightarrow> ret (Inl (strings_Join args '' '' @ '': '' @ xo_Combined out))
     | None \<Rightarrow> ret (Inr ())
   }"

definition args_up :: "string list" where
  "args_up = [''up'', ''-d'', ''--force-recreate'', ''--remove-orphans'']"

section \<open>Deployment\<close>

definition write_files :: "Deployer \<Rightarrow> Project \<Rightarrow> smap \<Rightarrow> unit result io" where
  "write_files D p ov = WriteComposeFiles (dep_env D) (dep_yaml D) p ov"

text \<open>A compose command announced by its two step events.\<close>

definition compose_step ::
    "Deployer \<Rightarrow> Project \<Rightarrow> string \<Rightarrow> string list \<Rightarrow> unit result io" where
  "compose_step D p step args = do {
     emit_step D p EventStepStart step None;
     r \<leftarrow> composeCmd_log D p args;
     case r of
       Inl err \<Rightarrow> do {
         emit_step D p EventStepDone step (Some err);
         ret (Inl (''compose '' @ step @ '': '' @ err))
       }
     | Inr u \<Rightarrow> do { emit_step D p EventStepDone step None; ret (Inr ()) }
   }"

definition executeDeploy :: "Deployer \<Rightarrow> Project \<Rightarrow> smap \<Rightarrow> unit result io" where
  "executeDeploy D p digests =
     check_err ''write compose files: '' (write_files D p (buildImageOverrides p digests))
       (check_err '''' (compose_step D p ''pull'' [''pull''])
          (compose_step D p ''up'' args_up))"

definition check_timeout :: int where
  "check_timeout = 30 * 1000000000"

definition service_check :: "Deployer \<Rightarrow> ServiceConfig \<Rightarrow> unit result io" where
  "service_check D svc =
     (if svc_HealthType svc \<noteq> HealthOther '''' \<and> svc_HealthType svc \<noteq> HealthNone
      then check_err (''service '' @ svc_Name svc @ '' health check: '')
             (Check (dep_env D) (svc_HealthType svc) (svc_HealthTarget svc) check_timeout 3)
             (ret (Inr ()))
      else ret (Inr ()))"

definition runHealthChecks :: "Deployer \<Rightarrow> Project \<Rightarrow> unit result io" where
  "runHealthChecks D p =
     check_err ''''
       (if p_HealthType p \<noteq> HealthNone \<and> p_HealthType p \<noteq> HealthOther ''''
        then Check (dep_env D) (p_HealthType p) (p_HealthTarget p) check_timeout 3
        else ret (Inr ()))
       (io_for (service_check D) (p_Services p))"

definition executeRollback :: "Deployer \<Rightarrow> Project \<Rightarrow> smap \<Rightarrow> unit result io" where
  "executeRollback D p prevDigests =
     (if prevDigests = [] then ret (Inl ''no previous digests to rollback to'')
      else check_err ''write rollback compose: '' (write_files D p (buildImageOverrides p prevDigests))
        (check_err ''compose up rollback: '' (composeCmd_log D p args_up)
          (check_err ''health check after rollback: '' (runHealthChecks D p) (ret (Inr ())))))"

definition finish_deployment :: "Deployer \<Rightarrow> nat \<Rightarrow> DeployStatus \<Rightarrow> string \<Rightarrow> unit io" where
  "finish_deployment D i status msg = do {
     now \<leftarrow> time_Now (dep_env D);
     db_write (FinishDeployment now i status msg)
   }"

text \<open>Bringing the stack up and checking it: \<open>deployErr\<close> of the code.\<close>

definition deploy_and_check :: "Deployer \<Rightarrow> Project \<Rightarrow> smap \<Rightarrow> unit result io" where
  "deploy_and_check D p targetDigests =
     check_err '''' (executeDeploy D p targetDigests) (do {
       emit_step D p EventStepStart ''health_check'' None;
       r \<leftarrow> runHealthChecks D p;
       emit_step D p EventStepDone ''health_check''
         (case r of Inl err \<Rightarrow> Some err | Inr u \<Rightarrow> None);
       ret r
     })"

definition deploy_failed ::
    "Deployer \<Rightarrow> Project \<Rightarrow> ProjectState \<Rightarrow> nat \<Rightarrow> error \<Rightarrow> unit result io" where
  "deploy_failed D p state deployID deployErr = do {
     finish_deployment D deployID DeployFailed deployErr;
     emit_step D p EventStepStart ''rollback'' None;
     rb \<leftarrow> executeRollback D p (st_CurrentDigests state);
     state \<leftarrow> (case rb of
       Inl err \<Rightarrow> do {
         emit_step D p EventStepDone ''rollback'' (Some err);
         ret (state\<lparr>st_Status := StatusFailed,
           st_LastError := ''deploy: '' @ deployErr @ ''; rollback: '' @ err\<rparr>)
       }
     | Inr u \<Rightarrow> do {
         emit_step D p EventStepDone ''rollback'' None;
         finish_deployment D deployID DeployRolledBack deployErr;
         ret (state\<lparr>st_Status := StatusRolledBack,
           st_LastError := ''deploy failed: '' @ deployErr @ '' (rolled back)''\<rparr>)
       });
     emit_status D p EventStateChange (st_Status state) None;
     now \<leftarrow> time_Now (dep_env D);
     db_write (UpdateState (state\<lparr>st_LastDeployAt := Some now\<rparr>));
     emit_status D p EventDeployDone (st_Status state) (Some deployErr);
     ret (Inl deployErr)
   }"

definition deploy_succeeded ::
    "Deployer \<Rightarrow> Project \<Rightarrow> ProjectState \<Rightarrow> nat \<Rightarrow> smap \<Rightarrow> unit result io" where
  "deploy_succeeded D p state deployID targetDigests = do {
     finish_deployment D deployID DeploySuccess '''';
     now \<leftarrow> time_Now (dep_env D);
     db_write (UpdateState (state\<lparr>
       st_PreviousDigests := copyDigestMap (st_CurrentDigests state),
       st_CurrentDigests := copyDigestMap targetDigests,
       st_Status := StatusRunning, st_LastDeployAt := Some now,
       st_LastSuccessAt := Some now, st_LastError := ''''\<rparr>));
     emit_status D p EventStateChange StatusRunning None;
     emit_status D p EventDeployDone StatusRunning None;
     ret (Inr ())
   }"

definition new_deployment :: "Project \<Rightarrow> ProjectState \<Rightarrow> smap \<Rightarrow> DeployTrigger \<Rightarrow> int \<Rightarrow> Deployment" where
  "new_deployment p state targetDigests trigger now =
     \<lparr>d_ID = 0, d_ProjectID = p_ID p, d_FromDigests = copyDigestMap (st_CurrentDigests state),
      d_ToDigests = copyDigestMap targetDigests, d_Status = DeployInProgress,
      d_Trigger = trigger, d_StartedAt = now, d_EndedAt = None, d_ErrorMessage = ''''\<rparr>"

definition deploy_locked ::
    "Deployer \<Rightarrow> Project \<Rightarrow> smap \<Rightarrow> DeployTrigger \<Rightarrow> unit result io" where
  "deploy_locked D p targetDigests trigger = do {
     s \<leftarrow> db_read (\<lambda>d. GetState d (p_ID p));
     case s of
       Inl err \<Rightarrow> ret (Inl (''get state: '' @ err))
     | Inr state \<Rightarrow> do {
     now \<leftarrow> time_Now (dep_env D);
     ins \<leftarrow> db_exec (InsertDeployment (new_deployment p state targetDigests trigger now));
     case ins of
       Inl err \<Rightarrow> ret (Inl (''insert deployment: '' @ err))
     | Inr deployID \<Rightarrow> do {
     let state = state\<lparr>st_Status := StatusDeploying,
           st_DesiredDigests := copyDigestMap targetDigests\<rparr>;
     db_write (UpdateState state);
     emit_status D p EventStateChange StatusDeploying None;
     r \<leftarrow> deploy_and_check D p targetDigests;
     case r of
       Inl deployErr \<Rightarrow> deploy_failed D p state deployID deployErr
     | Inr u \<Rightarrow> deploy_succeeded D p state deployID targetDigests
     }}}"

definition Deploy :: "Deployer \<Rightarrow> Project \<Rightarrow> smap \<Rightarrow> DeployTrigger \<Rightarrow> unit result io" where
  "Deploy D p targetDigests trigger = do {
     ok \<leftarrow> TryLock (p_ID p);
     if \<not> ok then ret (Inl (''project '' @ p_ID p @ '': deployment already in progress''))
     else do {
       r \<leftarrow> deploy_locked D p targetDigests trigger;
       Unlock (p_ID p);
       ret r
     }
   }"

definition ManualRollback :: "Deployer \<Rightarrow> Project \<Rightarrow> unit result io" where
  "ManualRollback D p = do {
     s \<leftarrow> db_read (\<lambda>d. GetState d (p_ID p));
     case s of
       Inl err \<Rightarrow> ret (Inl err)
     | Inr state \<Rightarrow>
         if st_PreviousDigests state = [] then ret (Inl ''no previous version to rollback to'')
         else Deploy D p (st_PreviousDigests state) TriggerManual
   }"

section \<open>Stop and start\<close>

text \<open>\<open>if state != nil { ...; UpdateState(state) }\<close>\<close>

definition put_state :: "ProjectState option \<Rightarrow> unit io" where
  "put_state s = (case s of None \<Rightarrow> ret () | Some state \<Rightarrow> db_write (UpdateState state))"

definition read_state :: "Project \<Rightarrow> ProjectState option io" where
  "read_state p = db_read (\<lambda>d. case GetState d (p_ID p) of Inl err \<Rightarrow> None | Inr s \<Rightarrow> Some s)"

definition Stop :: "Deployer \<Rightarrow> Project \<Rightarrow> unit result io" where
  "Stop D p = do {
     s \<leftarrow> read_state p;
     let s = map_option (\<lambda>s. s\<lparr>st_Status := StatusStopping\<rparr>) s;
     put_state s;
     emit_status D p EventStateChange StatusStopping None;
     r \<leftarrow> composeCmd_quiet D p [''down''];
     case r of
       Inl err \<Rightarrow> do {
         emit_status D p EventStateChange StatusFailed (Some err);
         put_state (map_option (\<lambda>s. s\<lparr>st_Status := StatusFailed, st_LastError := ''stop: '' @ err\<rparr>) s);
         ret (Inl err)
       }
     | Inr u \<Rightarrow> do {
         put_state (map_option (\<lambda>s. s\<lparr>st_Status := StatusStopped\<rparr>) s);
         emit_status D p EventStateChange StatusStopped None;
         ret (Inr ())
       }
   }"

definition start_failed :: "Deployer \<Rightarrow> Project \<Rightarrow> ProjectState option \<Rightarrow> error \<Rightarrow> unit result io" where
  "start_failed D p s err = do {
     emit_status D p EventStateChange StatusFailed (Some err);
     put_state (map_option (\<lambda>s. s\<lparr>st_Status := StatusFailed, st_LastError := ''start: '' @ err\<rparr>) s);
     ret (Inl err)
   }"

definition Start :: "Deployer \<Rightarrow> Project \<Rightarrow> unit result io" where
  "Start D p = do {
     s \<leftarrow> read_state p;
     let s = map_option (\<lambda>s. s\<lparr>st_Status := StatusStarting\<rparr>) s;
     put_state s;
     emit_status D p EventStateChange StatusStarting None;
     r \<leftarrow> write_files D p [];
     case r of
       Inl err \<Rightarrow> start_failed D p s err
     | Inr u \<Rightarrow> do {
     r \<leftarrow> composeCmd_quiet D p [''up'', ''-d''];
     case r of
       Inl err \<Rightarrow> start_failed D p s err
     | Inr u \<Rightarrow> do {
     put_state (map_option (\<lambda>s. s\<lparr>st_Status := StatusRunning, st_LastError := ''''\<rparr>) s);
     emit_status D p EventStateChange StatusRunning None;
     ret (Inr ())
     }}}"

section \<open>Lemmas\<close>

lemma copyDigestMap_id [simp]: "copyDigestMap m = m"
  by (simp add: copyDigestMap_def)

lemma leaves_publish [frame]: "leaves own_state (publish ev)" "leaves w_trace (publish ev)"
    "leaves w_fs (publish ev)"
  by (simp_all add: leaves_def publish_def own_state_def)

lemma leaves_emit [frame]: "leaves own_state (emit D ev)" "leaves w_trace (emit D ev)"
    "leaves w_fs (emit D ev)"
  by (auto simp: emit_def intro!: frame)

lemma leaves_emits [frame]:
    "leaves own_state (emit_step D p ty s r)" "leaves w_trace (emit_step D p ty s r)"
    "leaves w_fs (emit_step D p ty s r)"
    "leaves own_state (emit_status D p ty st r)" "leaves w_trace (emit_status D p ty st r)"
    "leaves w_fs (emit_status D p ty st r)"
    "leaves own_state (emit_log D p l)" "leaves w_trace (emit_log D p l)"
    "leaves w_fs (emit_log D p l)"
  by (auto simp: emit_step_def emit_status_def emit_log_def intro!: frame)

lemma leaves_composeCmd [frame]:
    "leaves own_state (composeCmd_log D p args)" "leaves own_state (composeCmd_quiet D p args)"
    "leaves w_events (composeCmd_quiet D p args)"
  by (auto simp: composeCmd_log_def composeCmd_quiet_def Let_def intro!: frame)

lemma leaves_compose_step [frame]: "leaves own_state (compose_step D p s args)"
  by (auto simp: compose_step_def intro!: frame)

lemma leaves_write_files [frame]: "leaves own_state (write_files D p ov)"
    "leaves w_events (write_files D p ov)" "leaves w_trace (write_files D p ov)"
  by (auto simp: write_files_def intro!: frame)

lemma leaves_executeDeploy [frame]: "leaves own_state (executeDeploy D p t)"
  by (auto simp: executeDeploy_def intro!: frame)

lemma leaves_runHealthChecks [frame]: "leaves own_state (runHealthChecks D p)"
    "leaves w_events (runHealthChecks D p)" "leaves w_fs (runHealthChecks D p)"
  by (auto simp: runHealthChecks_def service_check_def intro!: frame)

lemma leaves_executeRollback [frame]: "leaves own_state (executeRollback D p t)"
  by (auto simp: executeRollback_def intro!: frame)

lemma leaves_deploy_and_check [frame]: "leaves own_state (deploy_and_check D p t)"
  by (auto simp: deploy_and_check_def intro!: frame)

text \<open>A call to the outside under a weakest precondition: database and locks stay.\<close>

lemma wp_own:
  assumes "leaves own_state m"
    and "\<And>a w'. w_db w' = w_db w \<Longrightarrow> w_locks w' = w_locks w \<Longrightarrow> Q a w'"
  shows "wp m w Q"
  using assms by (intro wp_leavesI [OF assms(1)]) (simp add: own_state_def)

end
