(* ===== verification/Deploy_Correct.thy ===== *)
theory Deploy_Correct
  imports Deployer
begin

text \<open>
  What a deployment leaves in the database and asks of the runtime: the effect of \<open>Deploy\<close> as
  one update of the state row and one finished audit record, the release of the lock, the
  digests that the started images are pinned to, and the events that close a deployment.
\<close>

section \<open>The effect on the database\<close>

text \<open>One new state row for project \<open>i\<close> and one new audit record.\<close>

definition deploy_effect :: "string \<Rightarrow> ProjectState \<Rightarrow> Deployment \<Rightarrow> DB \<Rightarrow> DB" where
  "deploy_effect i st fin db =
     db\<lparr>db_states := sql_update i (\<lambda>r. st) (db_states db),
        db_deployments := db_deployments db @ [fin],
        db_deploy_seq := Suc (db_deploy_seq db)\<rparr>"

text \<open>
  The promise: from state \<open>s\<close> and targets \<open>t\<close>, result \<open>r\<close>, state row \<open>st\<close> and record \<open>fin\<close>.
\<close>

definition deploy_outcome ::
    "string \<Rightarrow> ProjectState \<Rightarrow> smap \<Rightarrow> DeployTrigger \<Rightarrow> unit result \<Rightarrow> ProjectState \<Rightarrow> Deployment \<Rightarrow> bool" where
  "deploy_outcome i s t trigger r st fin \<longleftrightarrow>
     d_ProjectID fin = i \<and> d_FromDigests fin = st_CurrentDigests s \<and> d_ToDigests fin = t \<and>
     d_Trigger fin = trigger \<and> d_EndedAt fin \<noteq> None \<and>
     st_ProjectID st = i \<and> st_DesiredDigests st = t \<and> st_LastDeployAt st \<noteq> None \<and>
     (case r of
        Inr x \<Rightarrow>
          st_Status st = StatusRunning \<and> st_CurrentDigests st = t \<and>
          st_PreviousDigests st = st_CurrentDigests s \<and> st_LastError st = '''' \<and>
          st_LastSuccessAt st = st_LastDeployAt st \<and>
          d_Status fin = DeploySuccess \<and> d_ErrorMessage fin = ''''
      | Inl err \<Rightarrow>
          st_CurrentDigests st = st_CurrentDigests s \<and>
          st_PreviousDigests st = st_PreviousDigests s \<and>
          st_LastSuccessAt st = fmtTime (st_LastSuccessAt s) \<and> d_ErrorMessage fin = err \<and>
          (st_Status st = StatusRolledBack \<and> d_Status fin = DeployRolledBack \<or>
           st_Status st = StatusFailed \<and> d_Status fin = DeployFailed))"

definition deploy_post ::
    "Project \<Rightarrow> smap \<Rightarrow> DeployTrigger \<Rightarrow> DB \<Rightarrow> unit result \<Rightarrow> DB \<Rightarrow> bool" where
  "deploy_post p t trigger db r db' \<longleftrightarrow>
     (case GetState db (p_ID p) of
        Inl err \<Rightarrow> r = Inl (''get state: '' @ err) \<and> db' = db
      | Inr s \<Rightarrow>
          (\<exists>st fin. db' = deploy_effect (p_ID p) st fin db \<and>
             d_ID fin = Suc (db_deploy_seq db) \<and> deploy_outcome (p_ID p) s t trigger r st fin))"

lemma sql_update_twice: "sql_update k f (sql_update k g t) = sql_update k (\<lambda>r. f (g r)) t"
  unfolding sql_update_def by (induction t) auto

lemma finish_fresh:
  assumes "\<forall>d \<in> set ds. d_ID d \<le> n"
  shows "map (\<lambda>d. if d_ID d = Suc n then f d else d) ds = ds"
  using assms by (induction ds) auto

lemma GetState_ok:
  assumes "db_ok db" "GetState db i = Inr s"
  shows "st_ProjectID s = i" "i \<in> table_keys (db_projects db)"
proof -
  have st: "states_ok db" using assms(1) by (simp add: db_ok_def)
  have "map_of (db_states db) i = Some s"
    using assms(2) by (simp add: GetState_def split: option.splits)
  with st show "st_ProjectID s = i" "i \<in> table_keys (db_projects db)"
    unfolding states_ok_def by (auto dest: rows_all_look simp: map_of_table_keys)
qed

text \<open>The database of a deployment in progress.\<close>

lemma UpdateState_effect:
  "st_ProjectID st' = i \<Longrightarrow> UpdateState st' (deploy_effect i st fin db) =
     deploy_effect i (st'\<lparr>st_LastCheckAt := fmtTime (st_LastCheckAt st'),
       st_LastDeployAt := fmtTime (st_LastDeployAt st'),
       st_LastSuccessAt := fmtTime (st_LastSuccessAt st')\<rparr>) fin db"
  by (simp add: UpdateState_def deploy_effect_def sql_update_twice)

lemma FinishDeployment_effect:
  assumes "db_ok db" "d_ID fin = Suc (db_deploy_seq db)"
  shows "FinishDeployment now (Suc (db_deploy_seq db)) status msg (deploy_effect i st fin db) =
    deploy_effect i st (fin\<lparr>d_Status := status, d_EndedAt := Some (rfc3339 now),
      d_ErrorMessage := msg\<rparr>) db"
proof -
  have "map (\<lambda>d. if d_ID d = Suc (db_deploy_seq db)
      then d\<lparr>d_Status := status, d_EndedAt := Some (rfc3339 now), d_ErrorMessage := msg\<rparr> else d)
      (db_deployments db) = db_deployments db"
    using assms(1) by (intro finish_fresh) (simp add: db_ok_def deployments_ok_def)
  then show ?thesis using assms(2) by (simp add: FinishDeployment_def deploy_effect_def)
qed

lemma InsertDeployment_effect:
  assumes "d_ProjectID d \<in> table_keys (db_projects db)" "st_ProjectID st = i"
  shows "InsertDeployment d db =
    (Inr (Suc (db_deploy_seq db)), snd (InsertDeployment d db))"
    "UpdateState st (snd (InsertDeployment d db)) =
      deploy_effect i (st\<lparr>st_LastCheckAt := fmtTime (st_LastCheckAt st),
          st_LastDeployAt := fmtTime (st_LastDeployAt st),
          st_LastSuccessAt := fmtTime (st_LastSuccessAt st)\<rparr>)
        (d\<lparr>d_ID := Suc (db_deploy_seq db), d_StartedAt := rfc3339 (d_StartedAt d),
           d_EndedAt := fmtTime (d_EndedAt d)\<rparr>) db"
  using assms by (simp_all add: InsertDeployment_def Let_def UpdateState_def deploy_effect_def)

lemma fmtTime_simps [simp]: "fmtTime (Some t) = Some (rfc3339 t)" "fmtTime None = None"
  by (simp_all add: fmtTime_def)

text \<open>A deployment in progress, and the rules by which its steps carry it on.\<close>

definition in_progress ::
    "string \<Rightarrow> DB \<Rightarrow> string list \<Rightarrow> ProjectState \<Rightarrow> Deployment \<Rightarrow> World \<Rightarrow> bool" where
  "in_progress i db locks st fin w \<longleftrightarrow>
     db_ok db \<and> w_db w = deploy_effect i st fin db \<and> w_locks w = locks \<and>
     d_ID fin = Suc (db_deploy_seq db)"

lemma step_own:
  assumes "in_progress i db locks st fin w" "leaves own_state m"
    and "\<And>a w'. in_progress i db locks st fin w' \<Longrightarrow> Q a w'"
  shows "wp m w Q"
  using assms by (intro wp_own [OF assms(2)]) (simp add: in_progress_def)

lemma step_update:
  assumes "in_progress i db locks st fin w" "st_ProjectID s = i"
    and "\<And>w'. in_progress i db locks (stored_state s) fin w' \<Longrightarrow> Q () w'"
  shows "wp (db_write (UpdateState s)) w Q"
  using assms by (simp add: in_progress_def UpdateState_effect stored_state_def)

lemma step_finish:
  assumes "in_progress i db locks st fin w" "n = Suc (db_deploy_seq db)"
    and "\<And>now w'. in_progress i db locks st
       (fin\<lparr>d_Status := status, d_EndedAt := Some (rfc3339 now), d_ErrorMessage := msg\<rparr>) w' \<Longrightarrow> Q () w'"
  shows "wp (finish_deployment D n status msg) w Q"
  unfolding finish_deployment_def wp_bind
  by (rule step_own [OF assms(1) leaves_time(1)])
     (use assms in \<open>simp add: in_progress_def FinishDeployment_effect\<close>)

definition ended ::
    "string \<Rightarrow> ProjectState \<Rightarrow> smap \<Rightarrow> DeployTrigger \<Rightarrow> DB \<Rightarrow> string list \<Rightarrow> unit result \<Rightarrow> World \<Rightarrow> bool" where
  "ended i s t trigger db locks r w \<longleftrightarrow>
     (\<exists>st fin. in_progress i db locks st fin w \<and> deploy_outcome i s t trigger r st fin)"

lemma endedI:
  "in_progress i db locks st fin w \<Longrightarrow> deploy_outcome i s t trigger r st fin \<Longrightarrow>
   ended i s t trigger db locks r w"
  unfolding ended_def by blast

lemmas deploy_steps = step_own [OF _ leaves_emits(1)] step_own [OF _ leaves_emits(4)]
  step_own [OF _ leaves_time(1)] step_own [OF _ leaves_executeRollback] step_finish step_update

text \<open>The record of the deployment of \<open>t\<close> from state \<open>s\<close>.\<close>

definition record_of :: "string \<Rightarrow> ProjectState \<Rightarrow> smap \<Rightarrow> DeployTrigger \<Rightarrow> Deployment \<Rightarrow> bool" where
  "record_of i s t trigger fin \<longleftrightarrow>
     d_ProjectID fin = i \<and> d_FromDigests fin = st_CurrentDigests s \<and> d_ToDigests fin = t \<and>
     d_Trigger fin = trigger"

lemma wp_deploy_succeeded:
  assumes ip: "in_progress i db locks st0 fin w"
    and s: "st_ProjectID s = i" "st_DesiredDigests s = t" and f: "record_of i s t trigger fin"
  shows "wp (deploy_succeeded D p s (Suc (db_deploy_seq db)) t) w (ended i s t trigger db locks)"
  unfolding deploy_succeeded_def wp_bind wp_ret using ip
  apply (rule deploy_steps, simp)
  apply (erule deploy_steps)+
   apply (simp add: s)
  apply (erule deploy_steps)+
  apply (erule endedI)
  using f s by (simp add: deploy_outcome_def record_of_def stored_state_def)

lemma wp_deploy_failed:
  assumes ip: "in_progress i db locks st0 fin w"
    and s: "st_ProjectID s = i" "st_DesiredDigests s = t" and f: "record_of i s t trigger fin"
  shows "wp (deploy_failed D p s (Suc (db_deploy_seq db)) err) w (ended i s t trigger db locks)"
  unfolding deploy_failed_def wp_bind wp_ret using ip
  apply (rule deploy_steps, simp)
  apply (erule deploy_steps)+
  apply (rename_tac rb wr)
  apply (case_tac rb)
   apply (simp only: sum.case wp_bind wp_ret)
   apply (erule deploy_steps)+
    apply (simp add: s)
   apply (erule deploy_steps)+
   apply (erule endedI)
   using f s apply (simp add: deploy_outcome_def record_of_def stored_state_def)
  apply (simp only: sum.case wp_bind wp_ret)
  apply (erule deploy_steps)+
   apply simp
  apply (erule deploy_steps)+
   apply (simp add: s)
  apply (erule deploy_steps)+
  apply (erule endedI)
  using f s by (simp add: deploy_outcome_def record_of_def stored_state_def)

section \<open>The whole transaction\<close>

lemma in_progress_start:
  assumes "db_ok db" "GetState db (p_ID p) = Inr s" "d = new_deployment p s t trigger now"
    and "w_locks w = locks" "w_db w = UpdateState st (snd (InsertDeployment d db))"
    and "st_ProjectID st = p_ID p"
  shows "\<exists>fin. in_progress (p_ID p) db locks (stored_state st) fin w \<and> record_of (p_ID p) s t trigger fin"
proof -
  have "d_ProjectID d \<in> table_keys (db_projects db)"
    using assms by (simp add: new_deployment_def GetState_ok)
  from InsertDeployment_effect(2) [OF this assms(6)] show ?thesis
    using assms by (auto simp: in_progress_def record_of_def stored_state_def new_deployment_def)
qed

lemma deploy_outcome_of:
  "deploy_outcome i (s\<lparr>st_Status := a, st_DesiredDigests := b\<rparr>) t trigger r st fin =
   deploy_outcome i s t trigger r st fin"
  by (cases r) (simp_all add: deploy_outcome_def)

text \<open>Once the record and the state row are written, the rest runs in progress.\<close>

definition deploy_rest ::
    "Deployer \<Rightarrow> Project \<Rightarrow> smap \<Rightarrow> ProjectState \<Rightarrow> nat \<Rightarrow> unit result io" where
  "deploy_rest D p t st n = do {
     emit_status D p EventStateChange StatusDeploying None;
     r \<leftarrow> deploy_and_check D p t;
     case r of
       Inl deployErr \<Rightarrow> deploy_failed D p st n deployErr
     | Inr u \<Rightarrow> deploy_succeeded D p st n t }"

lemma wp_deploy_locked_start:
  assumes ok: "db_ok (w_db w)" and s: "GetState (w_db w) (p_ID p) = Inr s"
    and st: "st = s\<lparr>st_Status := StatusDeploying, st_DesiredDigests := t\<rparr>"
    and rest: "\<And>fin w1. in_progress (p_ID p) (w_db w) (w_locks w) (stored_state st) fin w1 \<Longrightarrow>
       record_of (p_ID p) s t trigger fin \<Longrightarrow> w_trace w1 = w_trace w \<Longrightarrow> w_events w1 = w_events w \<Longrightarrow>
       w_fs w1 = w_fs w \<Longrightarrow>
       wp (deploy_rest D p t st (Suc (db_deploy_seq (w_db w)))) w1 Q"
  shows "wp (deploy_locked D p t trigger) w Q"
proof -
  have id: "st_ProjectID s = p_ID p" using GetState_ok [OF ok s] by simp
  have ins: "InsertDeployment (new_deployment p s t trigger now) (w_db w) =
      (Inr (Suc (db_deploy_seq (w_db w))),
       snd (InsertDeployment (new_deployment p s t trigger now) (w_db w)))" for now
    by (rule InsertDeployment_effect(1) [OF _ id])
       (use GetState_ok(2) [OF ok s] in \<open>simp add: new_deployment_def\<close>)
  have time: "wp (time_Now (dep_env D)) w (\<lambda>now w1.
      own_state w1 = own_state w \<and> w_trace w1 = w_trace w \<and> w_events w1 = w_events w \<and>
      w_fs w1 = w_fs w)"
    by (intro wp_conj wp_leaves frame)
  show ?thesis
    unfolding deploy_locked_def wp_bind wp_db_read s sum.case wp_db_exec copyDigestMap_id
  proof (rule wp_mono [OF time])
    fix now :: int and w1 :: World
    assume "own_state w1 = own_state w \<and> w_trace w1 = w_trace w \<and> w_events w1 = w_events w \<and>
      w_fs w1 = w_fs w"
    then have w1: "w_db w1 = w_db w" "w_locks w1 = w_locks w" "w_trace w1 = w_trace w"
        "w_events w1 = w_events w" "w_fs w1 = w_fs w"
      by (simp_all add: own_state_def)
    let ?w = "w1\<lparr>w_db := UpdateState st
      (snd (InsertDeployment (new_deployment p s t trigger now) (w_db w)))\<rparr>"
    have "\<exists>fin. in_progress (p_ID p) (w_db w) (w_locks w) (stored_state st) fin ?w \<and>
        record_of (p_ID p) s t trigger fin"
      by (rule in_progress_start [OF ok s refl]) (use w1 id st in simp_all)
    then obtain fin1 where
      "in_progress (p_ID p) (w_db w) (w_locks w) (stored_state st) fin1 ?w" "record_of (p_ID p) s t trigger fin1"
      by blast
    from rest [OF this] w1(3,4,5)
    have "wp (deploy_rest D p t st (Suc (db_deploy_seq (w_db w)))) ?w Q" by simp
    then show "wp (case fst (InsertDeployment (new_deployment p s t trigger now) (w_db w1)) of
         Inl err \<Rightarrow> ret (Inl (''insert deployment: '' @ err))
       | Inr deployID \<Rightarrow> do {
           let state = s\<lparr>st_Status := StatusDeploying, st_DesiredDigests := t\<rparr>;
           db_write (UpdateState state);
           emit_status D p EventStateChange StatusDeploying None;
           r \<leftarrow> deploy_and_check D p t;
           case r of
             Inl deployErr \<Rightarrow> deploy_failed D p state deployID deployErr
           | Inr u \<Rightarrow> deploy_succeeded D p state deployID t })
        (w1\<lparr>w_db := snd (InsertDeployment (new_deployment p s t trigger now) (w_db w1))\<rparr>) Q"
      using w1 st by (subst ins [folded w1(1)]) (simp add: Let_def deploy_rest_def)
  qed
qed

lemma wp_deploy_locked:
  assumes ok: "db_ok (w_db w)"
  shows "wp (deploy_locked D p t trigger) w
    (\<lambda>r w'. w_locks w' = w_locks w \<and> deploy_post p t trigger (w_db w) r (w_db w'))"
proof (cases "GetState (w_db w) (p_ID p)")
  case (Inl err)
  then show ?thesis by (simp add: deploy_locked_def deploy_post_def)
next
  case (Inr s)
  let ?st = "s\<lparr>st_Status := StatusDeploying, st_DesiredDigests := t\<rparr>"
  have id: "st_ProjectID s = p_ID p" using GetState_ok [OF ok Inr] by simp
  have fin: "ended (p_ID p) ?st t trigger (w_db w) (w_locks w) r w' \<Longrightarrow>
      w_locks w' = w_locks w \<and> deploy_post p t trigger (w_db w) r (w_db w')" for r w'
    unfolding ended_def deploy_outcome_of by (auto simp: deploy_post_def Inr in_progress_def)
  show ?thesis
  proof (rule wp_deploy_locked_start [OF ok Inr refl])
    fix fin1 w1
    assume "in_progress (p_ID p) (w_db w) (w_locks w) (stored_state ?st) fin1 w1"
      and "record_of (p_ID p) s t trigger fin1"
    then show "wp (deploy_rest D p t ?st (Suc (db_deploy_seq (w_db w)))) w1
        (\<lambda>r w'. w_locks w' = w_locks w \<and> deploy_post p t trigger (w_db w) r (w_db w'))"
      unfolding deploy_rest_def wp_bind
      by (elim step_own [OF _ leaves_emits(4)] step_own [OF _ leaves_deploy_and_check])
         (rule wp_mono [where P = "ended (p_ID p) ?st t trigger (w_db w) (w_locks w)"],
          auto simp: id record_of_def intro!: wp_deploy_failed wp_deploy_succeeded fin split: sum.splits)
  qed
qed

section \<open>What the runtime is asked to do\<close>

text \<open>
  What the code relies on of its environment here: the file system answers \<open>Stat\<close>, and the
  container runtime does not rewrite the stack's override file.
\<close>

definition stat_answers :: "Deployer \<Rightarrow> Project \<Rightarrow> bool" where
  "stat_answers D p \<longleftrightarrow>
     (\<forall>t. env_fs_error (dep_env D) t (p_StackPath p @ ''/compose.override.yaml'') = None)"

definition runtime_keeps_override :: "Deployer \<Rightarrow> Project \<Rightarrow> bool" where
  "runtime_keeps_override D p \<longleftrightarrow>
     (\<forall>t argv f. fs_contents (xo_FS (env_exec (dep_env D) t argv f)) (overridePath p) =
        fs_contents f (overridePath p))"

definition override_exists :: "Project \<Rightarrow> fs \<Rightarrow> bool" where
  "override_exists p f \<longleftrightarrow>
     (case fs_stat f (p_StackPath p @ ''/compose.override.yaml'') of StatFound n \<Rightarrow> True | _ \<Rightarrow> False)"

lemma override_exists_contents:
  assumes "fs_contents f (overridePath p) = Some c" "p_StackPath p \<noteq> ''''"
  shows "override_exists p f"
proof -
  have "Clean (p_StackPath p @ ''/compose.override.yaml'') = Clean (overridePath p)"
    using assms(2) by (simp add: overridePath_def Join2_def)
  then show ?thesis
    using assms(1) by (auto simp: override_exists_def fs_contents_def fs_stat_def Let_def
        split: option.splits)
qed

definition run_of :: "Deployer \<Rightarrow> Project \<Rightarrow> string list \<Rightarrow> fs \<Rightarrow> Action" where
  "run_of D p args f =
     ActRun (compose_args (dep_runtime D) (p_StackPath p) (override_exists p f) args) (p_StackPath p) f"

lemma wp_fileExists:
  assumes "stat_answers D p"
  shows "wp (fileExists (dep_env D) (p_StackPath p @ ''/compose.override.yaml'')) w Q =
    Q (override_exists p (w_fs w)) (w\<lparr>w_tick := Suc (w_tick w)\<rparr>)"
  using assms
  by (simp add: wp_def fileExists_def os_Stat_def io_tick_def io_gets_def stat_answers_def
      override_exists_def)

lemma wp_Pipe: "wp (os_Pipe e) w Q = Q (env_pipe e (w_tick w)) (w\<lparr>w_tick := Suc (w_tick w)\<rparr>)"
  by (simp add: wp_def os_Pipe_def io_tick_def)

lemma wp_exec_run:
  assumes "\<And>w'. w_trace w' = w_trace w @ [ActRun argv dir (w_fs w)] \<Longrightarrow>
      w_fs w' = (case xo_Start out of None \<Rightarrow> xo_FS out | Some err \<Rightarrow> w_fs w) \<Longrightarrow> Q out w'"
    and "out = env_exec e (w_tick w) argv (w_fs w)"
  shows "wp (exec_run e argv dir) w Q"
  using assms
  by (auto simp: wp_def exec_run_def io_tick_def io_gets_def io_trace_def Let_def split: option.splits)

text \<open>The files that some command of the runtime left.\<close>

definition left_by_runtime :: "Deployer \<Rightarrow> fs \<Rightarrow> fs \<Rightarrow> bool" where
  "left_by_runtime D f f' \<longleftrightarrow> (\<exists>t argv. f' = xo_FS (env_exec (dep_env D) t argv f))"

lemma left_by_runtimeI: "left_by_runtime D f (xo_FS (env_exec (dep_env D) t argv f))"
  unfolding left_by_runtime_def by blast

lemma wp_composeCmd_log:
  assumes "stat_answers D p"
  shows "wp (composeCmd_log D p args) w (\<lambda>r w'. r = Inr () \<longrightarrow>
    w_trace w' = w_trace w @ [run_of D p args (w_fs w)] \<and>
    left_by_runtime D (w_fs w) (w_fs w'))"
proof -
  have logs: "leaves w_trace (io_each (emit_log D p) ls)" "leaves w_fs (io_each (emit_log D p) ls)" for ls
    by (intro frame)+
  have "wp (io_each (emit_log D p) ls) w1 (\<lambda>a w2. w_trace w2 = w_trace w1 \<and> w_fs w2 = w_fs w1)" for ls w1
    using wp_leaves [OF logs(1)] wp_leaves [OF logs(2)] by (rule wp_conj)
  note logs' = wp_mono [OF this]
  show ?thesis
    unfolding composeCmd_log_def Let_def wp_bind
    apply (simp add: wp_fileExists [OF assms] wp_Pipe)
    apply (split option.split, simp add: wp_Pipe)
    apply (split option.split, clarsimp)
    apply (rule wp_exec_run [OF _ refl])
    apply (auto split: option.splits intro!: logs' left_by_runtimeI simp: run_of_def)
    done
qed

lemma adds_runHealthChecks [frame]: "adds no_run (runHealthChecks D p)"
  unfolding runHealthChecks_def service_check_def by (intro frame)

lemma leaves_trace_emits [frame]: "adds P (emit_step D p ty s r)" "adds P (emit_status D p ty st r)"
    "adds P (time_Now e)" "adds P (finish_deployment D i stat msg)" "adds P (db_write g)"
  by (auto intro!: extends_leaves frame simp: finish_deployment_def leaves_def db_write_def)

text \<open>The compose command of a step, whose announcements leave trace and files alone.\<close>

lemma wp_compose_step:
  assumes "stat_answers D p"
  shows "wp (compose_step D p s args) w (\<lambda>r w'. r = Inr () \<longrightarrow>
    w_trace w' = w_trace w @ [run_of D p args (w_fs w)] \<and>
    left_by_runtime D (w_fs w) (w_fs w'))"
proof -
  have ev: "wp (emit_step D p ty s r) w1 (\<lambda>a w2. w_trace w2 = w_trace w1 \<and> w_fs w2 = w_fs w1)"
    for ty s r w1
    using wp_leaves [OF leaves_emits(2)] wp_leaves [OF leaves_emits(3)] by (rule wp_conj)
  show ?thesis
    unfolding compose_step_def wp_bind
    by (rule wp_mono [OF ev], rule wp_mono [OF wp_composeCmd_log [OF assms]])
       (auto split: sum.splits intro!: wp_mono [OF ev] simp: wp_def [of "ret _"])
qed

text \<open>
  A successful \<open>executeDeploy\<close> pulls and then brings the stack up, both with an override file
  that pins the given digests.
\<close>

definition pinned :: "Project \<Rightarrow> smap \<Rightarrow> fs \<Rightarrow> bool" where
  "pinned p digests f \<longleftrightarrow>
     fs_contents f (overridePath p) = Some (generateDigestOverride (buildImageOverrides p digests))"

lemma wp_write_files_pinned:
  assumes "p_StackPath p \<noteq> ''''" "buildImageOverrides p t \<noteq> []"
  shows "wp (write_files D p (buildImageOverrides p t)) w (\<lambda>r w'. r = Inr () \<longrightarrow>
    pinned p t (w_fs w') \<and> w_trace w' = w_trace w)"
proof -
  have "wp (write_files D p (buildImageOverrides p t)) w (\<lambda>r w'. r = Inr () \<longrightarrow> pinned p t (w_fs w'))"
    unfolding write_files_def
    by (rule wp_mono [OF WriteComposeFiles_files [OF assms(1)]])
       (use assms(2) in \<open>auto simp: files_written_def pinned_def\<close>)
  from wp_also [OF this wp_leaves [OF leaves_write_files(3)]] show ?thesis
    by (rule wp_mono) simp
qed

lemma wp_executeDeploy:
  assumes "stat_answers D p" "runtime_keeps_override D p" "p_StackPath p \<noteq> ''''"
    "buildImageOverrides p t \<noteq> []"
  shows "wp (executeDeploy D p t) w (\<lambda>r w'. \<forall>x. r = Inr x \<longrightarrow>
    (\<exists>f1 f2. w_trace w' = w_trace w @ [run_of D p [''pull''] f1, run_of D p args_up f2] \<and>
       pinned p t f1 \<and> pinned p t f2))"
  unfolding executeDeploy_def
proof (rule wp_check_errI [OF wp_write_files_pinned [OF assms(3,4)]], rule wp_check_errI)
  fix w1 :: World
  assume w1: "pinned p t (w_fs w1) \<and> w_trace w1 = w_trace w"
  show "wp (compose_step D p ''pull'' [''pull'']) w1 (\<lambda>r w2. r = Inr () \<longrightarrow>
      (\<exists>f1. w_trace w2 = w_trace w @ [run_of D p [''pull''] f1] \<and> pinned p t f1 \<and> pinned p t (w_fs w2)))"
    by (rule wp_mono [OF wp_compose_step [OF assms(1)]])
       (use w1 assms(2) in \<open>auto simp: pinned_def runtime_keeps_override_def left_by_runtime_def\<close>)
next
  fix w2 :: World
  assume "\<exists>f1. w_trace w2 = w_trace w @ [run_of D p [''pull''] f1] \<and> pinned p t f1 \<and> pinned p t (w_fs w2)"
  then show "wp (compose_step D p ''up'' args_up) w2 (\<lambda>r w3. \<forall>x. r = Inr x \<longrightarrow>
      (\<exists>f1 f2. w_trace w3 = w_trace w @ [run_of D p [''pull''] f1, run_of D p args_up f2] \<and>
       pinned p t f1 \<and> pinned p t f2))"
    by (intro wp_mono [OF wp_compose_step [OF assms(1)]]) auto
qed

lemma wp_executeRollback:
  assumes "stat_answers D p" "p_StackPath p \<noteq> ''''" "buildImageOverrides p t \<noteq> []"
  shows "wp (executeRollback D p t) w (\<lambda>r w'. \<forall>x. r = Inr x \<longrightarrow>
    (\<exists>f tr. w_trace w' = w_trace w @ run_of D p args_up f # tr \<and> pinned p t f \<and> list_all no_run tr))"
proof (cases "t = []")
  case True
  then show ?thesis by (simp add: executeRollback_def)
next
  case False
  have hc: "adds no_run (check_err ''health check after rollback: '' (runHealthChecks D p) (ret (Inr ())))"
    by (intro frame)
  have "wp (check_err ''write rollback compose: '' (write_files D p (buildImageOverrides p t))
        (check_err ''compose up rollback: '' (composeCmd_log D p args_up)
          (check_err ''health check after rollback: '' (runHealthChecks D p) (ret (Inr ()))))) w
      (\<lambda>r w'. \<forall>x. r = Inr x \<longrightarrow>
        (\<exists>f tr. w_trace w' = w_trace w @ run_of D p args_up f # tr \<and> pinned p t f \<and> list_all no_run tr))"
  proof (rule wp_check_errI [OF wp_write_files_pinned [OF assms(2,3)]], rule wp_check_errI)
    fix w1 :: World
    assume w1: "pinned p t (w_fs w1) \<and> w_trace w1 = w_trace w"
    show "wp (composeCmd_log D p args_up) w1 (\<lambda>r w2. r = Inr () \<longrightarrow>
        (\<exists>f. w_trace w2 = w_trace w @ [run_of D p args_up f] \<and> pinned p t f))"
      by (rule wp_mono [OF wp_composeCmd_log [OF assms(1)]]) (use w1 in auto)
  next
    fix w2 :: World
    assume "\<exists>f. w_trace w2 = w_trace w @ [run_of D p args_up f] \<and> pinned p t f"
    then show "wp (check_err ''health check after rollback: '' (runHealthChecks D p) (ret (Inr ()))) w2
        (\<lambda>r w3. \<forall>x. r = Inr x \<longrightarrow>
          (\<exists>f tr. w_trace w3 = w_trace w @ run_of D p args_up f # tr \<and> pinned p t f \<and> list_all no_run tr))"
      by (intro wp_mono [OF wp_adds [OF hc]]) auto
  qed
  with False show ?thesis by (simp add: executeRollback_def)
qed

text \<open>The commands of a deployment that succeeded: pull, up, then health checks only.\<close>

definition brought_up :: "Deployer \<Rightarrow> Project \<Rightarrow> smap \<Rightarrow> World \<Rightarrow> World \<Rightarrow> bool" where
  "brought_up D p t w w' \<longleftrightarrow>
     (\<exists>f1 f2 tr. w_trace w' = w_trace w @ run_of D p [''pull''] f1 # run_of D p args_up f2 # tr \<and>
        pinned p t f1 \<and> pinned p t f2 \<and> list_all no_run tr)"

text \<open>The last command was an up with an override file that pins \<open>t\<close>.\<close>

definition last_up :: "Deployer \<Rightarrow> Project \<Rightarrow> smap \<Rightarrow> World \<Rightarrow> bool" where
  "last_up D p t w \<longleftrightarrow>
     (\<exists>pre f tr. w_trace w = pre @ run_of D p args_up f # tr \<and> pinned p t f \<and> list_all no_run tr)"

lemma brought_upI:
  "w_trace w' = w_trace w @ run_of D p [''pull''] f1 # run_of D p args_up f2 # tr \<Longrightarrow>
   pinned p t f1 \<Longrightarrow> pinned p t f2 \<Longrightarrow> list_all no_run tr \<Longrightarrow> brought_up D p t w w'"
  unfolding brought_up_def by blast

lemma last_upI:
  "w_trace w = pre @ run_of D p args_up f # tr \<Longrightarrow> pinned p t f \<Longrightarrow> list_all no_run tr \<Longrightarrow>
   last_up D p t w"
  unfolding last_up_def by blast

lemma brought_up_adds:
  assumes "adds no_run m" "brought_up D p t w0 w"
  shows "wp m w (\<lambda>a w'. brought_up D p t w0 w')"
proof (rule wp_mono [OF wp_adds [OF assms(1)]])
  fix w' :: World
  obtain f1 f2 tr where o: "w_trace w = w_trace w0 @ run_of D p [''pull''] f1 # run_of D p args_up f2 # tr"
      "pinned p t f1" "pinned p t f2" "list_all no_run tr"
    using assms(2) by (auto simp: brought_up_def)
  assume "\<exists>tr. w_trace w' = w_trace w @ tr \<and> list_all no_run tr"
  then obtain tr' where "w_trace w' = w_trace w @ tr'" "list_all no_run tr'" by blast
  with o show "brought_up D p t w0 w'"
    by (intro brought_upI [of w' w0 D p f1 f2 "tr @ tr'"]) simp_all
qed

lemma last_up_adds:
  assumes "adds no_run m" "last_up D p t w"
  shows "wp m w (\<lambda>a w'. last_up D p t w')"
proof (rule wp_mono [OF wp_adds [OF assms(1)]])
  fix w' :: World
  obtain pre f tr where o: "w_trace w = pre @ run_of D p args_up f # tr" "pinned p t f"
      "list_all no_run tr"
    using assms(2) by (auto simp: last_up_def)
  assume "\<exists>tr. w_trace w' = w_trace w @ tr \<and> list_all no_run tr"
  then obtain tr' where "w_trace w' = w_trace w @ tr'" "list_all no_run tr'" by blast
  with o show "last_up D p t w'" by (intro last_upI [of w' pre D p f "tr @ tr'"]) simp_all
qed

lemma wp_deploy_and_check:
  assumes "stat_answers D p" "runtime_keeps_override D p" "p_StackPath p \<noteq> ''''"
    "buildImageOverrides p t \<noteq> []"
  shows "wp (deploy_and_check D p t) w (\<lambda>r w'. \<forall>x. r = Inr x \<longrightarrow> brought_up D p t w w')"
  unfolding deploy_and_check_def
proof (rule wp_check_errI [where P = "brought_up D p t w"])
  show "wp (executeDeploy D p t) w (\<lambda>r w'. r = Inr () \<longrightarrow> brought_up D p t w w')"
    by (rule wp_mono [OF wp_executeDeploy [OF assms]])
       (auto intro!: brought_upI [where tr = "[]"])
next
  fix w1 :: World
  assume b: "brought_up D p t w w1"
  have "adds no_run (do {
       emit_step D p EventStepStart ''health_check'' None;
       r \<leftarrow> runHealthChecks D p;
       emit_step D p EventStepDone ''health_check'' (case r of Inl err \<Rightarrow> Some err | Inr u \<Rightarrow> None);
       ret r })"
    by (intro frame)
  from brought_up_adds [OF this b] show "wp (do {
       emit_step D p EventStepStart ''health_check'' None;
       r \<leftarrow> runHealthChecks D p;
       emit_step D p EventStepDone ''health_check'' (case r of Inl err \<Rightarrow> Some err | Inr u \<Rightarrow> None);
       ret r }) w1 (\<lambda>r w'. \<forall>x. r = Inr x \<longrightarrow> brought_up D p t w w')"
    by (rule wp_mono) simp
qed

lemma wp_deploy_failed_Inl: "wp (deploy_failed D p s n err) w (\<lambda>r w'. \<forall>x. r = Inr x \<longrightarrow> Q x w')"
  by (simp add: deploy_failed_def)

lemma wp_deploy_failed_up:
  assumes ip: "in_progress i db locks st0 fin w" "st_ProjectID s = i"
    and env: "stat_answers D p" "p_StackPath p \<noteq> ''''" "buildImageOverrides p (st_CurrentDigests s) \<noteq> []"
  shows "wp (deploy_failed D p s (Suc (db_deploy_seq db)) err) w (\<lambda>r w'.
    last_up D p (st_CurrentDigests s) w' \<or>
    (\<exists>st fin. in_progress i db locks st fin w' \<and> st_Status st = StatusFailed))"
  unfolding deploy_failed_def wp_bind wp_ret using ip(1)
proof (elim step_finish step_own [OF _ leaves_emits(1)], goal_cases)
  case (2 now w1 a w2)
  let ?P = "\<lambda>w'. last_up D p (st_CurrentDigests s) w' \<or>
    (\<exists>st fin. in_progress i db locks st fin w' \<and> st_Status st = StatusFailed)"
  have "wp (executeRollback D p (st_CurrentDigests s)) w2 (\<lambda>r w'.
      (r = Inr () \<longrightarrow> last_up D p (st_CurrentDigests s) w') \<and> (\<exists>st fin. in_progress i db locks st fin w'))"
    by (rule wp_conj, rule wp_mono [OF wp_executeRollback [OF env]], fastforce intro: last_upI,
        rule step_own [OF 2 leaves_executeRollback], blast)
  then show ?case
  proof (rule wp_mono)
    fix rb :: "unit result" and w3 :: World
    assume h: "(rb = Inr () \<longrightarrow> last_up D p (st_CurrentDigests s) w3) \<and>
      (\<exists>st fin. in_progress i db locks st fin w3)"
    let ?tail = "\<lambda>st. do {
       emit_status D p EventStateChange (st_Status st) None;
       now \<leftarrow> time_Now (dep_env D);
       db_write (UpdateState (st\<lparr>st_LastDeployAt := Some now\<rparr>));
       emit_status D p EventDeployDone (st_Status st) (Some err);
       ret (Inl err :: unit result)}"
    show "wp (case rb of
           Inl err' \<Rightarrow> do {
             emit_step D p EventStepDone ''rollback'' (Some err');
             ret (s\<lparr>st_Status := StatusFailed,
               st_LastError := ''deploy: '' @ err @ ''; rollback: '' @ err'\<rparr>) }
         | Inr u \<Rightarrow> do {
             emit_step D p EventStepDone ''rollback'' None;
             finish_deployment D (Suc (db_deploy_seq db)) DeployRolledBack err;
             ret (s\<lparr>st_Status := StatusRolledBack,
               st_LastError := ''deploy failed: '' @ err @ '' (rolled back)''\<rparr>) }) w3
       (\<lambda>st w'. wp (emit_status D p EventStateChange (st_Status st) None) w'
         (\<lambda>a w'. wp (time_Now (dep_env D)) w'
           (\<lambda>now w'. wp (db_write (UpdateState (st\<lparr>st_LastDeployAt := Some now\<rparr>))) w'
             (\<lambda>a w'. wp (emit_status D p EventDeployDone (st_Status st) (Some err)) w'
               (\<lambda>a w'. ?P w')))))"
    proof (cases rb)
      case (Inl err')
      from h obtain st fin where "in_progress i db locks st fin w3" by blast
      then show ?thesis unfolding Inl sum.case wp_bind wp_ret
        by (elim deploy_steps) (use ip(2) in \<open>auto simp: stored_state_def\<close>)
    next
      case (Inr u)
      with h have "last_up D p (st_CurrentDigests s) w3" by simp
      moreover have "adds no_run (do {
           emit_step D p EventStepDone ''rollback'' None;
           finish_deployment D (Suc (db_deploy_seq db)) DeployRolledBack err;
           ?tail (s\<lparr>st_Status := StatusRolledBack,
             st_LastError := ''deploy failed: '' @ err @ '' (rolled back)''\<rparr>) })"
        by (intro frame)
      ultimately show ?thesis unfolding Inr sum.case
        using last_up_adds by (fastforce elim!: wp_mono)
    qed
  qed
qed simp

lemma adds_deploy_succeeded [frame]: "adds no_run (deploy_succeeded D p s n t)"
  unfolding deploy_succeeded_def by (intro frame)

lemma wp_deploy_end_up:
  assumes "\<forall>x. r = Inr x \<longrightarrow> brought_up D p t w w1"
  shows "wp (case r of
       Inl deployErr \<Rightarrow> deploy_failed D p st n deployErr
     | Inr u \<Rightarrow> deploy_succeeded D p st n t) w1 (\<lambda>r w'. \<forall>x. r = Inr x \<longrightarrow> brought_up D p t w w')"
proof (cases r)
  case (Inl err)
  then show ?thesis by (simp only: sum.case wp_deploy_failed_Inl)
next
  case (Inr u)
  with assms have "brought_up D p t w w1" by simp
  from wp_always [OF brought_up_adds [OF adds_deploy_succeeded this]] show ?thesis
    unfolding Inr by (simp only: sum.case)
qed

lemma wp_deploy_locked_up:
  assumes ok: "db_ok (w_db w)"
    and env: "stat_answers D p" "runtime_keeps_override D p" "p_StackPath p \<noteq> ''''"
      "buildImageOverrides p t \<noteq> []"
  shows "wp (deploy_locked D p t trigger) w (\<lambda>r w'. \<forall>x. r = Inr x \<longrightarrow> brought_up D p t w w')"
proof (cases "GetState (w_db w) (p_ID p)")
  case (Inl err)
  then show ?thesis by (simp add: deploy_locked_def)
next
  case (Inr s)
  show ?thesis
  proof (rule wp_deploy_locked_start [OF ok Inr refl])
    let ?st = "s\<lparr>st_Status := StatusDeploying, st_DesiredDigests := t\<rparr>"
    let ?n = "Suc (db_deploy_seq (w_db w))"
    fix fin and w1 :: World
    assume tr: "w_trace w1 = w_trace w"
    have "wp (deploy_and_check D p t) w2 (\<lambda>r w'. \<forall>x. r = Inr x \<longrightarrow> brought_up D p t w w')"
      if "w_trace w2 = w_trace w1" for w2
      using wp_deploy_and_check [OF env, of w2] that tr by (simp add: brought_up_def)
    then show "wp (deploy_rest D p t ?st ?n) w1 (\<lambda>r w'. \<forall>x. r = Inr x \<longrightarrow> brought_up D p t w w')"
      unfolding deploy_rest_def wp_bind
      by (intro wp_leavesI [OF leaves_emits(5)]) (rule wp_mono, assumption, rule wp_deploy_end_up)
  qed
qed

text \<open>A deployment that ends rolled back: the last command brought the previous digests up.\<close>

lemma wp_deploy_locked_rolled_back:
  assumes ok: "db_ok (w_db w)" and s: "GetState (w_db w) (p_ID p) = Inr s"
    and env: "stat_answers D p" "p_StackPath p \<noteq> ''''"
      "buildImageOverrides p (st_CurrentDigests s) \<noteq> []"
  shows "wp (deploy_locked D p t trigger) w (\<lambda>r w'.
    last_up D p (st_CurrentDigests s) w' \<or>
    (\<exists>st fin. in_progress (p_ID p) (w_db w) (w_locks w) st fin w' \<and> st_Status st \<noteq> StatusRolledBack))"
    (is "wp _ w ?Q")
proof (rule wp_deploy_locked_start [OF ok s refl])
  let ?st = "s\<lparr>st_Status := StatusDeploying, st_DesiredDigests := t\<rparr>"
  fix fin w1
  assume ip: "in_progress (p_ID p) (w_db w) (w_locks w) (stored_state ?st) fin w1"
    and rc: "record_of (p_ID p) s t trigger fin"
  have id: "st_ProjectID ?st = p_ID p" using GetState_ok [OF ok s] by simp
  have "wp (deploy_failed D p ?st (Suc (db_deploy_seq (w_db w))) err) w2 ?Q"
    if "in_progress (p_ID p) (w_db w) (w_locks w) (stored_state ?st) fin w2" for err w2
    by (rule wp_mono [OF wp_deploy_failed_up [OF that id]]) (use env in auto)
  moreover have "wp (deploy_succeeded D p ?st (Suc (db_deploy_seq (w_db w))) t) w2 ?Q"
    if "in_progress (p_ID p) (w_db w) (w_locks w) (stored_state ?st) fin w2" for w2
    unfolding deploy_succeeded_def wp_bind wp_ret using that
    by (elim deploy_steps) (use id in \<open>auto simp: stored_state_def\<close>)
  ultimately have "wp (case r of
       Inl deployErr \<Rightarrow> deploy_failed D p ?st (Suc (db_deploy_seq (w_db w))) deployErr
     | Inr u \<Rightarrow> deploy_succeeded D p ?st (Suc (db_deploy_seq (w_db w))) t) w2 ?Q"
    if "in_progress (p_ID p) (w_db w) (w_locks w) (stored_state ?st) fin w2" for r w2
    using that by (cases r) (simp_all only: sum.case)
  then show "wp (deploy_rest D p t ?st (Suc (db_deploy_seq (w_db w)))) w1 ?Q"
    unfolding deploy_rest_def wp_bind using ip
    by (elim step_own [OF _ leaves_emits(4)] step_own [OF _ leaves_deploy_and_check])
qed

text \<open>When the rollback itself works, a failed deployment ends rolled back.\<close>

lemma leaves_finish [frame]: "leaves w_fs (finish_deployment D i status msg)"
  unfolding finish_deployment_def by (intro frame)

lemma wp_deploy_failed_rolled_back:
  assumes ip: "in_progress i db locks st0 fin w" "st_ProjectID s = i"
    and rb: "\<And>w'. w_fs w' = w_fs w \<Longrightarrow>
      wp (executeRollback D p (st_CurrentDigests s)) w' (\<lambda>r w''. r = Inr ())"
  shows "wp (deploy_failed D p s (Suc (db_deploy_seq db)) err) w (\<lambda>r w'.
    \<exists>st fin. in_progress i db locks st fin w' \<and> st_Status st = StatusRolledBack)"
proof -
  let ?ip = "\<lambda>w. \<exists>st fin. in_progress i db locks st fin w"
  have s1: "wp (finish_deployment D (Suc (db_deploy_seq db)) DeployFailed err) w
      (\<lambda>a w1. ?ip w1 \<and> w_fs w1 = w_fs w)"
    by (intro wp_conj wp_leaves frame, rule step_finish [OF ip(1) refl], blast)
  have s2: "wp (emit_step D p EventStepStart ''rollback'' None) w1 (\<lambda>a w2. ?ip w2 \<and> w_fs w2 = w_fs w)"
    if "?ip w1 \<and> w_fs w1 = w_fs w" for w1
    using that by (elim conjE exE) (rule wp_conj, erule step_own [OF _ leaves_emits(1)], blast,
      rule wp_leavesI [OF leaves_emits(3)], simp)
  have s3: "wp (executeRollback D p (st_CurrentDigests s)) w2 (\<lambda>r w3. r = Inr () \<and> ?ip w3)"
    if "?ip w2 \<and> w_fs w2 = w_fs w" for w2
    using that by (intro wp_conj rb) (auto intro: step_own [OF _ leaves_executeRollback])
  show ?thesis
    unfolding deploy_failed_def wp_bind wp_ret
    apply (rule wp_mono [OF s1], rule wp_mono [OF s2], assumption, rule wp_mono [OF s3], assumption)
    apply (elim conjE exE, simp only: sum.case wp_bind wp_ret)
    apply (erule deploy_steps)+
     apply simp
    apply (erule deploy_steps)+
     apply (simp add: ip(2))
    apply (erule deploy_steps)+
    apply (auto simp: stored_state_def)
    done
qed

end
