(* ===== verification/Deploy_Events.thy ===== *)
theory Deploy_Events
  imports Deploy_Correct
begin

text \<open>
  The events of a deployment, and the properties of \<open>Deploy\<close>, \<open>ManualRollback\<close>, \<open>Stop\<close> and
  \<open>Start\<close> as a caller sees them, lock included.
\<close>

section \<open>Events\<close>

definition about :: "Project \<Rightarrow> Event \<Rightarrow> bool" where
  "about p ev \<longleftrightarrow> ev_ProjectID ev = p_ID p"

lemma emits_publish: "P ev \<Longrightarrow> emits P (publish ev)"
  by (simp add: extends_def publish_def)

lemma emits_emit:
  assumes "\<And>t. P (ev\<lparr>ev_Timestamp := t\<rparr>)"
  shows "emits P (emit D ev)"
proof -
  have "P ev" using assms [of "ev_Timestamp ev"] by simp
  with assms show ?thesis
    unfolding emit_def by (auto intro!: extends_bind extends_leaves [OF leaves_time(2)] emits_publish)
qed

lemma emits_about [frame]:
    "emits (about p) (emit_step D p ty s r)" "emits (about p) (emit_status D p ty st r)"
    "emits (about p) (emit_log D p l)"
  by (auto simp: emit_step_def emit_status_def emit_log_def about_def mk_event_def intro!: emits_emit)

lemma emits_db [frame]: "emits P (db_read f)" "emits P (db_write g)" "emits P (db_exec h)"
    "emits P (time_Now e)" "emits P (finish_deployment D i st msg)"
  by (auto intro!: frame extends_leaves
      simp: finish_deployment_def leaves_def db_write_def db_exec_def split: prod.splits)

lemma emits_compose [frame]: "emits (about p) (composeCmd_log D p args)"
    "emits (about p) (compose_step D p s args)"
  unfolding composeCmd_log_def compose_step_def Let_def
  by (intro frame extends_leaves [of w_events])+

lemma emits_deploy [frame]: "emits (about p) (executeDeploy D p t)"
    "emits (about p) (executeRollback D p t)" "emits (about p) (deploy_and_check D p t)"
  unfolding executeDeploy_def executeRollback_def deploy_and_check_def
  by (intro frame extends_leaves [of w_events])+

text \<open>The closing event of a deployment with result \<open>r\<close>.\<close>

definition closes :: "Project \<Rightarrow> unit result \<Rightarrow> Event \<Rightarrow> bool" where
  "closes p r ev \<longleftrightarrow>
     ev_Type ev = EventDeployDone \<and> ev_ProjectID ev = p_ID p \<and>
     (case r of
        Inr x \<Rightarrow> ev_Status ev = ''running'' \<and> \<not> ev_Error ev
      | Inl err \<Rightarrow> ev_Status ev \<in> {''failed'', ''rolled_back''} \<and> ev_Error ev \<and> ev_Message ev = err)"

definition closed_by :: "Project \<Rightarrow> World \<Rightarrow> unit result \<Rightarrow> World \<Rightarrow> bool" where
  "closed_by p w r w' \<longleftrightarrow>
     (\<exists>es ev. w_events w' = w_events w @ es @ [ev] \<and> list_all (about p) es \<and> closes p r ev)"

definition so_far :: "Project \<Rightarrow> World \<Rightarrow> World \<Rightarrow> bool" where
  "so_far p w0 w \<longleftrightarrow> (\<exists>es. w_events w = w_events w0 @ es \<and> list_all (about p) es)"

lemma so_far_refl: "so_far p w w"
  by (simp add: so_far_def)

lemma so_far_step:
  assumes "emits (about p) m" "so_far p w0 w" "\<And>a w'. so_far p w0 w' \<Longrightarrow> Q a w'"
  shows "wp m w Q"
proof (rule wp_mono [OF wp_adds [OF assms(1)]])
  fix a and w' :: World
  assume "\<exists>tr. w_events w' = w_events w @ tr \<and> list_all (about p) tr"
  with assms(2) have "so_far p w0 w'" by (auto simp: so_far_def)
  then show "Q a w'" by (rule assms(3))
qed

lemma wp_emit:
  assumes "\<And>t w'. w_events w' = w_events w @ [ev\<lparr>ev_Timestamp := t\<rparr>] \<Longrightarrow> Q () w'"
  shows "wp (emit D ev) w Q"
  using assms [of _ "ev_Timestamp ev"] assms
  by (auto simp: emit_def wp_def publish_def time_Now_def io_tick_def)

lemma closing_event:
  assumes "so_far p w0 w"
    and "closes p r ((mk_event EventDeployDone (p_ID p))\<lparr>ev_Status := ProjectStatus_text st,
       ev_Error := err \<noteq> None, ev_Message := (case err of None \<Rightarrow> '''' | Some s \<Rightarrow> s)\<rparr>)"
  shows "wp (emit_status D p EventDeployDone st err) w (\<lambda>a w'. closed_by p w0 r w')"
proof -
  obtain es where es: "w_events w = w_events w0 @ es" "list_all (about p) es"
    using assms(1) by (auto simp: so_far_def)
  show ?thesis
    unfolding emit_status_def
  proof (rule wp_emit)
    fix t :: int and w' :: World
    let ?ev = "(mk_event EventDeployDone (p_ID p))\<lparr>ev_Status := ProjectStatus_text st,
       ev_Error := err \<noteq> None, ev_Message := (case err of None \<Rightarrow> '''' | Some s \<Rightarrow> s)\<rparr>"
    assume "w_events w' = w_events w @ [?ev\<lparr>ev_Timestamp := t\<rparr>]"
    moreover have "closes p r (?ev\<lparr>ev_Timestamp := t\<rparr>)"
      using assms(2) by (simp add: closes_def split: sum.splits)
    ultimately show "closed_by p w0 r w'"
      using es by (auto simp: closed_by_def)
  qed
qed

lemma closed_succeeded:
  assumes "so_far p w0 w"
  shows "wp (deploy_succeeded D p s n t) w (closed_by p w0)"
  unfolding deploy_succeeded_def wp_bind wp_ret using assms
  by - (rule so_far_step, rule emits_db, assumption, rule so_far_step, rule emits_db, assumption,
    rule so_far_step, rule emits_db, assumption, rule so_far_step, rule emits_about, assumption,
    erule closing_event, simp add: closes_def mk_event_def)

lemma closed_failed:
  assumes "so_far p w0 w"
  shows "wp (deploy_failed D p s n err) w (closed_by p w0)"
proof -
  let ?failed = "\<lambda>st. st_Status st \<in> {StatusFailed, StatusRolledBack}"
  have end_: "wp (do {
       emit_status D p EventStateChange (st_Status st) None;
       now \<leftarrow> time_Now (dep_env D);
       db_write (UpdateState (st\<lparr>st_LastDeployAt := Some now\<rparr>));
       emit_status D p EventDeployDone (st_Status st) (Some err);
       ret (Inl err)}) w1 (closed_by p w0)" if "so_far p w0 w1" "?failed st" for st w1
    unfolding wp_bind wp_ret using that(1)
    by - (rule so_far_step, rule emits_about, assumption, rule so_far_step, rule emits_db, assumption,
      rule so_far_step, rule emits_db, assumption, erule closing_event,
      use that(2) in \<open>auto simp: closes_def mk_event_def\<close>)
  have mid: "wp (case rb of
         Inl err' \<Rightarrow> do {
           emit_step D p EventStepDone ''rollback'' (Some err');
           ret (s\<lparr>st_Status := StatusFailed,
             st_LastError := ''deploy: '' @ err @ ''; rollback: '' @ err'\<rparr>) }
       | Inr u \<Rightarrow> do {
           emit_step D p EventStepDone ''rollback'' None;
           finish_deployment D n DeployRolledBack err;
           ret (s\<lparr>st_Status := StatusRolledBack,
             st_LastError := ''deploy failed: '' @ err @ '' (rolled back)''\<rparr>) }) w1
       (\<lambda>st w'. so_far p w0 w' \<and> ?failed st)" if "so_far p w0 w1" for rb :: "unit result" and w1
    using that by (cases rb; simp) (elim so_far_step [rotated]; auto intro!: frame)+
  show ?thesis
    unfolding deploy_failed_def wp_bind using assms
    by - (rule so_far_step, rule emits_db, assumption, rule so_far_step, rule emits_about, assumption,
      rule so_far_step, rule emits_deploy, assumption, rule wp_mono, erule mid,
      unfold wp_ret, erule conjE, rule end_ [unfolded wp_bind wp_ret], assumption, assumption)
qed

lemma wp_deploy_locked_events:
  assumes ok: "db_ok (w_db w)" and s: "GetState (w_db w) (p_ID p) = Inr s"
  shows "wp (deploy_locked D p t trigger) w (closed_by p w)"
proof (rule wp_deploy_locked_start [OF ok s refl])
  let ?st = "s\<lparr>st_Status := StatusDeploying, st_DesiredDigests := t\<rparr>"
  let ?n = "Suc (db_deploy_seq (w_db w))"
  fix fin and w1 :: World
  assume "w_events w1 = w_events w"
  then have "so_far p w w1" by (simp add: so_far_def)
  moreover have "wp (case r of
       Inl deployErr \<Rightarrow> deploy_failed D p ?st ?n deployErr
     | Inr u \<Rightarrow> deploy_succeeded D p ?st ?n t) w2 (closed_by p w)" if "so_far p w w2" for r w2
    using that by (cases r) (simp_all only: sum.case closed_failed closed_succeeded)
  ultimately show "wp (deploy_rest D p t ?st ?n) w1 (closed_by p w)"
    unfolding deploy_rest_def wp_bind
    by - (rule so_far_step, rule emits_about, assumption, rule so_far_step, rule emits_deploy, assumption)
qed

section \<open>Deployment under its lock\<close>

lemma wp_Deploy_free:
  assumes "p_ID p \<notin> set (w_locks w)"
    and "wp (deploy_locked D p t trigger) (w\<lparr>w_locks := p_ID p # w_locks w\<rparr>)
      (\<lambda>r w'. Q r (w'\<lparr>w_locks := remove1 (p_ID p) (w_locks w')\<rparr>))"
  shows "wp (Deploy D p t trigger) w Q"
  using assms by (simp add: Deploy_def wp_def TryLock_def Unlock_def split: prod.splits)

lemma Deploy_contract:
  assumes "db_ok (w_db w)" "p_ID p \<notin> set (w_locks w)"
    and "run_state (Deploy D p t trigger) w = (r, w')"
  shows "w_locks w' = w_locks w \<and> deploy_post p t trigger (w_db w) r (w_db w')"
proof -
  let ?w = "w\<lparr>w_locks := p_ID p # w_locks w\<rparr>"
  have "wp (deploy_locked D p t trigger) ?w
      (\<lambda>r w'. w_locks w' = w_locks ?w \<and> deploy_post p t trigger (w_db ?w) r (w_db w'))"
    using assms(1) by (intro wp_deploy_locked) simp
  then have "wp (Deploy D p t trigger) w
      (\<lambda>r w'. w_locks w' = w_locks w \<and> deploy_post p t trigger (w_db w) r (w_db w'))"
    by (intro wp_Deploy_free [OF assms(2)]) (auto elim: wp_mono)
  from wp_run [OF this assms(3)] show ?thesis .
qed

text \<open>
  Property C1. \<open>Deploy\<close> of a project whose lock is free, on a well-formed database: the lock is
  free again, and the database is as before but for one new state row and one new audit record
  with a fresh id, which name the old digests and the targets. On success the state row runs
  the targets, keeps the old digests for a rollback and has no error; on failure it still has
  the old digests and is failed or rolled back, as the record is. The record never stays in
  progress, and no row of another project changes. Without a state row nothing is written.
\<close>

theorem Deploy_transaction:
  assumes "db_ok (w_db w)" "p_ID p \<notin> set (w_locks w)"
    and "run_state (Deploy D p t trigger) w = (r, w')"
  shows "w_locks w' = w_locks w \<and> deploy_post p t trigger (w_db w) r (w_db w')"
  using assms by (rule Deploy_contract)

text \<open>
  While a deployment of a project holds its lock, a second one is refused with the
  error the API reports, and changes nothing: no record, no state, no event, no command.
\<close>

theorem Deploy_refused:
  assumes "p_ID p \<in> set (w_locks w)"
  shows "run_state (Deploy D p t trigger) w =
    (Inl (''project '' @ p_ID p @ '': deployment already in progress''), w)"
  using assms by (simp add: Deploy_def TryLock_def)


text \<open>
  Property C3. When a deployment ends in state \<open>rolled_back\<close>, the last command the runtime ran
  brought the stack up on an override file that pins the digests current before the deployment.
\<close>

theorem Deploy_rolled_back_runs_previous:
  assumes "db_ok (w_db w)" "p_ID p \<notin> set (w_locks w)"
    and "run_state (Deploy D p t trigger) w = (r, w')"
    and "GetState (w_db w) (p_ID p) = Inr s" "GetState (w_db w') (p_ID p) = Inr s'"
    and "st_Status s' = StatusRolledBack"
    and "stat_answers D p" "p_StackPath p \<noteq> ''''"
    and "buildImageOverrides p (st_CurrentDigests s) \<noteq> []"
  shows "last_up D p (st_CurrentDigests s) w'"
proof -
  let ?w = "w\<lparr>w_locks := p_ID p # w_locks w\<rparr>"
  let ?Q = "\<lambda>w'. last_up D p (st_CurrentDigests s) w' \<or>
    (\<exists>st fin. w_db w' = deploy_effect (p_ID p) st fin (w_db w) \<and> st_Status st \<noteq> StatusRolledBack)"
  have "wp (deploy_locked D p t trigger) ?w (\<lambda>r w'. ?Q w')"
    by (rule wp_mono [OF wp_deploy_locked_rolled_back [of ?w p s]])
       (use assms in \<open>auto simp: in_progress_def\<close>)
  then have "wp (Deploy D p t trigger) w (\<lambda>r w'. ?Q w')"
    by (intro wp_Deploy_free [OF assms(2)]) (auto elim!: wp_mono simp: last_up_def)
  from wp_run [OF this assms(3)] consider "last_up D p (st_CurrentDigests s) w'"
    | st fin where "w_db w' = deploy_effect (p_ID p) st fin (w_db w)" "st_Status st \<noteq> StatusRolledBack"
    by blast
  then show ?thesis
  proof cases
    case (2 st fin)
    have "map_of (db_states (w_db w)) (p_ID p) = Some s"
      using assms(4) by (simp add: GetState_def split: option.splits)
    then have "GetState (w_db w') (p_ID p) = Inr st"
      by (simp add: 2(1) GetState_def deploy_effect_def map_of_sql_update)
    with assms(5,6) 2(2) show ?thesis by simp
  qed
qed

text \<open>
  Every event of a deployment names its project, and the last one closes it:
  \<open>deploy_done\<close> with the final status, flagged as an error with the returned message exactly
  when the deployment failed.
\<close>

theorem Deploy_events:
  assumes "db_ok (w_db w)" "p_ID p \<notin> set (w_locks w)"
    and "run_state (Deploy D p t trigger) w = (r, w')"
    and "GetState (w_db w) (p_ID p) = Inr s"
  shows "closed_by p w r w'"
proof -
  let ?w = "w\<lparr>w_locks := p_ID p # w_locks w\<rparr>"
  have "wp (deploy_locked D p t trigger) ?w (closed_by p ?w)"
    using assms by (intro wp_deploy_locked_events) simp_all
  then have "wp (Deploy D p t trigger) w (closed_by p w)"
    by (intro wp_Deploy_free [OF assms(2)]) (auto elim!: wp_mono simp: closed_by_def)
  from wp_run [OF this assms(3)] show ?thesis .
qed

end
