(* ===== verification/Demo.thy ===== *)
theory Demo
  imports Deploy_Events
begin

text \<open>
  A small concrete installation, on which the properties are instantiated: one project with one
  polled service, a file system with its parent directory, a runtime and services that answer.
\<close>

definition demo_exec :: "fs \<Rightarrow> ExecOut" where
  "demo_exec f =
     \<lparr>xo_Start = None, xo_Stdout = '''', xo_Stderr = '''', xo_Order = [], xo_Combined = '''',
      xo_Wait = None, xo_Exited = True, xo_ExitCode = 0, xo_FS = f\<rparr>"

text \<open>Everything answers; \<open>pull\<close> works when \<open>ok\<close> holds, and every other command does.\<close>

definition demo_env :: "bool \<Rightarrow> Env" where
  "demo_env ok =
     \<lparr>env_now = (\<lambda>t. 1000000000 * (1 + int t)),
      env_exec = (\<lambda>t argv f. if \<not> ok \<and> ''pull'' \<in> set argv
        then (demo_exec f)\<lparr>xo_Wait := Some ''exit status 1''\<rparr> else demo_exec f),
      env_http = (\<lambda>t url. Inr 200), env_dial = (\<lambda>t a. None),
      env_fs_error = (\<lambda>t p. None), env_rand = (\<lambda>t. Inr ''0123456789ab''),
      env_done = (\<lambda>t. False), env_pipe = (\<lambda>t. None)\<rparr>"

definition demo_service :: ServiceConfig where
  "demo_service = zero_service\<lparr>svc_Name := ''web'', svc_RegistryImage := ''r/web'',
     svc_ImageTag := ''latest'', svc_Polled := True, svc_HealthType := HealthHTTP,
     svc_HealthTarget := ''http://h''\<rparr>"

definition demo_project :: Project where
  "demo_project = zero_project\<lparr>p_ID := ''app'', p_ConfigMode := ConfigModeForm,
     p_Services := [demo_service], p_StackPath := ''/s/app'', p_PollInterval := 60,
     p_Enabled := True, p_EnvVars := Some [(''K'', ''v'')]\<rparr>"

definition demo_deployer :: "bool \<Rightarrow> Deployer" where
  "demo_deployer ok =
     \<lparr>dep_env = demo_env ok, dep_yaml = (\<lambda>s. Inl ''no YAML''), dep_runtime = ''docker''\<rparr>"

definition demo_state :: ProjectState where
  "demo_state = (initial_state ''app'')\<lparr>st_CurrentDigests := [(''web'', ''sha256:old'')],
     st_Status := StatusRunning\<rparr>"

definition demo_db :: DB where
  "demo_db = empty_db\<lparr>
     db_projects := [(''app'', \<lparr>row_project = project_columns demo_project 0 0,
       row_env_vars = secretPrefix, row_secret_env_keys = JsonNull\<rparr>)],
     db_states := [(''app'', demo_state)]\<rparr>"

definition demo_world :: World where
  "demo_world = \<lparr>w_db = demo_db, w_fs = [(''/s'', DirNode)], w_locks = [], w_events = [],
     w_trace = [], w_tick = 0, w_backup_locks = []\<rparr>"

definition demo_targets :: smap where
  "demo_targets = [(''web'', ''sha256:new'')]"

lemma demo_db_ok: "db_ok demo_db"
  by (simp add: demo_db_def db_ok_defs empty_db_def rows_all_def table_ok_def table_keys_def
      project_columns_def demo_project_def zero_project_def demo_state_def initial_state_def
      isEncryptedSecret_def secretPrefix_def)

lemma demo_lock_free: "p_ID demo_project \<notin> set (w_locks demo_world)"
  by (simp add: demo_world_def)

section \<open>Runs\<close>

text \<open>The paths of the installation, and its files after each step of \<open>WriteComposeFiles\<close>.\<close>

lemma demo_paths:
  "Clean (composePath demo_project) = ''/s/app/compose.yaml''"
  "Clean (overridePath demo_project) = ''/s/app/compose.override.yaml''"
  "Clean (envPath demo_project) = ''/s/app/.env''"
  "DirOf ''/s/app/compose.yaml'' = ''/s/app''"
  "DirOf ''/s/app/compose.override.yaml'' = ''/s/app''"
  "DirOf ''/s/app/.env'' = ''/s/app''"
  "path_prefixes ''/s/app'' = [''/s/app'', ''/s'']"
  by code_simp+

text \<open>The stack directory is there, and none of the three files is a directory.\<close>

definition demo_fs_ok :: "fs \<Rightarrow> bool" where
  "demo_fs_ok f \<longleftrightarrow> map_of f ''/s'' = Some DirNode \<and> map_of f ''/s/app'' \<in> {None, Some DirNode} \<and>
     map_of f ''/s/app/compose.yaml'' \<noteq> Some DirNode \<and>
     map_of f ''/s/app/compose.override.yaml'' \<noteq> Some DirNode \<and>
     map_of f ''/s/app/.env'' \<noteq> Some DirNode"

definition demo_fs_dir :: "fs \<Rightarrow> bool" where
  "demo_fs_dir f \<longleftrightarrow> demo_fs_ok f \<and> map_of f ''/s/app'' = Some DirNode"

lemma demo_mkdir: "demo_fs_ok f \<Longrightarrow> \<exists>f'. fs_MkdirAll ''/s/app'' f = Inr f' \<and> demo_fs_dir f'"
  by (auto simp: fs_MkdirAll_def demo_paths is_file_def is_dir_def demo_fs_ok_def demo_fs_dir_def)

lemma demo_write:
  "demo_fs_dir f \<Longrightarrow> \<exists>f'. fs_WriteFile (composePath demo_project) c m f = Inr f' \<and> demo_fs_dir f'"
  "demo_fs_dir f \<Longrightarrow> \<exists>f'. fs_WriteFile (overridePath demo_project) c m f = Inr f' \<and> demo_fs_dir f'"
  "demo_fs_dir f \<Longrightarrow> \<exists>f'. fs_WriteFile (envPath demo_project) c m f = Inr f' \<and>
     demo_fs_dir f' \<and> map_of f' ''/s/app/.env'' \<noteq> None"
  "demo_fs_dir f \<Longrightarrow> map_of f ''/s/app/.env'' \<noteq> None \<Longrightarrow>
     \<exists>f'. fs_Chmod (envPath demo_project) m f = Inr f' \<and> demo_fs_dir f'"
  by (auto simp: fs_WriteFile_def fs_Chmod_def Let_def demo_paths is_dir_def demo_fs_dir_def
      demo_fs_ok_def split: option.splits Node.splits)

lemma fs_Remove_map:
  "fs_Remove p f = Inr f' \<Longrightarrow> map_of f' q = (if q = Clean p then None else map_of f q)"
  by (auto simp: fs_Remove_def Let_def map_of_filter_key split: option.splits if_splits)

lemma wp_demo_fs:
  assumes "\<exists>f'. g (w_fs w) = Inr f' \<and> P f'"
    and "\<And>w'. P (w_fs w') \<Longrightarrow> Q (Inr ()) w'"
  shows "wp (fs_op (demo_env ok) p g) w Q"
  using assms by (auto simp: fs_op_def wp_def io_tick_def demo_env_def)

text \<open>Writing the files, running compose and checking the service succeed.\<close>

lemma demo_content: "\<exists>c. compose_content yaml demo_project = Inr (c, [(''K'', ''v'')])"
  by (simp add: compose_content_def demo_project_def env_entries_def)

lemma demo_no_volumes: "concat (map svc_Volumes (p_Services demo_project)) = []"
  by (simp add: demo_project_def demo_service_def zero_service_def)

lemma wp_demo_check_err:
  assumes "wp m w (\<lambda>r w'. r = Inr () \<and> P w')"
    and "\<And>w'. P w' \<Longrightarrow> wp k w' (\<lambda>r w''. r = Inr () \<and> Q w'')"
  shows "wp (check_err s m k) w (\<lambda>r w'. r = Inr () \<and> Q w')"
  unfolding wp_check_err by (rule wp_mono [OF assms(1)]) (auto intro: assms(2))

lemma demo_write_files:
  assumes "demo_fs_ok (w_fs w)"
  shows "wp (write_files (demo_deployer ok) demo_project ov) w (\<lambda>r w'. r = Inr () \<and> demo_fs_ok (w_fs w'))"
proof -
  let ?e = "demo_env ok"
  let ?d = "\<lambda>w. demo_fs_dir (w_fs w)"
  obtain c where c: "compose_content (dep_yaml (demo_deployer ok)) demo_project = Inr (c, [(''K'', ''v'')])"
    using demo_content by blast
  have sp: "p_StackPath demo_project = ''/s/app''" by (simp add: demo_project_def)
  have s1: "wp (os_MkdirAll ?e (p_StackPath demo_project)) w (\<lambda>r w'. r = Inr () \<and> ?d w')"
    unfolding os_MkdirAll_def sp using assms demo_mkdir by (intro wp_demo_fs) auto
  have s2: "wp (os_WriteFile ?e (composePath demo_project) c 420) w' (\<lambda>r w'. r = Inr () \<and> ?d w')"
    if "?d w'" for w'
    unfolding os_WriteFile_def using demo_write(1) [OF that] by (rule wp_demo_fs) simp
  have s3: "wp (write_override ?e demo_project ov) w' (\<lambda>r w'. r = Inr () \<and> ?d w')" if "?d w'" for w'
  proof (cases "ov = []")
    case True
    have "wp (os_Remove ?e (overridePath demo_project)) w' (\<lambda>r w'. ?d w')"
      unfolding os_Remove_def
      by (rule wp_fs_op, use that in simp)
         (use that in \<open>auto simp: demo_fs_dir_def demo_fs_ok_def demo_paths fs_Remove_map\<close>)
    with True show ?thesis by (simp add: write_override_def)
  next
    case False
    then show ?thesis
      unfolding write_override_def os_WriteFile_def
      using that by (simp, intro wp_demo_fs [where P = demo_fs_dir] demo_write(2)) simp_all
  qed
  have s4: "wp (writeEnvFile ?e (envPath demo_project) [(''K'', ''v'')]) w' (\<lambda>r w'. r = Inr () \<and> ?d w')"
    if "?d w'" for w'
  proof -
    let ?P = "\<lambda>f. demo_fs_dir f \<and> map_of f ''/s/app/.env'' \<noteq> None"
    show ?thesis
      unfolding writeEnvFile_def os_WriteFile_def os_Chmod_def
    proof (rule wp_demo_check_err [where P = "\<lambda>w. ?P (w_fs w)"])
      show "wp (fs_op ?e (envPath demo_project)
          (fs_WriteFile (envPath demo_project) (env_text [(''K'', ''v'')]) 384)) w'
          (\<lambda>r w'. r = Inr () \<and> ?P (w_fs w'))"
        by (rule wp_demo_fs [where P = ?P]) (use demo_write(3) [OF that] in auto)
    next
      fix w1 :: World
      assume "?P (w_fs w1)"
      then show "wp (fs_op ?e (envPath demo_project) (fs_Chmod (envPath demo_project) 384)) w1
          (\<lambda>r w'. r = Inr () \<and> ?d w')"
        by (intro wp_demo_fs [where P = demo_fs_dir] demo_write(4)) auto
    qed
  qed
  show ?thesis
    unfolding write_files_def WriteComposeFiles_def c demo_no_volumes sum.case prod.case io_for.simps
    using s1 s2 s3 s4
    by (auto intro!: wp_demo_check_err [where P = ?d] simp: demo_deployer_def demo_fs_dir_def)
qed

lemma demo_relies: "stat_answers (demo_deployer ok) demo_project"
    "runtime_keeps_override (demo_deployer ok) demo_project" "p_StackPath demo_project \<noteq> ''''"
  by (simp_all add: stat_answers_def runtime_keeps_override_def demo_deployer_def demo_env_def
      demo_exec_def demo_project_def)

lemma demo_no_output: "scanDockerOutput '''' = []"
  by code_simp

lemma demo_compose:
  assumes "ok \<or> ''pull'' \<notin> set args"
  shows "wp (composeCmd_log (demo_deployer ok) demo_project args) w (\<lambda>r w'. r = Inr () \<and> w_fs w' = w_fs w)"
proof -
  have d [simp]: "dep_env (demo_deployer ok) = demo_env ok" "dep_runtime (demo_deployer ok) = ''docker''"
      "env_pipe (demo_env ok) t = None" for t
    by (simp_all add: demo_deployer_def demo_env_def)
  have ex: "env_exec (demo_env ok) t (compose_args ''docker'' p ov args) f = demo_exec f" for t p ov f
    using assms by (auto simp: demo_env_def compose_args_def)
  show ?thesis
    unfolding composeCmd_log_def Let_def wp_bind d
    apply (rule wp_leavesI [OF leaves_fileExists(4)], simp add: wp_Pipe)
    apply (rule wp_exec_run [OF _ refl])
    apply (simp add: ex demo_exec_def demo_no_output)
    done
qed

lemma demo_health: "wp (runHealthChecks (demo_deployer ok) demo_project) w (\<lambda>r w'. r = Inr ())"
  by (simp add: runHealthChecks_def service_check_def demo_project_def demo_service_def
      zero_project_def zero_service_def wp_check_err Check_def checkHTTP_def numeral_3_eq_3
      wp_http_Get demo_deployer_def demo_env_def status_ok_def)

lemma demo_step:
  assumes "ok \<or> ''pull'' \<notin> set args"
  shows "wp (compose_step (demo_deployer ok) demo_project s args) w (\<lambda>r w'. r = Inr ())"
  unfolding compose_step_def wp_bind
  by (intro wp_leavesI [OF leaves_emits(1)])
     (rule wp_mono [OF demo_compose [OF assms]], simp)

lemma demo_deploy_and_check:
  assumes "demo_fs_ok (w_fs w)"
  shows "wp (deploy_and_check (demo_deployer True) demo_project t) w (\<lambda>r w'. r = Inr ())"
proof -
  have "wp (executeDeploy (demo_deployer True) demo_project t) w (\<lambda>r w'. r = Inr () \<and> True)"
    unfolding executeDeploy_def
    by (rule wp_demo_check_err [OF wp_mono [OF demo_write_files [OF assms]]], simp,
        rule wp_demo_check_err [where P = "\<lambda>w. True"]) (simp_all add: demo_step)
  moreover have "wp (do {
       emit_step (demo_deployer True) demo_project EventStepStart ''health_check'' None;
       r \<leftarrow> runHealthChecks (demo_deployer True) demo_project;
       emit_step (demo_deployer True) demo_project EventStepDone ''health_check''
         (case r of Inl err \<Rightarrow> Some err | Inr u \<Rightarrow> None);
       ret r }) w1 (\<lambda>r w'. r = Inr () \<and> True)" for w1
    unfolding wp_bind
    by (intro wp_leavesI [OF leaves_emits(1)]) (rule wp_mono [OF demo_health], simp)
  ultimately have "wp (deploy_and_check (demo_deployer True) demo_project t) w (\<lambda>r w'. r = Inr () \<and> True)"
    unfolding deploy_and_check_def by (rule wp_demo_check_err)
  then show ?thesis by simp
qed

lemma demo_GetState: "GetState (w_db demo_world) (p_ID demo_project) = Inr demo_state"
  by (simp add: demo_world_def demo_db_def GetState_def demo_project_def)

lemma demo_world_ok: "db_ok (w_db demo_world)" "demo_fs_ok (w_fs demo_world)"
  by (simp_all add: demo_world_def demo_db_ok demo_fs_ok_def)

lemma demo_overrides: "buildImageOverrides demo_project demo_targets \<noteq> []"
    "buildImageOverrides demo_project (st_CurrentDigests demo_state) \<noteq> []"
  by code_simp+

lemma demo_deploy:
  assumes "db_ok (w_db w)" "p_ID demo_project \<notin> set (w_locks w)" "demo_fs_ok (w_fs w)"
    and "GetState (w_db w) (p_ID demo_project) = Inr s"
  shows "wp (Deploy (demo_deployer True) demo_project t trigger) w (\<lambda>r w'. r = Inr ())"
proof -
  let ?D = "demo_deployer True"
  let ?w = "w\<lparr>w_locks := p_ID demo_project # w_locks w\<rparr>"
  have "wp (deploy_locked ?D demo_project t trigger) ?w (\<lambda>r w'. r = Inr ())"
  proof (rule wp_deploy_locked_start)
    fix fin and w1 :: World
    let ?st = "s\<lparr>st_Status := StatusDeploying, st_DesiredDigests := t\<rparr>"
    assume "w_fs w1 = w_fs ?w"
    then have fs: "demo_fs_ok (w_fs w1)" using assms(3) by simp
    have dc: "wp (deploy_and_check ?D demo_project t) w2 (\<lambda>r w'. r = Inr ())"
      if "w_fs w2 = w_fs w1" for w2
      using fs that by (intro demo_deploy_and_check) simp
    show "wp (deploy_rest ?D demo_project t ?st (Suc (db_deploy_seq (w_db ?w)))) w1 (\<lambda>r w'. r = Inr ())"
      unfolding deploy_rest_def wp_bind
      by (rule wp_leavesI [OF leaves_emits(6)], rule wp_mono [OF dc], assumption)
         (simp add: deploy_succeeded_def)
  qed (use assms in simp_all)
  then show ?thesis by (rule wp_Deploy_free [OF assms(2)])
qed

lemma demo_success:
  "\<exists>w'. run_state (Deploy (demo_deployer True) demo_project demo_targets TriggerPoll) demo_world =
     (Inr (), w')"
  using wp_run [OF demo_deploy [OF demo_world_ok(1) demo_lock_free demo_world_ok(2) demo_GetState]]
  by (metis prod.exhaust)

text \<open>When \<open>pull\<close> fails, the deployment fails and its rollback succeeds.\<close>

lemma demo_pull_fails:
  "wp (composeCmd_log (demo_deployer False) demo_project [''pull'']) w
     (\<lambda>r w'. isl r \<and> w_fs w' = w_fs w)"
proof -
  have d [simp]: "dep_env (demo_deployer ok) = demo_env ok" "dep_runtime (demo_deployer ok) = ''docker''"
      "env_pipe (demo_env ok) t = None" for t ok
    by (simp_all add: demo_deployer_def demo_env_def)
  have ex: "env_exec (demo_env False) t (compose_args ''docker'' p ov [''pull'']) f =
      (demo_exec f)\<lparr>xo_Wait := Some ''exit status 1''\<rparr>" for t p ov f
    by (simp add: demo_env_def compose_args_def)
  show ?thesis
    unfolding composeCmd_log_def Let_def wp_bind d
    apply (rule wp_leavesI [OF leaves_fileExists(4)], simp add: wp_Pipe)
    apply (rule wp_exec_run [OF _ refl])
    apply (simp add: ex demo_exec_def demo_no_output)
    done
qed

lemma demo_deploy_fails:
  assumes "demo_fs_ok (w_fs w)"
  shows "wp (deploy_and_check (demo_deployer False) demo_project t) w
    (\<lambda>r w'. isl r \<and> demo_fs_ok (w_fs w'))"
proof -
  let ?D = "demo_deployer False"
  have step: "wp (compose_step ?D demo_project s [''pull'']) w1 (\<lambda>r w'. isl r \<and> demo_fs_ok (w_fs w'))"
    if "demo_fs_ok (w_fs w1)" for s w1
    unfolding compose_step_def wp_bind
  proof (rule wp_leavesI [OF leaves_emits(3)], rule wp_mono [OF demo_pull_fails])
    fix w2 w3 :: World and r :: "unit result"
    assume "w_fs w2 = w_fs w1" "isl r \<and> w_fs w3 = w_fs w2"
    then have "isl r" "demo_fs_ok (w_fs w3)" using that by simp_all
    then show "wp (case r of
        Inl err \<Rightarrow> do {
          emit_step ?D demo_project EventStepDone s (Some err);
          ret (Inl (''compose '' @ s @ '': '' @ err)) }
      | Inr u \<Rightarrow> do { emit_step ?D demo_project EventStepDone s None; ret (Inr ()) }) w3
        (\<lambda>r w'. isl r \<and> demo_fs_ok (w_fs w'))"
      by (cases r) (simp_all, rule wp_leavesI [OF leaves_emits(3)], simp)
  qed
  show ?thesis
    unfolding deploy_and_check_def executeDeploy_def wp_check_err
    by (rule wp_mono [OF demo_write_files [OF assms]], clarsimp simp: wp_check_err,
        rule wp_mono [OF step], assumption) (auto simp: isl_def)
qed

lemma demo_rollback:
  assumes "demo_fs_ok (w_fs w)"
  shows "wp (executeRollback (demo_deployer False) demo_project (st_CurrentDigests demo_state)) w
    (\<lambda>r w'. r = Inr ())"
proof -
  have "st_CurrentDigests demo_state \<noteq> []" by (simp add: demo_state_def)
  moreover have "wp (check_err ''health check after rollback: ''
      (runHealthChecks (demo_deployer False) demo_project) (ret (Inr ()))) w1 (\<lambda>r w'. r = Inr () \<and> True)" for w1
    by (rule wp_demo_check_err [where P = "\<lambda>w. True"]) (simp_all add: demo_health)
  ultimately have "wp (executeRollback (demo_deployer False) demo_project (st_CurrentDigests demo_state)) w
    (\<lambda>r w'. r = Inr () \<and> True)"
    unfolding executeRollback_def
    by (simp del: simp_thms(21)) (rule wp_demo_check_err [OF wp_mono [OF demo_write_files [OF assms]]], simp,
        rule wp_demo_check_err [OF wp_mono [OF demo_compose]], auto simp: args_up_def)
  then show ?thesis by simp
qed

lemma demo_rolled_back:
  "\<exists>r w' s'. run_state (Deploy (demo_deployer False) demo_project demo_targets TriggerPoll) demo_world =
     (r, w') \<and> GetState (w_db w') (p_ID demo_project) = Inr s' \<and> st_Status s' = StatusRolledBack"
proof -
  let ?D = "demo_deployer False"
  let ?w = "demo_world\<lparr>w_locks := p_ID demo_project # w_locks demo_world\<rparr>"
  let ?n = "Suc (db_deploy_seq (w_db ?w))"
  let ?Q = "\<lambda>w'. \<exists>st fin. in_progress (p_ID demo_project) (w_db ?w) (w_locks ?w) st fin w' \<and>
    st_Status st = StatusRolledBack"
  have "wp (deploy_locked ?D demo_project demo_targets TriggerPoll) ?w (\<lambda>r w'. ?Q w')"
  proof (rule wp_deploy_locked_start [OF _ _ refl])
    fix fin and w1 :: World
    let ?st = "demo_state\<lparr>st_Status := StatusDeploying, st_DesiredDigests := demo_targets\<rparr>"
    let ?ip = "in_progress (p_ID demo_project) (w_db ?w) (w_locks ?w) (stored_state ?st) fin"
    assume ip: "?ip w1" and fs: "w_fs w1 = w_fs ?w"
    have id: "st_ProjectID ?st = p_ID demo_project"
      by (simp add: demo_state_def initial_state_def demo_project_def)
    have fail: "wp (case r of
         Inl deployErr \<Rightarrow> deploy_failed ?D demo_project ?st ?n deployErr
       | Inr u \<Rightarrow> deploy_succeeded ?D demo_project ?st ?n demo_targets) w2 (\<lambda>r w'. ?Q w')"
      if h: "(isl r \<and> demo_fs_ok (w_fs w2)) \<and> ?ip w2" for r w2
    proof -
      obtain err where r: "r = Inl err" using h by (cases r) auto
      have "wp (executeRollback ?D demo_project (st_CurrentDigests ?st)) w3 (\<lambda>r w'. r = Inr ())"
        if "w_fs w3 = w_fs w2" for w3
        using demo_rollback [of w3] h that by simp
      with h id show ?thesis
        unfolding r sum.case by (intro wp_deploy_failed_rolled_back) auto
    qed
    have dc: "wp (deploy_and_check ?D demo_project demo_targets) w2
        (\<lambda>r w'. (isl r \<and> demo_fs_ok (w_fs w')) \<and> ?ip w')" if "w_fs w2 = w_fs w1 \<and> ?ip w2" for w2
      using that fs demo_world_ok
      by (intro wp_conj [OF demo_deploy_fails]) (auto intro: step_own [OF _ leaves_deploy_and_check])
    show "wp (deploy_rest ?D demo_project demo_targets ?st ?n) w1 (\<lambda>r w'. ?Q w')"
      unfolding deploy_rest_def wp_bind
      by (rule wp_mono [OF wp_conj [OF wp_leaves [OF leaves_emits(6)] step_own [OF ip leaves_emits(4)]]],
          assumption, rule wp_mono [OF dc], assumption, rule fail)
  qed (use demo_world_ok demo_GetState in simp_all)
  then have "wp (Deploy ?D demo_project demo_targets TriggerPoll) demo_world (\<lambda>r w'.
      \<exists>st fin. w_db w' = deploy_effect (p_ID demo_project) st fin (w_db demo_world) \<and>
        st_Status st = StatusRolledBack)"
    by (intro wp_Deploy_free [OF demo_lock_free]) (auto elim!: wp_mono simp: in_progress_def)
  then show ?thesis
    by (auto simp: wp_def GetState_def deploy_effect_def map_of_sql_update demo_world_def demo_db_def
        demo_project_def split: prod.splits)
qed

section \<open>Witnesses\<close>

lemma Deploy_transaction_witness:
  "\<exists>w'. run_state (Deploy (demo_deployer True) demo_project demo_targets TriggerPoll) demo_world =
       (Inr (), w') \<and> w_locks w' = [] \<and>
     deploy_post demo_project demo_targets TriggerPoll demo_db (Inr ()) (w_db w')"
  using demo_success Deploy_transaction [OF demo_world_ok(1) demo_lock_free]
  by (fastforce simp: demo_world_def)

lemma Deploy_refused_witness:
  "run_state (Deploy (demo_deployer True) demo_project demo_targets TriggerPoll)
     (demo_world\<lparr>w_locks := [''app'']\<rparr>) =
   (Inl ''project app: deployment already in progress'', demo_world\<lparr>w_locks := [''app'']\<rparr>)"
  using Deploy_refused [of demo_project "demo_world\<lparr>w_locks := [''app'']\<rparr>"]
  by (simp add: demo_project_def)


lemma Deploy_rolled_back_witness:
  "\<exists>r w' s'. run_state (Deploy (demo_deployer False) demo_project demo_targets TriggerPoll) demo_world =
       (r, w') \<and> GetState (w_db w') (p_ID demo_project) = Inr s' \<and> st_Status s' = StatusRolledBack \<and>
     last_up (demo_deployer False) demo_project (st_CurrentDigests demo_state) w'"
  using demo_rolled_back Deploy_rolled_back_runs_previous [OF demo_world_ok(1) demo_lock_free _
    demo_GetState _ _ demo_relies(1,3) demo_overrides(2)]
  by blast

lemma Deploy_events_witness:
  "\<exists>r w'. run_state (Deploy (demo_deployer False) demo_project demo_targets TriggerPoll) demo_world =
     (r, w') \<and> closed_by demo_project demo_world r w'"
  using Deploy_events [OF demo_world_ok(1) demo_lock_free _ demo_GetState] by (metis prod.exhaust)

end
