(* ===== verification/Registry.thy ===== *)
theory Registry
  imports World
begin

text \<open>
  \<open>internal/registry/registry.go\<close>: the digest of an image tag, asked of the registry through
  the container runtime, with its fallbacks; and the digest of a running container. The JSON
  reader used for multi-platform manifests is the parameter \<open>rg_entries\<close>.
\<close>

section \<open>Reading the runtime's output\<close>

record ManifestEntry =
  me_Digest :: string
  me_Architecture :: string
  me_OS :: string

record Registry =
  rg_env :: Env
  rg_entries :: "string \<Rightarrow> ManifestEntry list option"

definition dquote :: string where
  "dquote = [CHR 0x22]"

definition digest_of_line :: "string \<Rightarrow> string option" where
  "digest_of_line l =
     (let line = TrimSpace l in
      if Contains line (dquote @ ''Digest'' @ dquote) \<or> Contains line (dquote @ ''digest'' @ dquote)
      then (case SplitN 3 CHR '':'' line of
         [a, b, c] \<Rightarrow>
           (let digest = strings_Trim (TrimSpace (b @ '':'' @ c)) (dquote @ '','')
            in if HasPrefix digest ''sha256:'' then Some digest else None)
       | _ \<Rightarrow> None)
      else None)"

fun first_some :: "('a \<Rightarrow> 'b option) \<Rightarrow> 'a list \<Rightarrow> 'b option" where
  "first_some f [] = None"
| "first_some f (x # xs) = (case f x of None \<Rightarrow> first_some f xs | Some y \<Rightarrow> Some y)"

definition parseDigestFromManifest :: "string \<Rightarrow> string" where
  "parseDigestFromManifest output =
     (case first_some digest_of_line (split_on (CHR 0x0A) output) of None \<Rightarrow> '''' | Some d \<Rightarrow> d)"

definition entry_digest :: "string \<Rightarrow> string \<Rightarrow> ManifestEntry \<Rightarrow> string option" where
  "entry_digest wantOS wantArch me =
     (if EqualFold (me_OS me) wantOS \<and> EqualFold (me_Architecture me) wantArch \<and> me_Digest me \<noteq> ''''
      then Some (me_Digest me) else None)"

definition parseDigestForPlatform :: "Registry \<Rightarrow> string \<Rightarrow> string \<Rightarrow> string" where
  "parseDigestForPlatform R output platform =
     (case SplitN 2 CHR ''/'' platform of
        [wantOS, wantArch] \<Rightarrow>
          (case rg_entries R output of
             None \<Rightarrow> ''''
           | Some entries \<Rightarrow>
               (case first_some (entry_digest wantOS wantArch) entries of None \<Rightarrow> '''' | Some d \<Rightarrow> d))
      | _ \<Rightarrow> '''')"

definition parseDigestFromRaw :: "string \<Rightarrow> string" where
  "parseDigestFromRaw output = ''''"

definition extractStackName :: "string \<Rightarrow> string" where
  "extractStackName stackPath = last (split_on CHR ''/'' (TrimRight stackPath ''/''))"

section \<open>Commands\<close>

text \<open>The output and the error of a command.\<close>

definition runCmd :: "Registry \<Rightarrow> string \<Rightarrow> string list \<Rightarrow> (string \<times> error option) io" where
  "runCmd R name args = do {
     out \<leftarrow> exec_run (rg_env R) (name # args) '''';
     ret (xo_Combined out,
       case xo_error out of
         None \<Rightarrow> None
       | Some err \<Rightarrow> Some (name @ '' '' @ strings_Join args '' '' @ '': '' @ err @ '': '' @ xo_Combined out))
   }"

definition pull_and_inspect :: "Registry \<Rightarrow> string \<Rightarrow> string \<Rightarrow> string \<Rightarrow> string result io" where
  "pull_and_inspect R runtime ref platform = do {
     pulled \<leftarrow> runCmd R runtime
       ([''pull''] @ (if platform \<noteq> '''' then [''--platform'', platform] else []) @ [ref]);
     case snd pulled of
       Some err \<Rightarrow> ret (Inl (''pull '' @ ref @ '': '' @ err))
     | None \<Rightarrow> do {
         insp \<leftarrow> runCmd R runtime [''inspect'', ''--format'', ''{{index .RepoDigests 0}}'', ref];
         case snd insp of
           Some err \<Rightarrow> ret (Inl (''inspect '' @ ref @ '': '' @ err))
         | None \<Rightarrow>
             (case SplitN 2 CHR ''@'' (TrimSpace (fst insp)) of
                [repo, digest] \<Rightarrow> ret (Inr digest)
              | _ \<Rightarrow> ret (Inl (''could not parse digest from: '' @ fst insp)))
       }
   }"

definition raw_fallback :: "Registry \<Rightarrow> string \<Rightarrow> string \<Rightarrow> string \<Rightarrow> string result io" where
  "raw_fallback R runtime ref platform =
     (if runtime = ''docker'' then do {
        raw \<leftarrow> runCmd R runtime [''buildx'', ''imagetools'', ''inspect'', ''--raw'', ref];
        (if snd raw = None \<and> parseDigestFromRaw (fst raw) \<noteq> ''''
         then ret (Inr (parseDigestFromRaw (fst raw)))
         else pull_and_inspect R runtime ref platform)
      }
      else pull_and_inspect R runtime ref platform)"

text \<open>The digest read from the manifest: that of the platform if asked and found, else the first.\<close>

definition manifest_digest :: "Registry \<Rightarrow> string \<Rightarrow> string \<Rightarrow> string" where
  "manifest_digest R out platform =
     (if platform \<noteq> '''' \<and> parseDigestForPlatform R out platform \<noteq> ''''
      then parseDigestForPlatform R out platform
      else parseDigestFromManifest out)"

definition GetRemoteDigest :: "Registry \<Rightarrow> string \<Rightarrow> string \<Rightarrow> string \<Rightarrow> string \<Rightarrow> string result io" where
  "GetRemoteDigest R runtime img tag platform = do {
     let ref = img @ '':'' @ tag;
     m \<leftarrow> runCmd R runtime [''manifest'', ''inspect'', ''--verbose'', ref];
     (if snd m = None \<and> manifest_digest R (fst m) platform \<noteq> ''''
      then ret (Inr (manifest_digest R (fst m) platform))
      else raw_fallback R runtime ref platform)
   }"

definition GetLocalDigest :: "Registry \<Rightarrow> string \<Rightarrow> string \<Rightarrow> string \<Rightarrow> string result io" where
  "GetLocalDigest R runtime stackPath serviceName = do {
     a \<leftarrow> runCmd R runtime [''compose'', ''-f'', stackPath @ ''/compose.yaml'', ''-f'',
       stackPath @ ''/compose.override.yaml'', ''images'', ''--format'', ''json'', serviceName];
     err \<leftarrow> (case snd a of
       None \<Rightarrow> ret None
     | Some e \<Rightarrow> do {
         b \<leftarrow> runCmd R runtime [''compose'', ''-f'', stackPath @ ''/compose.yaml'', ''images'',
           ''--format'', ''json'', serviceName];
         ret (snd b)
       });
     case err of
       Some e \<Rightarrow> ret (Inl (''compose images: '' @ e))
     | None \<Rightarrow> do {
         let containerName = extractStackName stackPath @ ''-'' @ serviceName @ ''-1'';
         c \<leftarrow> runCmd R runtime [''inspect'', ''--format'', ''{{index .Image}}'', containerName];
         case snd c of
           Some e \<Rightarrow> ret (Inl (''inspect container '' @ containerName @ '': '' @ e))
         | None \<Rightarrow> ret (Inr (TrimSpace (fst c)))
       }
   }"

section \<open>Lemmas\<close>

lemma leaves_runCmd [frame]: "leaves own_state (runCmd R n a)" "leaves w_events (runCmd R n a)"
  by (auto simp: runCmd_def intro!: frame)

lemma leaves_pull_and_inspect [frame]: "leaves own_state (pull_and_inspect R n r p)"
    "leaves w_events (pull_and_inspect R n r p)"
  unfolding pull_and_inspect_def by (auto intro!: frame split: list.splits)+

lemma leaves_GetRemoteDigest [frame]: "leaves own_state (GetRemoteDigest R n i t p)"
    "leaves w_events (GetRemoteDigest R n i t p)"
  unfolding GetRemoteDigest_def raw_fallback_def Let_def by (intro frame)+

lemma leaves_GetLocalDigest [frame]: "leaves own_state (GetLocalDigest R n s v)"
    "leaves w_events (GetLocalDigest R n s v)"
  unfolding GetLocalDigest_def Let_def by (intro frame)+

lemma first_some_Some: "first_some f xs = Some y \<Longrightarrow> \<exists>x \<in> set xs. f x = Some y"
  by (induction xs) (auto split: option.splits)

lemma first_some_skip: "list_all (\<lambda>x. f x = None) xs \<Longrightarrow> first_some f (xs @ ys) = first_some f ys"
  by (induction xs) auto

lemma digest_of_line_sha: "digest_of_line l = Some d \<Longrightarrow> HasPrefix d ''sha256:''"
  by (auto simp: digest_of_line_def Let_def split: if_splits list.splits)

lemma parseDigestFromManifest_sha:
  "parseDigestFromManifest out = '''' \<or> HasPrefix (parseDigestFromManifest out) ''sha256:''"
  by (auto simp: parseDigestFromManifest_def split: option.splits dest!: first_some_Some digest_of_line_sha)

text \<open>The line of a manifest that carries a digest.\<close>

definition digest_line :: "string \<Rightarrow> string \<Rightarrow> string \<Rightarrow> string" where
  "digest_line ind hex rest = ind @ dquote @ ''digest'' @ dquote @ '': '' @ dquote @ ''sha256:'' @ hex @ dquote @ rest"

definition hex_digest :: "string \<Rightarrow> bool" where
  "hex_digest hex \<longleftrightarrow> hex \<noteq> '''' \<and> list_all (\<lambda>c. is_digit c \<or> CHR ''a'' \<le> c \<and> c \<le> CHR ''f'') hex"

definition blank :: "string \<Rightarrow> bool" where
  "blank s \<longleftrightarrow> list_all (\<lambda>c. c = CHR '' '' \<or> c = CHR 0x09) s"

lemma hex_digest_chars:
  assumes "hex_digest hex" "c \<in> set hex"
  shows "c \<noteq> CHR '':''" "c \<noteq> CHR 0x22" "c \<noteq> CHR '',''" "c \<noteq> CHR 0x0A"
  using assms by (auto simp: hex_digest_def list_all_iff is_digit_def less_eq_char_def)

lemma Contains_append: "Contains (a @ sub @ b) sub"
proof (induction a)
  case Nil
  have "HasPrefix (sub @ b) sub" by simp
  then show ?case by (cases "sub @ b") (auto simp del: HasPrefix_append)
next
  case (Cons c a)
  then show ?case by simp
qed

lemma trim_quotes:
  assumes "hex_digest hex" "rest = '''' \<or> rest = '',''"
  shows "strings_Trim (dquote @ ''sha256:'' @ hex @ dquote @ rest) (dquote @ '','') = ''sha256:'' @ hex"
proof -
  obtain u d where hex: "hex = u @ [d]" using assms(1) by (cases hex rule: rev_cases) (auto simp: hex_digest_def)
  have d: "d \<noteq> CHR 0x22" "d \<noteq> CHR '',''"
    using hex_digest_chars [OF assms(1), of d] hex by auto
  show ?thesis
    using d assms(2) by (auto simp: strings_Trim_def trim_left_def trim_right_def dquote_def hex)
qed

lemma dropWhile_until: "c \<notin> set a \<Longrightarrow> dropWhile (\<lambda>x. x \<noteq> c) (a @ c # b) = c # b"
  by (induction a) auto

lemma takeWhile_until: "c \<notin> set a \<Longrightarrow> takeWhile (\<lambda>x. x \<noteq> c) (a @ c # b) = a"
  by (induction a) auto

lemma digest_of_digest_line:
  assumes "hex_digest hex" "rest = '''' \<or> rest = '',''" "blank ind"
  shows "digest_of_line (digest_line ind hex rest) = Some (''sha256:'' @ hex)"
proof -
  let ?key = "dquote @ ''digest'' @ dquote"
  let ?b = "'' '' @ dquote @ ''sha256''"
  let ?c = "hex @ dquote @ rest"
  let ?line = "?key @ '':'' @ ?b @ '':'' @ ?c"
  have last: "last ?line = CHR 0x22 \<or> last ?line = CHR '',''" and last': "last (dquote @ ''sha256:'' @ hex @ dquote @ rest) = last ?line"
    using assms(2) by (auto simp: dquote_def)
  have g: "graphic (CHR 0x22)" "graphic (CHR '','')" by (simp_all add: graphic_def less_eq_char_def)
  have trim: "TrimSpace ?line = ?line"
    by (rule TrimSpace_graphic) (use last g in \<open>auto simp: dquote_def\<close>)
  have eq: "digest_line ind hex rest = ind @ ?line" by (simp add: digest_line_def)
  have line: "TrimSpace (digest_line ind hex rest) = ?line"
    unfolding eq using TrimSpace_indent [of ind ?line] assms(3) trim by (simp add: blank_def)
  have "SplitN 3 CHR '':'' ?line = [?key, ?b, ?c]"
    by (simp add: numeral_3_eq_3 dquote_def)
  moreover have "Contains ?line ?key"
    using Contains_append [of "''''" ?key] by simp
  moreover have "TrimSpace (?b @ '':'' @ ?c) = dquote @ ''sha256:'' @ hex @ dquote @ rest"
  proof -
    have "TrimSpace ('' '' @ dquote @ ''sha256:'' @ hex @ dquote @ rest) =
        TrimSpace (dquote @ ''sha256:'' @ hex @ dquote @ rest)"
      by (rule TrimSpace_indent) simp
    also have "\<dots> = dquote @ ''sha256:'' @ hex @ dquote @ rest"
      by (rule TrimSpace_graphic) (use last last' g in \<open>auto simp: dquote_def\<close>)
    finally show ?thesis by simp
  qed
  ultimately show ?thesis
    using line trim_quotes [OF assms(1,2)] by (simp add: digest_of_line_def Let_def)
qed

lemma blank_chars:
  assumes "blank s"
  shows "CHR 0x0A \<notin> set s"
proof
  assume "CHR 0x0A \<in> set s"
  with assms have "CHR 0x0A = CHR '' '' \<or> CHR 0x0A = CHR 0x09"
    unfolding blank_def list_all_iff by (rule bspec)
  then show False by simp
qed

text \<open>
  \<open>parseDigestFromManifest\<close> returns the digest of the first line of the runtime's
  output that carries one, whatever its indentation and trailing comma.
\<close>

theorem manifest_first_digest:
  assumes "hex_digest hex" "rest = '''' \<or> rest = '',''" "blank ind"
    and "list_all (\<lambda>l. CHR 0x0A \<notin> set l \<and> digest_of_line l = None) pre"
    and "list_all (\<lambda>l. CHR 0x0A \<notin> set l) post"
  shows "parseDigestFromManifest (strings_Join (pre @ digest_line ind hex rest # post) [CHR 0x0A]) =
    ''sha256:'' @ hex"
proof -
  let ?ls = "pre @ digest_line ind hex rest # post"
  have "CHR 0x0A \<notin> set hex" using hex_digest_chars(4) [OF assms(1), of "CHR 0x0A"] by auto
  moreover have "CHR 0x0A \<notin> set ind" by (rule blank_chars [OF assms(3)])
  moreover have "CHR 0x0A \<notin> set rest" using assms(2) by auto
  ultimately have "CHR 0x0A \<notin> set (digest_line ind hex rest)"
    by (simp add: digest_line_def dquote_def)
  then have "split_on (CHR 0x0A) (strings_Join ?ls [CHR 0x0A]) = ?ls"
    using assms(4,5) by (intro split_on_join) (auto simp: list_all_iff)
  moreover have "first_some digest_of_line ?ls = Some (''sha256:'' @ hex)"
    using assms(4) digest_of_digest_line [OF assms(1-3)]
    by (simp add: first_some_skip list_all_iff)
  ultimately show ?thesis by (simp add: parseDigestFromManifest_def)
qed

lemma manifest_first_digest_witness:
  "parseDigestFromManifest (strings_Join ([''{''] @ digest_line ''  '' ''0af9'' '','' # [''}'']) [CHR 0x0A]) =
   ''sha256:'' @ ''0af9''"
  by (rule manifest_first_digest; code_simp)

end
