(* ===== verification/Scheduler.thy ===== *)
theory Scheduler
  imports Deploy_Events Registry
begin

text \<open>
  \<open>internal/scheduler/scheduler.go\<close>: the reconciliation loop. The scheduler sees the deployer and
  the registry through an interface (\<open>DeployerIface\<close>, \<open>DigestFunc\<close>), and so does the model: a
  \<open>Scheduler\<close> holds the two functions. The locales \<open>deployer_iface\<close> and \<open>digest_source\<close> state
  what the scheduler relies on; both are interpreted on the deployer and the registry.
\<close>

section \<open>Operations\<close>

record Scheduler =
  sch_env :: Env
  sch_codec :: Codec
  sch_runtime :: string
  sch_Deploy :: "Project \<Rightarrow> smap \<Rightarrow> DeployTrigger \<Rightarrow> unit result io"
  sch_Emit :: "Event \<Rightarrow> unit io"
  sch_digestFn :: "string \<Rightarrow> string \<Rightarrow> string \<Rightarrow> string \<Rightarrow> string result io"

definition svc_tag :: "ServiceConfig \<Rightarrow> string" where
  "svc_tag svc = (if svc_ImageTag svc = '''' then ''latest'' else svc_ImageTag svc)"

text \<open>
  The loop over the polled services: the error of the first one whose digest is not found, the
  state with the desired digests so far, and whether one differs from the current digest.
\<close>

fun poll_services ::
    "Scheduler \<Rightarrow> ProjectState \<Rightarrow> bool \<Rightarrow> ServiceConfig list \<Rightarrow>
     (error option \<times> ProjectState \<times> bool) io" where
  "poll_services S state changed [] = ret (None, state, changed)"
| "poll_services S state changed (svc # svcs) = do {
     r \<leftarrow> sch_digestFn S (sch_runtime S) (svc_RegistryImage svc) (svc_tag svc) (svc_Platform svc);
     case r of
       Inl err \<Rightarrow> ret (Some (''service '' @ svc_Name svc @ '': '' @ err), state, changed)
     | Inr remoteDigest \<Rightarrow>
         poll_services S
           (state\<lparr>st_DesiredDigests := AList.update (svc_Name svc) remoteDigest (st_DesiredDigests state)\<rparr>)
           (changed \<or> remoteDigest \<noteq> smap_get (st_CurrentDigests state) (svc_Name svc)) svcs
   }"

definition poll_done :: "Project \<Rightarrow> string \<Rightarrow> bool \<Rightarrow> Event" where
  "poll_done p msg err =
     (mk_event EventPollDone (p_ID p))\<lparr>ev_Message := msg, ev_Error := err\<rparr>"

text \<open>The part of \<open>reconcileOne\<close> after the loop.\<close>

definition finish_poll ::
    "Scheduler \<Rightarrow> Project \<Rightarrow> DeployTrigger \<Rightarrow> error option \<times> ProjectState \<times> bool \<Rightarrow> unit io" where
  "finish_poll S p trigger polled =
     (case polled of
        (Some msg, state, changed) \<Rightarrow> do {
          db_write (UpdateState (state\<lparr>st_LastError := msg\<rparr>));
          sch_Emit S (poll_done p msg True)
        }
      | (None, state, changed) \<Rightarrow> do {
          let state = state\<lparr>st_LastError := ''''\<rparr>;
          db_write (UpdateState state);
          (if \<not> changed then sch_Emit S (poll_done p ''up to date'' False)
           else if st_Status state = StatusDeploying then ret ()
           else do { r \<leftarrow> sch_Deploy S p (st_DesiredDigests state) trigger; ret () })
        })"

definition reconcileOne :: "Scheduler \<Rightarrow> Project \<Rightarrow> ProjectState \<Rightarrow> DeployTrigger \<Rightarrow> unit io" where
  "reconcileOne S p state trigger = do {
     now \<leftarrow> time_Now (sch_env S);
     let state = state\<lparr>st_LastCheckAt := Some now\<rparr>;
     db_write (UpdateState state);
     polled \<leftarrow> poll_services S state False (PolledServices p);
     finish_poll S p trigger polled
   }"

text \<open>\<open>time.Duration(p.PollInterval) * time.Second\<close> in 64 bits.\<close>

definition poll_interval :: "Project \<Rightarrow> int" where
  "poll_interval p = wrap64 (p_PollInterval p * 1000000000)"

definition within_interval :: "Scheduler \<Rightarrow> Project \<Rightarrow> ProjectState \<Rightarrow> DeployTrigger \<Rightarrow> bool io" where
  "within_interval S p state trigger =
     (case (trigger, st_LastCheckAt state) of
        (TriggerPoll, Some checkedAt) \<Rightarrow> do {
          now \<leftarrow> time_Now (sch_env S);
          ret (now - checkedAt < poll_interval p)
        }
      | _ \<Rightarrow> ret False)"

fun reconcile_loop :: "Scheduler \<Rightarrow> DeployTrigger \<Rightarrow> Project list \<Rightarrow> unit io" where
  "reconcile_loop S trigger [] = ret ()"
| "reconcile_loop S trigger (p # ps) = do {
     stopped \<leftarrow> ctx_Err (sch_env S);
     if stopped then ret ()
     else if \<not> p_Enabled p then reconcile_loop S trigger ps
     else if PolledServices p = [] then reconcile_loop S trigger ps
     else do {
       s \<leftarrow> db_read (\<lambda>d. GetState d (p_ID p));
       case s of
         Inl err \<Rightarrow> reconcile_loop S trigger ps
       | Inr state \<Rightarrow> do {
           skip \<leftarrow> within_interval S p state trigger;
           (if skip then ret () else reconcileOne S p state trigger);
           reconcile_loop S trigger ps
         }
     }
   }"

definition reconcileAll :: "Scheduler \<Rightarrow> DeployTrigger \<Rightarrow> unit io" where
  "reconcileAll S trigger = do {
     r \<leftarrow> db_read (\<lambda>d. ListProjects (sch_codec S) d);
     case r of Inl err \<Rightarrow> ret () | Inr ps \<Rightarrow> reconcile_loop S trigger ps
   }"

text \<open>The loop of \<open>run\<close> over the first \<open>n\<close> ticks: it ends when the context is done.\<close>

fun run_ticks :: "Scheduler \<Rightarrow> nat \<Rightarrow> unit io" where
  "run_ticks S 0 = ret ()"
| "run_ticks S (Suc n) = do {
     stopped \<leftarrow> ctx_Err (sch_env S);
     if stopped then ret ()
     else do { reconcileAll S TriggerPoll; run_ticks S n }
   }"

definition scheduler_run :: "Scheduler \<Rightarrow> nat \<Rightarrow> unit io" where
  "scheduler_run S n = do { reconcileAll S TriggerStartup; run_ticks S n }"

definition TriggerManualReconcile :: "Scheduler \<Rightarrow> string \<Rightarrow> unit result io" where
  "TriggerManualReconcile S projectID = do {
     r \<leftarrow> db_read (\<lambda>d. GetProject (sch_codec S) d projectID);
     case r of
       Inl err \<Rightarrow> ret (Inl err)
     | Inr p \<Rightarrow> do {
         s \<leftarrow> db_read (\<lambda>d. GetState d projectID);
         case s of
           Inl err \<Rightarrow> ret (Inl err)
         | Inr state \<Rightarrow> do { reconcileOne S p state TriggerManual; ret (Inr ()) }
       }
   }"

section \<open>Interfaces\<close>

text \<open>Asking for a digest changes neither the database nor a lock.\<close>

locale digest_source =
  fixes digestFn :: "string \<Rightarrow> string \<Rightarrow> string \<Rightarrow> string \<Rightarrow> string result io"
  assumes digest_own: "leaves own_state (digestFn rt img tag platform)"

text \<open>
  What the scheduler needs of a deployer: an event leaves database and locks alone, and a
  deployment keeps the contract \<open>deploy_post\<close> and gives its lock back.
\<close>

locale deployer_iface =
  fixes deploy :: "Project \<Rightarrow> smap \<Rightarrow> DeployTrigger \<Rightarrow> unit result io"
    and emitFn :: "Event \<Rightarrow> unit io"
  assumes emit_own: "leaves own_state (emitFn ev)"
    and deploy_busy: "p_ID p \<in> set (w_locks w) \<Longrightarrow> own_state (snd (run_state (deploy p t trigger) w)) = own_state w"
    and deploy_ok: "keeps (\<lambda>w. db_ok (w_db w)) (deploy p t trigger)"
    and deploy_post: "db_ok (w_db w) \<Longrightarrow> p_ID p \<notin> set (w_locks w) \<Longrightarrow>
      run_state (deploy p t trigger) w = (r, w') \<Longrightarrow>
      w_locks w' = w_locks w \<and> deploy_post p t trigger (w_db w) r (w_db w')"

text \<open>
  One reconciliation from the state row \<open>s\<close>: the row is written with the time of the check; then
  the poll fails, finds nothing new, or finds a change, which is deployed unless the row says
  that a deployment is under way.
\<close>

definition reconciled ::
    "Project \<Rightarrow> DeployTrigger \<Rightarrow> (error option \<times> ProjectState \<times> bool) \<Rightarrow> DB \<Rightarrow> DB \<Rightarrow> bool" where
  "reconciled p trigger polled db db' \<longleftrightarrow>
     (case polled of
        (Some msg, s1, changed) \<Rightarrow> db' = UpdateState (s1\<lparr>st_LastError := msg\<rparr>) db
      | (None, s1, changed) \<Rightarrow>
          (if \<not> changed \<or> st_Status s1 = StatusDeploying
           then db' = UpdateState (s1\<lparr>st_LastError := ''''\<rparr>) db
           else (\<exists>r. deploy_post p (st_DesiredDigests s1) trigger
                  (UpdateState (s1\<lparr>st_LastError := ''''\<rparr>) db) r db')))"

text \<open>What a reconciliation does when the registry answers every polled service.\<close>

definition answered :: "Scheduler \<Rightarrow> Project \<Rightarrow> (ServiceConfig \<Rightarrow> string) \<Rightarrow> bool" where
  "answered S p ans \<longleftrightarrow> distinct (map svc_Name (PolledServices p)) \<and>
     (\<forall>svc \<in> set (PolledServices p). \<forall>w. fst (run_state (sch_digestFn S (sch_runtime S)
        (svc_RegistryImage svc) (svc_tag svc) (svc_Platform svc)) w) = Inr (ans svc))"

definition outdated :: "Project \<Rightarrow> (ServiceConfig \<Rightarrow> string) \<Rightarrow> ProjectState \<Rightarrow> bool" where
  "outdated p ans s \<longleftrightarrow>
     (\<exists>svc \<in> set (PolledServices p). ans svc \<noteq> smap_get (st_CurrentDigests s) (svc_Name svc))"

definition desired_of :: "Project \<Rightarrow> (ServiceConfig \<Rightarrow> string) \<Rightarrow> ProjectState \<Rightarrow> smap \<Rightarrow> bool" where
  "desired_of p ans s m \<longleftrightarrow>
     (\<forall>svc \<in> set (PolledServices p). map_of m (svc_Name svc) = Some (ans svc)) \<and>
     (\<forall>k. k \<notin> svc_Name ` set (PolledServices p) \<longrightarrow> map_of m k = map_of (st_DesiredDigests s) k)"

text \<open>The scheduler over both interfaces.\<close>

locale scheduling = digest_source "sch_digestFn S" + deployer_iface "sch_Deploy S" "sch_Emit S"
  for S :: Scheduler
begin

lemma poll_own: "leaves own_state (poll_services S state changed svcs)"
  by (induction svcs arbitrary: state changed) (auto intro!: frame digest_own)

text \<open>The loop changes only the desired digests, and those only at the polled services.\<close>

lemma poll_state:
  "wp (poll_services S state changed svcs) w (\<lambda>r w'. case r of (err, state', changed') \<Rightarrow>
     (\<exists>m. state' = state\<lparr>st_DesiredDigests := m\<rparr> \<and>
       (\<forall>k. k \<notin> svc_Name ` set svcs \<longrightarrow> map_of m k = map_of (st_DesiredDigests state) k)))"
proof (induction svcs arbitrary: state changed w)
  case Nil
  show ?case by (auto intro!: exI [of _ "st_DesiredDigests state"])
next
  case (Cons svc svcs)
  show ?case
    by (auto simp: wp_def [of "sch_digestFn S _ _ _ _"] intro!: exI [of _ "st_DesiredDigests state"]
        split: prod.splits sum.splits elim!: wp_mono [OF Cons.IH])
       (auto intro!: wp_mono [OF Cons.IH])
qed

text \<open>A poll that finds every digest, when the registry answers \<open>ans\<close>.\<close>

lemma poll_answers:
  assumes "\<forall>svc \<in> set svcs. \<forall>w. fst (run_state (sch_digestFn S (sch_runtime S)
      (svc_RegistryImage svc) (svc_tag svc) (svc_Platform svc)) w) = Inr (ans svc)"
    and "distinct (map svc_Name svcs)"
  shows "wp (poll_services S state changed svcs) w (\<lambda>r w'. \<exists>m.
     r = (None, state\<lparr>st_DesiredDigests := m\<rparr>,
       changed \<or> (\<exists>svc \<in> set svcs. ans svc \<noteq> smap_get (st_CurrentDigests state) (svc_Name svc))) \<and>
     (\<forall>svc \<in> set svcs. map_of m (svc_Name svc) = Some (ans svc)) \<and>
     (\<forall>k. k \<notin> svc_Name ` set svcs \<longrightarrow> map_of m k = map_of (st_DesiredDigests state) k))"
  using assms
proof (induction svcs arbitrary: state changed w)
  case Nil
  show ?case by (auto intro!: exI [of _ "st_DesiredDigests state"])
next
  case (Cons svc svcs)
  let ?d = "sch_digestFn S (sch_runtime S) (svc_RegistryImage svc) (svc_tag svc) (svc_Platform svc)"
  have d: "fst (run_state ?d w) = Inr (ans svc)" using Cons.prems(1) by simp
  let ?st = "state\<lparr>st_DesiredDigests :=
    AList.update (svc_Name svc) (ans svc) (st_DesiredDigests state)\<rparr>"
  let ?ch = "changed \<or> ans svc \<noteq> smap_get (st_CurrentDigests state) (svc_Name svc)"
  have "wp (poll_services S ?st ?ch svcs) (snd (run_state ?d w)) (\<lambda>r w'. \<exists>m.
     r = (None, state\<lparr>st_DesiredDigests := m\<rparr>,
       changed \<or> (\<exists>v \<in> set (svc # svcs). ans v \<noteq> smap_get (st_CurrentDigests state) (svc_Name v))) \<and>
     (\<forall>v \<in> set (svc # svcs). map_of m (svc_Name v) = Some (ans v)) \<and>
     (\<forall>k. k \<notin> svc_Name ` set (svc # svcs) \<longrightarrow> map_of m k = map_of (st_DesiredDigests state) k))"
    by (rule wp_mono [OF Cons.IH [of ?st ?ch]]) (use Cons.prems in \<open>auto simp: image_iff\<close>)
  then show ?case
    using d by (simp add: wp_def [of ?d] case_prod_beta)
qed

lemma finish_poll_post:
  assumes "db_ok (w_db w)" "p_ID p \<notin> set (w_locks w)"
  shows "wp (finish_poll S p trigger polled) w (\<lambda>u w'.
    w_locks w' = w_locks w \<and> reconciled p trigger polled (w_db w) (w_db w'))"
proof -
  obtain err s1 changed where polled: "polled = (err, s1, changed)" by (cases polled)
  have emit: "wp (sch_Emit S ev) w1 (\<lambda>u w'. w_locks w' = w_locks w1 \<and> w_db w' = w_db w1)" for ev w1
    by (rule wp_own [OF emit_own]) simp
  show ?thesis
  proof (cases err)
    case (Some msg)
    then show ?thesis
      unfolding polled finish_poll_def by (auto simp: reconciled_def intro: wp_mono [OF emit])
  next
    case None
    let ?w = "w\<lparr>w_db := UpdateState (s1\<lparr>st_LastError := ''''\<rparr>) (w_db w)\<rparr>"
    have ok: "db_ok (w_db ?w)" "p_ID p \<notin> set (w_locks ?w)" using assms by (simp_all add: wf_intros)
    have dep: "wp (sch_Deploy S p t trigger) ?w (\<lambda>r w'. w_locks w' = w_locks w \<and>
        (\<exists>r. deploy_post p t trigger (w_db ?w) r (w_db w')))" for t
      using deploy_post [OF ok] by (auto simp: wp_def split: prod.splits) blast
    show ?thesis
      unfolding polled finish_poll_def None
      using dep by (auto simp: reconciled_def Let_def intro: wp_mono [OF emit])
  qed
qed

definition reconcile_post :: "Project \<Rightarrow> ProjectState \<Rightarrow> DeployTrigger \<Rightarrow> DB \<Rightarrow> DB \<Rightarrow> bool" where
  "reconcile_post p s trigger db db' \<longleftrightarrow>
     (\<exists>now polled w1. reconciled p trigger polled (UpdateState (s\<lparr>st_LastCheckAt := Some now\<rparr>) db) db' \<and>
      polled = fst (run_state (poll_services S (s\<lparr>st_LastCheckAt := Some now\<rparr>) False (PolledServices p)) w1))"

lemma reconcile_postI:
  "reconciled p trigger polled (UpdateState (s\<lparr>st_LastCheckAt := Some now\<rparr>) db) db' \<Longrightarrow>
   run_state (poll_services S (s\<lparr>st_LastCheckAt := Some now\<rparr>) False (PolledServices p)) w1 = (polled, w2) \<Longrightarrow>
   reconcile_post p s trigger db db'"
  unfolding reconcile_post_def by (metis fst_conv)

lemma reconcileOne_post:
  assumes "db_ok (w_db w)" "p_ID p \<notin> set (w_locks w)"
  shows "wp (reconcileOne S p s trigger) w (\<lambda>u w'. w_locks w' = w_locks w \<and>
    reconcile_post p s trigger (w_db w) (w_db w'))"
  unfolding reconcileOne_def wp_bind Let_def
proof (rule wp_own [OF leaves_time(1)], simp, goal_cases)
  case (1 now w1)
  let ?s = "s\<lparr>st_LastCheckAt := Some now\<rparr>"
  let ?w = "w1\<lparr>w_db := UpdateState ?s (w_db w)\<rparr>"
  obtain polled w2 where run: "run_state (poll_services S ?s False (PolledServices p)) ?w = (polled, w2)"
    by (cases "run_state (poll_services S ?s False (PolledServices p)) ?w")
  have own: "w_db w2 = UpdateState ?s (w_db w)" "w_locks w2 = w_locks w"
    using leavesD [OF poll_own run] 1 by (simp_all add: own_state_def)
  have "wp (finish_poll S p trigger polled) w2 (\<lambda>u w'.
      w_locks w' = w_locks w \<and> reconciled p trigger polled (UpdateState ?s (w_db w)) (w_db w'))"
    using finish_poll_post [of w2 p trigger polled] assms own by (simp add: wf_intros)
  then show ?case
    using run 1
    by (simp add: wp_def [of "poll_services _ _ _ _"])
       (erule wp_mono, auto intro: reconcile_postI)
qed

lemma reconcile_answered:
  assumes "reconcile_post p s trigger db db'" "answered S p ans"
  shows "\<exists>now m. desired_of p ans s m \<and>
    (let s1 = s\<lparr>st_LastCheckAt := Some now\<rparr>; db1 = UpdateState s1 db;
         db2 = UpdateState (s1\<lparr>st_DesiredDigests := m, st_LastError := []\<rparr>) db1 in
     if outdated p ans s \<and> st_Status s \<noteq> StatusDeploying
     then \<exists>r. deploy_post p m trigger db2 r db' else db' = db2)"
proof -
  obtain now polled w1 where r: "reconciled p trigger polled
      (UpdateState (s\<lparr>st_LastCheckAt := Some now\<rparr>) db) db'"
    and polled: "polled = fst (run_state (poll_services S (s\<lparr>st_LastCheckAt := Some now\<rparr>) False
      (PolledServices p)) w1)"
    using assms(1) unfolding reconcile_post_def by blast
  have "wp (poll_services S (s\<lparr>st_LastCheckAt := Some now\<rparr>) False (PolledServices p)) w1
      (\<lambda>r w'. \<exists>m. r = (None, s\<lparr>st_LastCheckAt := Some now, st_DesiredDigests := m\<rparr>, outdated p ans s) \<and>
        desired_of p ans s m)"
    by (rule wp_mono [OF poll_answers [where ans = ans]])
       (use assms(2) in \<open>auto simp: answered_def outdated_def desired_of_def\<close>)
  then obtain m where m: "polled = (None, s\<lparr>st_LastCheckAt := Some now, st_DesiredDigests := m\<rparr>, outdated p ans s)"
      "desired_of p ans s m"
    unfolding polled wp_def by (auto split: prod.splits)
  show ?thesis
    using r m(2) unfolding m(1) reconciled_def
    by (intro exI [of _ now] exI [of _ m]) (auto simp: Let_def)
qed

lemma finish_poll_ok [wf_intros]: "keeps (\<lambda>w. db_ok (w_db w)) (finish_poll S p trigger polled)"
proof -
  have "keeps (\<lambda>w. db_ok (w_db w)) (sch_Emit S ev)" for ev
    by (rule leaves_keeps [OF leaves_own_db [OF emit_own]])
  then show ?thesis
    unfolding finish_poll_def Let_def by (auto intro!: wf_intros deploy_ok split: option.splits)
qed

lemma reconcileOne_ok: "keeps (\<lambda>w. db_ok (w_db w)) (reconcileOne S p s trigger)"
  unfolding reconcileOne_def Let_def
  by (intro wf_intros keeps_own poll_own)

lemma reconcile_loop_ok: "keeps (\<lambda>w. db_ok (w_db w)) (reconcile_loop S trigger ps)"
proof (induction ps)
  case (Cons p ps)
  have "keeps (\<lambda>w. db_ok (w_db w)) (within_interval S p s trigger)" for s
    unfolding within_interval_def
    by (auto intro!: wf_intros split: DeployTrigger.splits option.splits)
  with Cons show ?case by (auto intro!: wf_intros reconcileOne_ok)
qed (simp add: keeps_ret)

lemma scheduler_ok: "keeps (\<lambda>w. db_ok (w_db w)) (scheduler_run S n)"
proof -
  have all: "keeps (\<lambda>w. db_ok (w_db w)) (reconcileAll S trigger)" for trigger
    unfolding reconcileAll_def by (intro wf_intros reconcile_loop_ok)
  have "keeps (\<lambda>w. db_ok (w_db w)) (run_ticks S n)"
    by (induction n) (auto intro!: wf_intros all)
  with all show ?thesis unfolding scheduler_run_def by (intro wf_intros)
qed

end

section \<open>The interfaces on the real deployer and registry\<close>

lemma Deploy_ok: "keeps (\<lambda>w. db_ok (w_db w)) (Deploy D p t trigger)"
proof -
  have l: "keeps (\<lambda>w. db_ok (w_db w)) (TryLock i)" "keeps (\<lambda>w. db_ok (w_db w)) (Unlock i)" for i
    by (simp_all add: keeps_def TryLock_def Unlock_def)
  note own = keeps_own [OF leaves_emits(1)] keeps_own [OF leaves_emits(4)] keeps_own [OF leaves_time(1)]
    keeps_own [OF leaves_executeRollback] keeps_own [OF leaves_deploy_and_check]
  show ?thesis
    unfolding Deploy_def deploy_locked_def deploy_failed_def deploy_succeeded_def finish_deployment_def Let_def
    by (intro wf_intros l own)
qed

definition scheduler_New :: "Deployer \<Rightarrow> Registry \<Rightarrow> Codec \<Rightarrow> Scheduler" where
  "scheduler_New D R cd =
     \<lparr>sch_env = dep_env D, sch_codec = cd, sch_runtime = dep_runtime D, sch_Deploy = Deploy D,
      sch_Emit = emit D, sch_digestFn = GetRemoteDigest R\<rparr>"

interpretation registry: digest_source "GetRemoteDigest R" for R
  by unfold_locales (rule leaves_GetRemoteDigest)

interpretation docker: deployer_iface "Deploy D" "emit D" for D
proof
  show "keeps (\<lambda>w. db_ok (w_db w)) (Deploy D p t trigger)" for p t trigger by (rule Deploy_ok)
  show "leaves own_state (emit D ev)" for ev by (rule leaves_emit)
  show "own_state (snd (run_state (Deploy D p t trigger) w)) = own_state w"
    if "p_ID p \<in> set (w_locks w)" for p w t trigger
    using that by (simp add: Deploy_def TryLock_def)
qed (use Deploy_contract in blast)

interpretation live: scheduling "scheduler_New D R cd" for D R cd
  unfolding scheduling_def
  using registry.digest_source_axioms docker.deployer_iface_axioms by (simp add: scheduler_New_def)


section \<open>Properties\<close>

lemma UpdateState_rows:
  "db_deployments (UpdateState s db) = db_deployments db"
  "db_projects (UpdateState s db) = db_projects db"
  "db_deploy_seq (UpdateState s db) = db_deploy_seq db"
  by (simp_all add: UpdateState_def)

lemma GetState_UpdateState:
  assumes "GetState db i = Inr r" "st_ProjectID s = i"
  shows "GetState (UpdateState s db) i = Inr (stored_state s)"
proof -
  have "state_of db (st_ProjectID s) = Some r" using assms by (simp add: state_of_def)
  from states.get_put_same [OF this] show ?thesis
    using assms(2) by (simp add: state_of_def split: sum.splits)
qed

lemma stored_state_sel [simp]: "st_ProjectID (stored_state s) = st_ProjectID s"
    "st_CurrentDigests (stored_state s) = st_CurrentDigests s"
    "st_PreviousDigests (stored_state s) = st_PreviousDigests s"
    "st_DesiredDigests (stored_state s) = st_DesiredDigests s"
    "st_Status (stored_state s) = st_Status s" "st_LastError (stored_state s) = st_LastError s"
  by (simp_all add: stored_state_def)

lemma reconcile_run:
  assumes "db_ok (w_db w)" "p_ID p \<notin> set (w_locks w)"
    and "run_state (reconcileOne (scheduler_New D R cd) p s trigger) w = (u, w')"
    and "answered (scheduler_New D R cd) p ans"
  shows "\<exists>now m. desired_of p ans s m \<and>
    (let s1 = s\<lparr>st_LastCheckAt := Some now\<rparr>; db1 = UpdateState s1 (w_db w);
         db2 = UpdateState (s1\<lparr>st_DesiredDigests := m, st_LastError := []\<rparr>) db1 in
     if outdated p ans s \<and> st_Status s \<noteq> StatusDeploying
     then \<exists>r. deploy_post p m trigger db2 r (w_db w') else w_db w' = db2)"
  using live.reconcile_answered [OF _ assms(4)] wp_run [OF live.reconcileOne_post [OF assms(1,2)] assms(3)]
  by blast

lemma reconcile_no_change:
  assumes "db_ok (w_db w)" "p_ID p \<notin> set (w_locks w)" "GetState (w_db w) (p_ID p) = Inr s"
    and "answered (scheduler_New D R cd) p ans" "\<not> outdated p ans s"
    and "run_state (reconcileOne (scheduler_New D R cd) p s trigger) w = (u, w')"
  shows "db_deployments (w_db w') = db_deployments (w_db w) \<and>
    (\<exists>s'. GetState (w_db w') (p_ID p) = Inr s' \<and> st_CurrentDigests s' = st_CurrentDigests s \<and>
       st_PreviousDigests s' = st_PreviousDigests s \<and> st_Status s' = st_Status s \<and>
       st_LastCheckAt s' \<noteq> None \<and> st_LastError s' = '''')"
proof -
  have id: "st_ProjectID s = p_ID p" using GetState_ok [OF assms(1,3)] by simp
  obtain now m where db': "w_db w' = UpdateState (s\<lparr>st_LastCheckAt := Some now,
      st_DesiredDigests := m, st_LastError := []\<rparr>) (UpdateState (s\<lparr>st_LastCheckAt := Some now\<rparr>) (w_db w))"
    using reconcile_run [OF assms(1,2,6,4)] assms(5) by (auto simp: Let_def)
  have "GetState (UpdateState (s\<lparr>st_LastCheckAt := Some now\<rparr>) (w_db w)) (p_ID p) =
      Inr (stored_state (s\<lparr>st_LastCheckAt := Some now\<rparr>))"
    using assms(3) id by (intro GetState_UpdateState) simp_all
  from GetState_UpdateState [OF this] show ?thesis
    using id by (simp add: db' UpdateState_rows) (simp add: stored_state_def)
qed

text \<open>
  When every polled service already runs the digest that the registry answers, a
  reconciliation deploys nothing: no audit record is added, and the state row keeps its digests
  and status; it gets the time of the check and an empty error.
\<close>

theorem reconcile_up_to_date:
  assumes "db_ok (w_db w)" "p_ID p \<notin> set (w_locks w)" "GetState (w_db w) (p_ID p) = Inr s"
    and "answered (scheduler_New D R cd) p ans" "\<not> outdated p ans s"
    and "run_state (reconcileOne (scheduler_New D R cd) p s trigger) w = (u, w')"
  shows "db_deployments (w_db w') = db_deployments (w_db w) \<and>
    (\<exists>s'. GetState (w_db w') (p_ID p) = Inr s' \<and> st_CurrentDigests s' = st_CurrentDigests s \<and>
       st_PreviousDigests s' = st_PreviousDigests s \<and> st_Status s' = st_Status s \<and>
       st_LastCheckAt s' \<noteq> None \<and> st_LastError s' = '''')"
  using assms by (rule reconcile_no_change)

lemma reconcile_change:
  assumes "db_ok (w_db w)" "p_ID p \<notin> set (w_locks w)" "GetState (w_db w) (p_ID p) = Inr s"
    and "answered (scheduler_New D R cd) p ans" "outdated p ans s" "st_Status s \<noteq> StatusDeploying"
    and "run_state (reconcileOne (scheduler_New D R cd) p s trigger) w = (u, w')"
  shows "\<exists>m r s' fin. desired_of p ans s m \<and>
    db_deployments (w_db w') = db_deployments (w_db w) @ [fin] \<and>
    GetState (w_db w') (p_ID p) = Inr s' \<and> deploy_outcome (p_ID p) s m trigger r s' fin"
proof -
  have id: "st_ProjectID s = p_ID p" using GetState_ok [OF assms(1,3)] by simp
  obtain now m r where m: "desired_of p ans s m"
    and post: "deploy_post p m trigger (UpdateState (s\<lparr>st_LastCheckAt := Some now,
      st_DesiredDigests := m, st_LastError := []\<rparr>) (UpdateState (s\<lparr>st_LastCheckAt := Some now\<rparr>) (w_db w)))
      r (w_db w')"
    using reconcile_run [OF assms(1,2,7,4)] assms(5,6) by (auto simp: Let_def)
  let ?s2 = "s\<lparr>st_LastCheckAt := Some now, st_DesiredDigests := m, st_LastError := []\<rparr>"
  let ?db2 = "UpdateState ?s2 (UpdateState (s\<lparr>st_LastCheckAt := Some now\<rparr>) (w_db w))"
  have "GetState (UpdateState (s\<lparr>st_LastCheckAt := Some now\<rparr>) (w_db w)) (p_ID p) =
      Inr (stored_state (s\<lparr>st_LastCheckAt := Some now\<rparr>))"
    using assms(3) id by (intro GetState_UpdateState) simp_all
  from GetState_UpdateState [OF this, of ?s2] have st2: "GetState ?db2 (p_ID p) = Inr (stored_state ?s2)"
    using id by simp
  with post obtain s' fin where eff: "w_db w' = deploy_effect (p_ID p) s' fin ?db2"
      and out: "deploy_outcome (p_ID p) (stored_state ?s2) m trigger r s' fin"
    unfolding deploy_post_def by auto
  have "deploy_outcome (p_ID p) s m trigger r s' fin"
    using out by (cases r) (simp_all add: deploy_outcome_def stored_state_def)
  moreover have "GetState (w_db w') (p_ID p) = Inr s'"
    using st2 by (simp add: eff GetState_def deploy_effect_def map_of_sql_update split: option.splits)
  moreover have "db_deployments (w_db w') = db_deployments (w_db w) @ [fin]"
    by (simp add: eff deploy_effect_def UpdateState_rows)
  ultimately show ?thesis using m by blast
qed


text \<open>
  Property C8. Reconciliation converges: once it has left a project running, each polled
  service's current digest is what the registry answers, and the next reconciliation against
  the same registry deploys nothing.
\<close>

theorem reconcile_converges:
  assumes "db_ok (w_db w)" "p_ID p \<notin> set (w_locks w)" "GetState (w_db w) (p_ID p) = Inr s"
    and "answered (scheduler_New D R cd) p ans" "st_Status s \<noteq> StatusDeploying"
    and "run_state (reconcileOne (scheduler_New D R cd) p s trigger) w = (u, w1)"
    and "GetState (w_db w1) (p_ID p) = Inr s1" "st_Status s1 = StatusRunning"
    and "run_state (reconcileOne (scheduler_New D R cd) p s1 trigger') w1 = (v, w2)"
  shows "\<not> outdated p ans s1 \<and> db_deployments (w_db w2) = db_deployments (w_db w1)"
proof -
  have w1: "db_ok (w_db w1)" "p_ID p \<notin> set (w_locks w1)"
    using keepsD [OF live.reconcileOne_ok assms(1,6)] assms(2)
      wp_run [OF live.reconcileOne_post [OF assms(1,2)] assms(6)] by simp_all
  have "\<not> outdated p ans s1"
  proof (cases "outdated p ans s")
    case False
    from reconcile_no_change [OF assms(1-4) False assms(6)] assms(7) False show ?thesis
      by (auto simp: outdated_def)
  next
    case True
    from reconcile_change [OF assms(1-4) True assms(5,6)] obtain m r s' fin where
      m: "desired_of p ans s m" and s': "GetState (w_db w1) (p_ID p) = Inr s'"
      and out: "deploy_outcome (p_ID p) s m trigger r s' fin" by blast
    from s' assms(7,8) have "st_Status s' = StatusRunning" "s' = s1" by simp_all
    with out have "st_CurrentDigests s1 = m" by (cases r) (auto simp: deploy_outcome_def)
    with m show ?thesis by (auto simp: outdated_def desired_of_def smap_get_def)
  qed
  with reconcile_no_change [OF w1 assms(7,4) _ assms(9)] show ?thesis by simp
qed

section \<open>Projects that a pass leaves alone\<close>

definition records_of :: "DB \<Rightarrow> string \<Rightarrow> Deployment list" where
  "records_of db i = filter (\<lambda>d. d_ProjectID d = i) (db_deployments db)"

text \<open>Same state row, same audit records, for one project.\<close>

definition untouched :: "string \<Rightarrow> DB \<Rightarrow> DB \<Rightarrow> bool" where
  "untouched i db db' \<longleftrightarrow> GetState db' i = GetState db i \<and> records_of db' i = records_of db i"

lemma untouched_refl: "untouched i db db"
  by (simp add: untouched_def)

lemma untouched_trans: "untouched i db db' \<Longrightarrow> untouched i db' db'' \<Longrightarrow> untouched i db db''"
  by (simp add: untouched_def)

lemma untouched_UpdateState: "st_ProjectID s \<noteq> i \<Longrightarrow> untouched i db (UpdateState s db)"
  by (simp add: untouched_def records_of_def GetState_def UpdateState_def map_of_sql_update)

lemma untouched_deploy:
  assumes "deploy_post p t trigger db r db'" "p_ID p \<noteq> i"
  shows "untouched i db db'"
proof (cases "GetState db (p_ID p)")
  case (Inl err)
  with assms(1) show ?thesis by (simp add: deploy_post_def untouched_refl)
next
  case (Inr s)
  with assms(1) obtain st fin where eff: "db' = deploy_effect (p_ID p) st fin db"
    and out: "deploy_outcome (p_ID p) s t trigger r st fin"
    unfolding deploy_post_def by auto
  from out have "d_ProjectID fin = p_ID p" by (simp add: deploy_outcome_def)
  with eff assms(2) show ?thesis
    by (simp add: untouched_def records_of_def deploy_effect_def GetState_def map_of_sql_update)
qed

context scheduling begin

lemma untouched_reconcile:
  assumes "reconcile_post p s trigger db db'" "st_ProjectID s = p_ID p" "p_ID p \<noteq> i"
  shows "untouched i db db'"
proof -
  obtain now polled w1 where r: "reconciled p trigger polled
      (UpdateState (s\<lparr>st_LastCheckAt := Some now\<rparr>) db) db'"
    and polled: "polled = fst (run_state (poll_services S (s\<lparr>st_LastCheckAt := Some now\<rparr>) False
      (PolledServices p)) w1)"
    using assms(1) unfolding reconcile_post_def by blast
  obtain err s1 ch where p: "polled = (err, s1, ch)" by (cases polled)
  have s1: "st_ProjectID s1 = p_ID p"
    using poll_state [of "s\<lparr>st_LastCheckAt := Some now\<rparr>" False "PolledServices p" w1] assms(2)
    unfolding wp_def using polled p by (auto split: prod.splits)
  let ?d = "UpdateState (s\<lparr>st_LastCheckAt := Some now\<rparr>) db"
  have a: "untouched i db ?d"
    using assms by (intro untouched_UpdateState) simp
  have b: "untouched i db (UpdateState (s1\<lparr>st_LastError := msg\<rparr>) ?d)" for msg
    using s1 assms(3) a by (auto intro!: untouched_trans [OF a] untouched_UpdateState)
  have c: "untouched i db db'"
    if "deploy_post p m trigger (UpdateState (s1\<lparr>st_LastError := msg\<rparr>) ?d) x db'" for m msg x
    using untouched_trans [OF b untouched_deploy [OF that assms(3)]] .
  from r show ?thesis
    unfolding p reconciled_def
    by (auto split: option.splits if_splits intro: b dest: c)
qed

lemma loop_untouched:
  assumes "db_ok (w_db w)" "w_locks w = []"
    and "\<forall>p \<in> set ps. p_ID p = i \<longrightarrow> \<not> p_Enabled p \<or> PolledServices p = []"
  shows "wp (reconcile_loop S trigger ps) w (\<lambda>u w'. untouched i (w_db w) (w_db w'))"
  using assms
proof (induction ps arbitrary: w)
  case Nil
  then show ?case by (simp add: untouched_refl)
next
  case (Cons p ps)
  let ?Q = "\<lambda>u w'. untouched i (w_db w) (w_db w')"
  have IH: "wp (reconcile_loop S trigger ps) w1 ?Q"
    if "db_ok (w_db w1)" "w_locks w1 = []" "untouched i (w_db w) (w_db w1)" for w1
    by (rule wp_mono [OF Cons.IH [OF that(1,2)]]) (use Cons.prems(3) that(3) in \<open>auto intro: untouched_trans\<close>)
  have rest: "wp (do {
       s \<leftarrow> db_read (\<lambda>d. GetState d (p_ID p));
       case s of
         Inl err \<Rightarrow> reconcile_loop S trigger ps
       | Inr state \<Rightarrow> do {
           skip \<leftarrow> within_interval S p state trigger;
           (if skip then ret () else reconcileOne S p state trigger);
           reconcile_loop S trigger ps }}) w1 ?Q"
    if w1: "w_db w1 = w_db w" "w_locks w1 = w_locks w" and act: "p_Enabled p" "PolledServices p \<noteq> []" for w1
  proof (cases "GetState (w_db w1) (p_ID p)")
    case (Inl err)
    then show ?thesis using IH [of w1] w1 Cons.prems by (simp add: untouched_refl)
  next
    case (Inr s)
    have ne: "p_ID p \<noteq> i" using act Cons.prems(3) by auto
    have id: "st_ProjectID s = p_ID p" using GetState_ok(1) [of "w_db w1" _ s] Inr w1 Cons.prems by simp
    have within: "leaves own_state (within_interval S p s trigger)"
      unfolding within_interval_def by (auto intro!: frame split: DeployTrigger.splits option.splits)
    have one: "wp (reconcileOne S p s trigger) w2 (\<lambda>u w3. db_ok (w_db w3) \<and> w_locks w3 = [] \<and>
        untouched i (w_db w) (w_db w3))" if w2: "w_db w2 = w_db w" "w_locks w2 = w_locks w" for w2
    proof -
      have ok: "db_ok (w_db w2)" "p_ID p \<notin> set (w_locks w2)" using w2 Cons.prems by simp_all
      have "wp (reconcileOne S p s trigger) w2 (\<lambda>u w3. db_ok (w_db w3) \<and> w_locks w3 = w_locks w2 \<and>
          reconcile_post p s trigger (w_db w2) (w_db w3))"
        by (rule wp_conj [OF wp_keeps [OF reconcileOne_ok] reconcileOne_post]) (use ok in auto)
      then show ?thesis
        by (rule wp_mono) (use w2 Cons.prems untouched_reconcile [OF _ id ne] in auto)
    qed
    show ?thesis
      unfolding wp_bind wp_db_read Inr sum.case
    proof (rule wp_own [OF within])
      fix skip :: bool and w2 :: World
      assume "w_db w2 = w_db w1" "w_locks w2 = w_locks w1"
      then have w2: "w_db w2 = w_db w" "w_locks w2 = w_locks w" using w1 by simp_all
      show "wp (if skip then ret () else reconcileOne S p s trigger) w2
          (\<lambda>u w'. wp (reconcile_loop S trigger ps) w' ?Q)"
      proof (cases skip)
        case True
        then show ?thesis using IH [of w2] w2 Cons.prems by (simp add: untouched_refl)
      next
        case False
        then show ?thesis using one [OF w2] IH by (auto elim: wp_mono)
      qed
    qed
  qed
  show ?case
    unfolding reconcile_loop.simps wp_bind
  proof (rule wp_own [OF leaves_ctx(1)])
    fix stopped :: bool and w1 :: World
    assume w1: "w_db w1 = w_db w" "w_locks w1 = w_locks w"
    show "wp (if stopped then ret ()
        else if \<not> p_Enabled p then reconcile_loop S trigger ps
        else if PolledServices p = [] then reconcile_loop S trigger ps
        else do {
         s \<leftarrow> db_read (\<lambda>d. GetState d (p_ID p));
         case s of
           Inl err \<Rightarrow> reconcile_loop S trigger ps
         | Inr state \<Rightarrow> do {
             skip \<leftarrow> within_interval S p state trigger;
             (if skip then ret () else reconcileOne S p state trigger);
             reconcile_loop S trigger ps }}) w1 ?Q"
      using rest [OF w1] IH [of w1] w1 Cons.prems by (simp add: untouched_refl)
  qed
qed

end

text \<open>
  A pass over all projects does not touch a project that is disabled or has no
  polled service: its state row and its audit records stay as they are, whatever happens to the
  others.
\<close>

theorem reconcileAll_leaves_idle:
  assumes "db_ok (w_db w)" "w_locks w = []" "ListProjects cd (w_db w) = Inr ps"
    and "\<forall>p \<in> set ps. p_ID p = i \<longrightarrow> \<not> p_Enabled p \<or> PolledServices p = []"
    and "run_state (reconcileAll (scheduler_New D R cd) trigger) w = (u, w')"
  shows "untouched i (w_db w) (w_db w')"
proof -
  have "wp (reconcileAll (scheduler_New D R cd) trigger) w (\<lambda>u w'. untouched i (w_db w) (w_db w'))"
    using live.loop_untouched [OF assms(1,2,4)] assms(3)
    by (simp add: reconcileAll_def scheduler_New_def)
  from wp_run [OF this assms(5)] show ?thesis .
qed

text \<open>
  A tick within a project's poll interval skips it: no registry is asked, and
  database, locks, events and files stay as they are. The interval is computed in 64-bit
  nanoseconds, so it is the configured number of seconds when that fits.
\<close>

theorem tick_skips_recent:
  assumes "p_Enabled p" "PolledServices p \<noteq> []" "GetState (w_db w) (p_ID p) = Inr s"
    and "st_LastCheckAt s = Some t" "\<not> env_done (dep_env D) (w_tick w)"
    and "int64_ok (p_PollInterval p * 1000000000)"
    and "env_now (dep_env D) (Suc (w_tick w)) - t < p_PollInterval p * 1000000000"
  shows "run_state (reconcile_loop (scheduler_New D R cd) TriggerPoll [p]) w =
    ((), w\<lparr>w_tick := Suc (Suc (w_tick w))\<rparr>)"
  using assms
  by (simp add: ctx_Err_def io_tick_def db_read_def io_gets_def within_interval_def time_Now_def
      scheduler_New_def poll_interval_def wrap64_id)

text \<open>
  From a well-formed database the scheduler only ever reaches well-formed ones,
  over any number of ticks and whatever the runtime, the registry and the services answer.
\<close>

theorem scheduler_keeps_db_ok:
  assumes "db_ok (w_db w)" "run_state (scheduler_run (scheduler_New D R cd) n) w = (u, w')"
  shows "db_ok (w_db w')"
  using keepsD [OF live.scheduler_ok assms] .
end
