(* ===== verification/Demo_Store.thy ===== *)
theory Demo_Store
  imports Demo Scheduler Database_Inv
begin

text \<open>
  More of the concrete installation: a toy cipher that satisfies what the code relies on, and a
  registry that answers one digest; with them, the properties of the database and the scheduler
  are instantiated.
\<close>

section \<open>The database\<close>

text \<open>The seal is the additional data, length first, followed by the text.\<close>

definition demo_seal :: "string \<Rightarrow> string \<Rightarrow> string \<Rightarrow> string" where
  "demo_seal n t a = replicate (length a) CHR ''a'' @ ''b'' @ a @ t"

definition demo_open :: "string \<Rightarrow> string \<Rightarrow> string \<Rightarrow> string option" where
  "demo_open n c b =
     (let k = length (takeWhile (\<lambda>x. x = CHR ''a'') c); r = drop (Suc k) c
      in if take k r = b \<and> length b = k then Some (drop k r) else None)"

text \<open>A text of an environment: each string with its length before it.\<close>

definition demo_enc :: "string \<Rightarrow> string" where
  "demo_enc s = replicate (length s) CHR ''a'' @ ''b'' @ s"

definition demo_dec :: "string \<Rightarrow> string \<times> string" where
  "demo_dec s =
     (let k = length (takeWhile (\<lambda>x. x = CHR ''a'') s); r = drop (Suc k) s in (take k r, drop k r))"

definition demo_marshal :: "smap \<Rightarrow> string" where
  "demo_marshal m = concat (map (\<lambda>(k, v). demo_enc k @ demo_enc v) m)"

fun demo_unmarshal :: "nat \<Rightarrow> string \<Rightarrow> smap" where
  "demo_unmarshal 0 s = []"
| "demo_unmarshal (Suc n) s =
     (if s = [] then [] else case demo_dec s of (k, r) \<Rightarrow> case demo_dec r of (v, r') \<Rightarrow>
        (k, v) # demo_unmarshal n r')"

definition demo_codec :: Codec where
  "demo_codec = \<lparr>cd_NonceSize = 12, cd_seal = demo_seal, cd_open = demo_open,
     cd_marshal_env = demo_marshal, cd_unmarshal_env = (\<lambda>s. Some (demo_unmarshal (length s) s))\<rparr>"

lemma takeWhile_replicate_until:
  "takeWhile (\<lambda>x. x = c) (replicate n c @ [d] @ r) = (if c = d then takeWhile (\<lambda>x. x = c) (replicate n c @ [d] @ r) else replicate n c)"
  by (induction n) auto

lemma demo_aead: "aead_ok demo_codec"
proof -
  have "demo_open n (demo_seal n t a) b = (if a = b then Some t else None)" for n t a b
    using takeWhile_replicate_until [of "CHR ''a''" "length a" "CHR ''b''" "a @ t"]
    by (auto simp: demo_open_def demo_seal_def Let_def)
  then show ?thesis by (simp add: aead_ok_def demo_codec_def)
qed

lemma demo_rand: "rand_ok demo_codec (Inr ''0123456789ab'')"
  by (simp add: rand_ok_def demo_codec_def)

lemma takeWhile_count: "takeWhile (\<lambda>x. x = CHR ''a'') (replicate n CHR ''a'' @ CHR ''b'' # r) = replicate n CHR ''a''"
  by (induction n) auto

lemma demo_dec_enc: "demo_dec (demo_enc k @ r) = (k, r)"
  by (simp add: demo_dec_def demo_enc_def takeWhile_count)

lemma demo_unmarshal_marshal: "length m \<le> n \<Longrightarrow> demo_unmarshal n (demo_marshal m) = m"
proof (induction m arbitrary: n)
  case Nil
  then show ?case by (cases n) (simp_all add: demo_marshal_def)
next
  case (Cons kv m)
  obtain k v n' where kv: "kv = (k, v)" "n = Suc n'" using Cons.prems by (cases kv; cases n) auto
  have "demo_marshal (kv # m) = demo_enc k @ demo_enc v @ demo_marshal m" by (simp add: demo_marshal_def kv)
  moreover have "demo_enc k \<noteq> []" by (simp add: demo_enc_def)
  ultimately show ?case using Cons.IH [of n'] Cons.prems kv by (simp add: demo_dec_enc)
qed

lemma demo_marshal_length: "length m \<le> length (demo_marshal m)"
  by (induction m) (auto simp: demo_marshal_def demo_enc_def)

lemma demo_env_codec: "env_codec_ok demo_codec m"
  using demo_unmarshal_marshal [OF demo_marshal_length] by (simp add: env_codec_ok_def demo_codec_def)

lemma CreateProject_GetProject_witness:
  "\<exists>db' m. CreateProject demo_codec (Inr ''0123456789ab'') 7 demo_project empty_db = (Inr (), db') \<and>
     GetProject demo_codec db' (p_ID demo_project) = Inr (read_back 7 m demo_project)"
  using CreateProject_GetProject [OF demo_aead demo_rand demo_env_codec, of demo_project empty_db 7]
  by (auto simp: empty_db_def table_keys_def)

lemma env_bound_to_project_witness:
  "\<exists>v. secret_encrypt demo_codec (Inr ''0123456789ab'') (projectEnvAAD ''app'') ''{}'' = Inr v \<and>
     secret_decrypt demo_codec (projectEnvAAD ''app'') v = Inr ''{}'' \<and>
     secret_decrypt demo_codec (projectEnvAAD ''other'') v =
       Inl ''decrypt secret: cipher: message authentication failed''"
proof -
  obtain v where v: "secret_encrypt demo_codec (Inr ''0123456789ab'') (projectEnvAAD ''app'') ''{}'' = Inr v"
    by (simp add: secret_encrypt_def Let_def)
  from env_bound_to_project [OF demo_aead demo_rand v] v show ?thesis by simp
qed

definition demo_tunnel :: Tunnel where
  "demo_tunnel = \<lparr>t_ID = ''t1'', t_Name = ''tunnel'', t_CFTunnelID = ''u'', t_AccountTag = ''acct'',
     t_TunnelSecret = ''s3cret'', t_CFAPIToken = '''', t_Enabled = True, t_CreatedAt = 0,
     t_UpdatedAt = 0\<rparr>"

lemma CreateTunnel_GetTunnel_witness:
  "\<exists>db'. CreateTunnel demo_codec (Inr ''0123456789ab'') (Inr ''0123456789ab'') 7 demo_tunnel empty_db =
       (Inr (), db') \<and>
     GetTunnel demo_codec db' (t_ID demo_tunnel) =
       Inr (demo_tunnel\<lparr>t_CreatedAt := rfc3339 7, t_UpdatedAt := rfc3339 7\<rparr>)"
  using CreateTunnel_GetTunnel [OF demo_aead demo_rand demo_rand, of demo_tunnel empty_db 7]
  by (auto simp: empty_db_def table_keys_def demo_tunnel_def)

section \<open>The scheduler\<close>

text \<open>A registry that answers one manifest, whatever it is asked.\<close>

definition demo_manifest :: string where
  "demo_manifest = digest_line '''' ''0af9'' ''''"

definition demo_registry :: Registry where
  "demo_registry = \<lparr>rg_env = (demo_env True)\<lparr>env_exec := (\<lambda>t argv f.
      (demo_exec f)\<lparr>xo_Combined := demo_manifest\<rparr>)\<rparr>, rg_entries = (\<lambda>s. None)\<rparr>"

definition demo_scheduler :: Scheduler where
  "demo_scheduler = scheduler_New (demo_deployer True) demo_registry demo_codec"

definition demo_ans :: "ServiceConfig \<Rightarrow> string" where
  "demo_ans svc = ''sha256:0af9''"

lemma demo_digest:
  "wp (GetRemoteDigest demo_registry rt i t '''') w (\<lambda>r w'. r = Inr ''sha256:0af9'' \<and> w_fs w' = w_fs w)"
proof -
  have m: "parseDigestFromManifest demo_manifest = ''sha256:0af9''" by code_simp
  show ?thesis
    unfolding GetRemoteDigest_def Let_def runCmd_def wp_bind
    apply (rule wp_exec_run [OF _ refl])
    apply (simp only: demo_registry_def demo_exec_def Registry.simps Env.simps ExecOut.simps xo_error_def
        manifest_digest_def option.case fst_conv snd_conv wp_ret)
    apply (simp add: m)
    done
qed

lemma demo_polled: "PolledServices demo_project = [demo_service]" "svc_Platform demo_service = ''''"
    "svc_Name demo_service = ''web''" "p_ID demo_project = ''app''"
  by (simp_all add: PolledServices_def demo_project_def demo_service_def zero_project_def zero_service_def)

lemma demo_answered: "answered demo_scheduler demo_project demo_ans"
proof -
  have "fst (run_state (GetRemoteDigest demo_registry rt i t '''') w) = Inr ''sha256:0af9''" for rt i t w
    using wp_run [OF demo_digest prod.collapse [symmetric]] by simp
  then show ?thesis
    by (simp add: answered_def demo_polled demo_scheduler_def scheduler_New_def demo_ans_def)
qed

lemma demo_outdated: "outdated demo_project demo_ans demo_state"
  by (simp add: outdated_def demo_polled demo_ans_def demo_state_def smap_get_def)

text \<open>The reconciliation of the outdated project deploys it, and it runs then.\<close>

lemma demo_reconcile:
  "wp (reconcileOne demo_scheduler demo_project demo_state TriggerPoll) demo_world
     (\<lambda>u w'. \<exists>s1. GetState (w_db w') ''app'' = Inr s1 \<and> st_Status s1 = StatusRunning)"
proof -
  let ?S = demo_scheduler
  let ?s = "\<lambda>now. demo_state\<lparr>st_LastCheckAt := Some now\<rparr>"
  let ?m = "AList.update ''web'' ''sha256:0af9'' (st_DesiredDigests demo_state)"
  have S [simp]: "sch_env ?S = demo_env True" "sch_digestFn ?S = GetRemoteDigest demo_registry"
      "sch_Deploy ?S = Deploy (demo_deployer True)" "sch_Emit ?S = emit (demo_deployer True)"
    by (simp_all add: demo_scheduler_def scheduler_New_def demo_deployer_def)
  have deploy: "wp (Deploy (demo_deployer True) demo_project t trigger) w
      (\<lambda>r w'. \<exists>s1. GetState (w_db w') ''app'' = Inr s1 \<and> st_Status s1 = StatusRunning)"
    if "db_ok (w_db w)" "w_locks w = []" "demo_fs_ok (w_fs w)" "GetState (w_db w) ''app'' = Inr s" for t trigger w s
  proof -
    obtain r w' where run: "run_state (Deploy (demo_deployer True) demo_project t trigger) w = (r, w')"
      by (cases "run_state (Deploy (demo_deployer True) demo_project t trigger) w")
    have "r = Inr ()" by (rule wp_run [OF demo_deploy run]) (use that demo_polled in auto)
    with Deploy_contract [OF that(1) _ run] that obtain st fin where
      "w_db w' = deploy_effect ''app'' st fin (w_db w)" "st_Status st = StatusRunning"
      by (auto simp: deploy_post_def demo_polled deploy_outcome_def)
    then show ?thesis
      using run that(4) by (auto simp: wp_def GetState_def deploy_effect_def map_of_sql_update split: option.splits)
  qed
  have finish: "wp (finish_poll ?S demo_project TriggerPoll (None, (?s now)\<lparr>st_DesiredDigests := ?m\<rparr>, True)) w
      (\<lambda>u w'. \<exists>s1. GetState (w_db w') ''app'' = Inr s1 \<and> st_Status s1 = StatusRunning)"
    if "w_db w = UpdateState (?s now) demo_db" "w_locks w = []" "demo_fs_ok (w_fs w)" for now w
  proof -
    have st: "st_Status demo_state \<noteq> StatusDeploying" "st_ProjectID demo_state = ''app''"
      by (simp_all add: demo_state_def initial_state_def)
    have g: "GetState (UpdateState x (UpdateState (?s now) demo_db)) ''app'' =
        Inr (stored_state x)" if "st_ProjectID x = ''app''" for x
      using that by (simp add: GetState_def UpdateState_def map_of_sql_update demo_db_def st stored_state_def)
    show ?thesis
      unfolding finish_poll_def
      by (simp add: that st, rule wp_mono [OF deploy], simp_all add: that g st wf_intros demo_db_ok)
  qed
  have "wp (poll_services ?S (?s now) False [demo_service]) w (\<lambda>r w'.
      r = (None, (?s now)\<lparr>st_DesiredDigests := ?m\<rparr>, True) \<and> w_fs w' = w_fs w \<and> own_state w' = own_state w)"
    for now w
    by (simp add: demo_polled, rule wp_mono [OF wp_conj [OF demo_digest wp_leaves [OF leaves_GetRemoteDigest(1)]]])
       (auto simp: demo_state_def smap_get_def)
  note poll = this
  show ?thesis
    unfolding reconcileOne_def Let_def wp_bind demo_polled
    apply (rule wp_mono [OF wp_conj [OF wp_leaves [OF leaves_time(1)] wp_leaves [OF leaves_time(4)]]])
    apply (simp del: poll_services.simps)
    apply (rule wp_mono [OF poll])
    apply clarsimp
    apply (rule finish)
    apply (auto simp: own_state_def demo_world_def demo_fs_ok_def)
    done
qed

text \<open>The project whose current digest is the one the registry answers.\<close>

definition demo_current :: ProjectState where
  "demo_current = demo_state\<lparr>st_CurrentDigests := [(''web'', ''sha256:0af9'')]\<rparr>"

definition demo_world_current :: World where
  "demo_world_current = demo_world\<lparr>w_db := UpdateState demo_current demo_db\<rparr>"

lemma demo_current_GetState:
  "GetState (w_db demo_world_current) (p_ID demo_project) = Inr demo_current"
  by (simp add: GetState_def UpdateState_def map_of_sql_update demo_db_def demo_world_current_def
      demo_current_def demo_state_def initial_state_def demo_polled)

lemma demo_world_current_ok: "db_ok (w_db demo_world_current)" "w_locks demo_world_current = []"
  by (simp_all add: demo_world_current_def demo_db_ok db_ok_UpdateState demo_world_def)

lemma demo_not_outdated: "\<not> outdated demo_project demo_ans demo_current"
  by (simp add: outdated_def demo_polled demo_ans_def demo_current_def smap_get_def)

section \<open>Witnesses of the scheduler's properties\<close>

lemma reconcile_up_to_date_witness:
  "db_deployments (w_db (snd (run_state (reconcileOne demo_scheduler demo_project demo_current TriggerPoll)
     demo_world_current))) = db_deployments (w_db demo_world_current)"
  using reconcile_up_to_date [OF demo_world_current_ok(1) _ demo_current_GetState
    demo_answered [unfolded demo_scheduler_def] demo_not_outdated prod.collapse [symmetric]]
  by (simp add: demo_world_current_ok demo_scheduler_def)


lemma reconcile_converges_witness:
  "\<exists>w1 w2 s1. run_state (reconcileOne demo_scheduler demo_project demo_state TriggerPoll) demo_world = ((), w1) \<and>
     GetState (w_db w1) (p_ID demo_project) = Inr s1 \<and>
     run_state (reconcileOne demo_scheduler demo_project s1 TriggerPoll) w1 = ((), w2) \<and>
     \<not> outdated demo_project demo_ans s1 \<and> db_deployments (w_db w2) = db_deployments (w_db w1)"
proof -
  obtain w1 where w1: "run_state (reconcileOne demo_scheduler demo_project demo_state TriggerPoll) demo_world = ((), w1)"
    by (metis old.unit.exhaust prod.exhaust)
  from wp_run [OF demo_reconcile w1] obtain s1
    where s1: "GetState (w_db w1) (p_ID demo_project) = Inr s1" "st_Status s1 = StatusRunning"
    by (auto simp: demo_polled)
  obtain w2 where w2: "run_state (reconcileOne demo_scheduler demo_project s1 TriggerPoll) w1 = ((), w2)"
    by (metis old.unit.exhaust prod.exhaust)
  have "st_Status demo_state \<noteq> StatusDeploying" by (simp add: demo_state_def)
  from reconcile_converges [OF demo_world_ok(1) demo_lock_free demo_GetState
      demo_answered [unfolded demo_scheduler_def] this w1 [unfolded demo_scheduler_def] s1
      w2 [unfolded demo_scheduler_def]] w1 w2 s1
  show ?thesis by blast
qed

text \<open>A database whose only project is disabled.\<close>

definition demo_disabled :: Project where
  "demo_disabled = demo_project\<lparr>p_Enabled := False\<rparr>"

definition demo_world_disabled :: World where
  "demo_world_disabled = demo_world\<lparr>w_db :=
     snd (CreateProject demo_codec (Inr ''0123456789ab'') 7 demo_disabled empty_db)\<rparr>"

lemma demo_disabled_list:
  "\<exists>p. ListProjects demo_codec (w_db demo_world_disabled) = Inr [p] \<and> p_ID p = ''app'' \<and> \<not> p_Enabled p"
proof -
  let ?r = "Inr ''0123456789ab''"
  have env: "env_codec_ok demo_codec (env_entries demo_disabled)" by (rule demo_env_codec)
  obtain v where v: "secret_encrypt demo_codec ?r (projectEnvAAD ''app'')
      (cd_marshal_env demo_codec (env_entries demo_disabled)) = Inr v"
    using secret_encrypt_rand_ok [OF demo_rand] by blast
  obtain m where m: "decodeProjectEnv demo_codec ''app'' v = Inr m"
    using decode_encrypted_env [OF demo_aead demo_rand env v] by blast
  obtain keys where keys: "scanSecretEnvKeys (marshalSecretEnvKeys (env_entries demo_disabled)
      (p_SecretEnvKeys demo_disabled)) = Inr keys"
    by (cases "marshalSecretEnvKeys (env_entries demo_disabled) (p_SecretEnvKeys demo_disabled)")
      (auto simp: scanSecretEnvKeys_def marshalSecretEnvKeys_def Let_def split: if_splits)
  show ?thesis
    using v m keys
    by (simp add: ListProjects_def demo_world_disabled_def CreateProject_def empty_db_def sql_ordered_def
        sql_insert_def scanProject_def demo_disabled_def demo_polled Let_def project_columns_def
        table_keys_def)
qed

lemma reconcileAll_leaves_idle_witness:
  "untouched ''app'' (w_db demo_world_disabled)
     (w_db (snd (run_state (reconcileAll demo_scheduler TriggerPoll) demo_world_disabled)))"
proof -
  obtain p where p: "ListProjects demo_codec (w_db demo_world_disabled) = Inr [p]" "\<not> p_Enabled p"
    using demo_disabled_list by blast
  have "db_ok (w_db demo_world_disabled)" "w_locks demo_world_disabled = []"
    by (simp_all add: demo_world_disabled_def db_ok_CreateProject db_ok_empty demo_world_def)
  from reconcileAll_leaves_idle [OF this p(1) _ prod.collapse [symmetric], of "''app''"] p(2)
  show ?thesis by (simp add: demo_scheduler_def)
qed

lemma tick_skips_recent_witness:
  "run_state (reconcile_loop demo_scheduler TriggerPoll [demo_project])
     (demo_world\<lparr>w_db := UpdateState (demo_state\<lparr>st_LastCheckAt := Some 0\<rparr>) demo_db\<rparr>) =
   ((), demo_world\<lparr>w_db := UpdateState (demo_state\<lparr>st_LastCheckAt := Some 0\<rparr>) demo_db, w_tick := 2\<rparr>)"
proof -
  let ?s = "demo_state\<lparr>st_LastCheckAt := Some 0\<rparr>"
  let ?w = "demo_world\<lparr>w_db := UpdateState ?s demo_db\<rparr>"
  have p: "p_Enabled demo_project" "PolledServices demo_project \<noteq> []" "p_PollInterval demo_project = 60"
    by (simp_all add: demo_polled) (simp_all add: demo_project_def)
  have s: "GetState (w_db ?w) (p_ID demo_project) = Inr ?s"
    by (simp add: demo_polled GetState_def UpdateState_def map_of_sql_update demo_db_def
        demo_state_def initial_state_def fmtTime_def rfc3339_def)
  have e: "\<not> env_done (dep_env (demo_deployer True)) (w_tick ?w)"
      "env_now (dep_env (demo_deployer True)) (Suc (w_tick ?w)) - 0 < p_PollInterval demo_project * 1000000000"
    unfolding p(3) by (simp_all add: demo_deployer_def demo_env_def demo_world_def)
  have "int64_ok (p_PollInterval demo_project * 1000000000)" unfolding p(3) by (simp add: int64_ok_def)
  from tick_skips_recent [OF p(1,2) s _ e(1) this e(2)] show ?thesis
    by (simp add: demo_scheduler_def demo_world_def numeral_2_eq_2)
qed

lemma scheduler_keeps_db_ok_witness:
  "db_ok (w_db (snd (run_state (scheduler_run demo_scheduler 3) demo_world)))"
  using scheduler_keeps_db_ok [OF demo_world_ok(1) prod.collapse [symmetric]]
  by (simp add: demo_scheduler_def)

end
