(* ===== verification/Web_Secrets.thy ===== *)
theory Web_Secrets
  imports Database
begin

text \<open>
  \<open>internal/web/project_secrets.go\<close>: what the API shows of a project's environment, and how an
  edited project gets back the values it was never shown. An environment map is an association
  list with distinct keys; its order stands for the order in which Go happens to iterate, which
  only decides which of several errors is reported.
\<close>

section \<open>Operations\<close>

definition redactedSecret :: string where
  "redactedSecret = ''********''"

text \<open>\<open>secretEnvKeySet\<close>: the keys of a list, where nil has none.\<close>

definition secretEnvKeySet :: "string list option \<Rightarrow> string list" where
  "secretEnvKeySet keys = (case keys of None \<Rightarrow> [] | Some ks \<Rightarrow> ks)"

definition redactedEnvVars :: "smap option \<Rightarrow> string list option \<Rightarrow> smap option" where
  "redactedEnvVars env secretKeys =
     (case env of
        None \<Rightarrow> None
      | Some m \<Rightarrow>
          Some (map (\<lambda>(key, value).
            (key, if key \<in> set (secretEnvKeySet secretKeys) then redactedSecret else value)) m))"

text \<open>\<open>append([]string(nil), keys...)\<close> is nil when there is nothing to append.\<close>

definition append_to_nil :: "string list option \<Rightarrow> string list option" where
  "append_to_nil keys = (case keys of Some (k # ks) \<Rightarrow> Some (k # ks) | _ \<Rightarrow> None)"

definition redactedProject :: "Project \<Rightarrow> Project" where
  "redactedProject p =
     p\<lparr>p_EnvVars := redactedEnvVars (p_EnvVars p) (p_SecretEnvKeys p),
       p_SecretEnvKeys := append_to_nil (p_SecretEnvKeys p)\<rparr>"

definition mapValue :: "Project option \<Rightarrow> string \<Rightarrow> string option" where
  "mapValue p key = (case p of None \<Rightarrow> None | Some q \<Rightarrow> map_of (env_entries q) key)"

text \<open>The keys that are secret in an existing project.\<close>

definition existing_secrets :: "Project option \<Rightarrow> string list" where
  "existing_secrets ex = (case ex of None \<Rightarrow> [] | Some e \<Rightarrow> secretEnvKeySet (p_SecretEnvKeys e))"

definition sortedSecretEnvKeys :: "string list \<Rightarrow> string list" where
  "sortedSecretEnvKeys ks = sort (remdups ks)"

definition copyEnvVars :: "smap option \<Rightarrow> smap option" where
  "copyEnvVars env = map_option (map (\<lambda>(k, v). (k, v))) env"

text \<open>The environment to be resolved: nil means not supplied.\<close>

definition supplied_env :: "Project \<Rightarrow> Project option \<Rightarrow> smap option" where
  "supplied_env p ex =
     (case p_EnvVars p of
        Some m \<Rightarrow> Some m
      | None \<Rightarrow> (case ex of Some e \<Rightarrow> copyEnvVars (p_EnvVars e) | None \<Rightarrow> Some []))"

text \<open>\<open>desiredSecrets\<close>: the given classification, or the safe default.\<close>

fun check_classified :: "smap \<Rightarrow> string list \<Rightarrow> unit result" where
  "check_classified m [] = Inr ()"
| "check_classified m (k # ks) =
     (if map_of m k = None then Inl (''secret environment key '' @ Quote k @ '' has no env_vars entry'')
      else check_classified m ks)"

definition desired_secrets :: "smap \<Rightarrow> string list option \<Rightarrow> Project option \<Rightarrow> string list result" where
  "desired_secrets m keys ex =
     (case keys of
        None \<Rightarrow> Inr (filter (\<lambda>k. ex = None \<or> mapValue ex k = None \<or> k \<in> set (existing_secrets ex))
          (map fst m))
      | Some ks \<Rightarrow> (case check_classified m ks of Inl e \<Rightarrow> Inl e | Inr u \<Rightarrow> Inr ks))"

text \<open>One variable: a placeholder is replaced by the existing value.\<close>

definition resolve_var :: "string list \<Rightarrow> Project option \<Rightarrow> string \<Rightarrow> string \<Rightarrow> string result" where
  "resolve_var desired ex key value =
     (if value \<noteq> redactedSecret then Inr value
      else if key \<notin> set desired then
        (if key \<in> set (existing_secrets ex)
         then (case mapValue ex key of
                 None \<Rightarrow> Inl (''environment variable '' @ Quote key @ '' has no existing value to preserve'')
               | Some old \<Rightarrow> Inr old)
         else Inr value)
      else if key \<notin> set (existing_secrets ex)
      then Inl (''environment variable '' @ Quote key @ '' has a redacted value; provide the secret'')
      else (case mapValue ex key of
              None \<Rightarrow> Inl (''environment variable '' @ Quote key @ '' has no existing secret to preserve'')
            | Some old \<Rightarrow> Inr old))"

fun resolve_vars :: "string list \<Rightarrow> Project option \<Rightarrow> smap \<Rightarrow> smap result" where
  "resolve_vars desired ex [] = Inr []"
| "resolve_vars desired ex ((key, value) # m) =
     (case resolve_var desired ex key value of
        Inl e \<Rightarrow> Inl e
      | Inr v \<Rightarrow>
          (case resolve_vars desired ex m of Inl e \<Rightarrow> Inl e | Inr m' \<Rightarrow> Inr ((key, v) # m')))"

definition resolveProjectSecrets :: "Project \<Rightarrow> Project option \<Rightarrow> Project result" where
  "resolveProjectSecrets p ex =
     (let env = supplied_env p ex; m = (case env of None \<Rightarrow> [] | Some m \<Rightarrow> m) in
      case desired_secrets m (p_SecretEnvKeys p) ex of
        Inl e \<Rightarrow> Inl e
      | Inr desired \<Rightarrow>
          (case resolve_vars desired ex m of
             Inl e \<Rightarrow> Inl e
           | Inr m' \<Rightarrow>
               Inr (p\<lparr>p_EnvVars := map_option (\<lambda>_. m') env,
                      p_SecretEnvKeys := Some (sortedSecretEnvKeys desired)\<rparr>)))"

definition declassifiedSecretEnvKeys :: "Project option \<Rightarrow> Project \<Rightarrow> string list" where
  "declassifiedSecretEnvKeys ex updated =
     (case ex of
        None \<Rightarrow> []
      | Some e \<Rightarrow>
          sort (remdups (filter (\<lambda>key. key \<in> fst ` set (env_entries updated) \<and>
              key \<notin> set (secretEnvKeySet (p_SecretEnvKeys updated)))
            (secretEnvKeySet (p_SecretEnvKeys e)))))"

section \<open>Lemmas\<close>

lemma resolve_vars_keys: "resolve_vars desired ex m = Inr m' \<Longrightarrow> map fst m' = map fst m"
  by (induction m arbitrary: m') (auto split: sum.splits)

lemma resolve_vars_at:
  "resolve_vars desired ex m = Inr m' \<Longrightarrow> map_of m k = Some v \<Longrightarrow>
   \<exists>v'. resolve_var desired ex k v = Inr v' \<and> map_of m' k = Some v'"
  by (induction m arbitrary: m') (auto split: sum.splits if_splits)

lemma resolve_vars_same:
  "list_all (\<lambda>(k, v). resolve_var desired ex k (f k v) = Inr v) m \<Longrightarrow>
   resolve_vars desired ex (map (\<lambda>(k, v). (k, f k v)) m) = Inr m"
  by (induction m) auto

lemma check_classified_ok:
  "check_classified m ks = Inr () \<longleftrightarrow> set ks \<subseteq> fst ` set m"
  by (induction ks) (auto simp: map_of_eq_None)

lemma map_of_redacted:
  "map_of (map (\<lambda>(k, v). (k, f k v)) m) k = map_option (f k) (map_of m k)"
  by (induction m) auto

lemma sortedSecretEnvKeys_set [simp]: "set (sortedSecretEnvKeys ks) = set ks"
  by (simp add: sortedSecretEnvKeys_def)

lemma desired_secrets_subset:
  "desired_secrets m keys ex = Inr ks \<Longrightarrow> set ks \<subseteq> fst ` set m"
  using check_classified_ok [of m]
  by (auto simp: desired_secrets_def split: option.splits sum.splits)

section \<open>Properties\<close>

text \<open>
  Property C14. What the API shows of a project does not depend on its secret values: two
  projects that differ in those only are shown alike.
\<close>

theorem redacted_reveals_nothing:
  assumes "list_all2 (\<lambda>(k, v) (k', v'). k = k' \<and> (k \<in> set (secretEnvKeySet (p_SecretEnvKeys p)) \<or> v = v')) m m'"
  shows "redactedProject (p\<lparr>p_EnvVars := Some m\<rparr>) = redactedProject (p\<lparr>p_EnvVars := Some m'\<rparr>)"
proof -
  have "redactedEnvVars (Some m) (p_SecretEnvKeys p) = redactedEnvVars (Some m') (p_SecretEnvKeys p)"
    using assms by (induction rule: list_all2_induct) (auto simp: redactedEnvVars_def)
  then show ?thesis by (simp add: redactedProject_def)
qed

lemma redacted_reveals_nothing_witness:
  "redactedProject (zero_project\<lparr>p_SecretEnvKeys := Some [''K''], p_EnvVars := Some [(''A'', ''1''), (''K'', ''x'')]\<rparr>) =
   redactedProject (zero_project\<lparr>p_SecretEnvKeys := Some [''K''], p_EnvVars := Some [(''A'', ''1''), (''K'', ''y'')]\<rparr>)"
  using redacted_reveals_nothing [of "zero_project\<lparr>p_SecretEnvKeys := Some [''K'']\<rparr>"
      "[(''A'', ''1''), (''K'', ''x'')]" "[(''A'', ''1''), (''K'', ''y'')]"]
  by (simp add: secretEnvKeySet_def)

text \<open>
  Saving a project as it was shown gives it back with every secret value: the
  placeholders are resolved against the stored project, and the classification is kept.
\<close>

lemma resolve_redacted:
  assumes "p_EnvVars p = Some m" "distinct (map fst m)"
    and "set (secretEnvKeySet (p_SecretEnvKeys p)) \<subseteq> fst ` set m"
  shows "resolveProjectSecrets (redactedProject p) (Some p) =
    Inr (p\<lparr>p_SecretEnvKeys := Some (sortedSecretEnvKeys (secretEnvKeySet (p_SecretEnvKeys p)))\<rparr>)"
proof -
  let ?ks = "secretEnvKeySet (p_SecretEnvKeys p)"
  let ?f = "\<lambda>k v. if k \<in> set ?ks then redactedSecret else v"
  let ?m = "map (\<lambda>(k, v). (k, ?f k v)) m"
  have keys: "fst ` set ?m = fst ` set m" by force
  have desired: "desired_secrets ?m (append_to_nil (p_SecretEnvKeys p)) (Some p) = Inr ?ks"
  proof (cases "?ks = []")
    case True
    then have "append_to_nil (p_SecretEnvKeys p) = None"
      by (auto simp: append_to_nil_def secretEnvKeySet_def split: option.splits list.splits)
    moreover have "filter (\<lambda>k. mapValue (Some p) k = None) (map fst ?m) = []"
      using assms(1) by (force simp: filter_empty_conv mapValue_def env_entries_def map_of_eq_None)
    ultimately show ?thesis using True by (simp add: desired_secrets_def existing_secrets_def)
  next
    case False
    then have "append_to_nil (p_SecretEnvKeys p) = Some ?ks"
      by (auto simp: append_to_nil_def secretEnvKeySet_def split: option.splits list.splits)
    moreover have "check_classified ?m ?ks = Inr ()"
      unfolding check_classified_ok keys by (rule assms(3))
    ultimately show ?thesis by (simp add: desired_secrets_def)
  qed
  have "resolve_vars ?ks (Some p) ?m = Inr m"
  proof (rule resolve_vars_same, unfold list_all_iff, clarify)
    fix k v assume "(k, v) \<in> set m"
    with assms(2) have "map_of m k = Some v" by simp
    with assms(1) show "resolve_var ?ks (Some p) k (?f k v) = Inr v"
      by (simp add: resolve_var_def existing_secrets_def mapValue_def env_entries_def)
  qed
  with desired assms(1) show ?thesis
    by (simp add: resolveProjectSecrets_def redactedProject_def redactedEnvVars_def supplied_env_def Let_def)
qed

theorem redacted_roundtrip:
  assumes "p_EnvVars p = Some m" "distinct (map fst m)"
    and "set (secretEnvKeySet (p_SecretEnvKeys p)) \<subseteq> fst ` set m"
  shows "resolveProjectSecrets (redactedProject p) (Some p) =
    Inr (p\<lparr>p_SecretEnvKeys := Some (sortedSecretEnvKeys (secretEnvKeySet (p_SecretEnvKeys p)))\<rparr>)"
  using assms by (rule resolve_redacted)

lemma redacted_roundtrip_witness:
  "resolveProjectSecrets (redactedProject (zero_project\<lparr>p_EnvVars := Some [(''A'', ''1''), (''K'', ''x'')],
      p_SecretEnvKeys := Some [''K'']\<rparr>))
     (Some (zero_project\<lparr>p_EnvVars := Some [(''A'', ''1''), (''K'', ''x'')], p_SecretEnvKeys := Some [''K'']\<rparr>)) =
   Inr (zero_project\<lparr>p_EnvVars := Some [(''A'', ''1''), (''K'', ''x'')], p_SecretEnvKeys := Some [''K'']\<rparr>)"
  using redacted_roundtrip [of "zero_project\<lparr>p_EnvVars := Some [(''A'', ''1''), (''K'', ''x'')],
      p_SecretEnvKeys := Some [''K'']\<rparr>" "[(''A'', ''1''), (''K'', ''x'')]"]
  by (simp add: secretEnvKeySet_def sortedSecretEnvKeys_def)

text \<open>
  A saved project never stores a placeholder as a secret: where a placeholder was
  submitted for a variable that is secret afterwards, the value is the one the existing project
  has for it as a secret. Every other submitted value is stored as it is.
\<close>

theorem placeholder_resolved:
  assumes "resolveProjectSecrets p ex = Inr p'" "p_EnvVars p = Some m" "map_of m k = Some v"
  shows "if v = redactedSecret \<and> k \<in> set (secretEnvKeySet (p_SecretEnvKeys p'))
    then \<exists>e. ex = Some e \<and> k \<in> set (secretEnvKeySet (p_SecretEnvKeys e)) \<and>
      map_of (env_entries p') k = map_of (env_entries e) k \<and> map_of (env_entries e) k \<noteq> None
    else v \<noteq> redactedSecret \<longrightarrow> map_of (env_entries p') k = Some v"
proof -
  obtain desired m' where d: "desired_secrets m (p_SecretEnvKeys p) ex = Inr desired"
    and r: "resolve_vars desired ex m = Inr m'"
    and p': "p' = p\<lparr>p_EnvVars := Some m', p_SecretEnvKeys := Some (sortedSecretEnvKeys desired)\<rparr>"
    using assms(1,2) by (auto simp: resolveProjectSecrets_def supplied_env_def Let_def split: sum.splits)
  obtain v' where v': "resolve_var desired ex k v = Inr v'" "map_of m' k = Some v'"
    using resolve_vars_at [OF r assms(3)] by blast
  show ?thesis
    using v' by (auto simp: p' secretEnvKeySet_def [of "Some _"] env_entries_def [of "p\<lparr>p_EnvVars := Some m', p_SecretEnvKeys := Some (sortedSecretEnvKeys desired)\<rparr>"]
        resolve_var_def existing_secrets_def mapValue_def split: if_splits option.splits)
qed

lemma placeholder_resolved_witness:
  "\<exists>p'. resolveProjectSecrets (zero_project\<lparr>p_EnvVars := Some [(''K'', redactedSecret)], p_SecretEnvKeys := Some [''K'']\<rparr>)
     (Some (zero_project\<lparr>p_EnvVars := Some [(''K'', ''x'')], p_SecretEnvKeys := Some [''K'']\<rparr>)) = Inr p' \<and>
   map_of (env_entries p') ''K'' = Some ''x''"
proof -
  let ?p = "zero_project\<lparr>p_EnvVars := Some [(''K'', redactedSecret)], p_SecretEnvKeys := Some [''K'']\<rparr>"
  let ?e = "zero_project\<lparr>p_EnvVars := Some [(''K'', ''x'')], p_SecretEnvKeys := Some [''K'']\<rparr>"
  obtain p' where p': "resolveProjectSecrets ?p (Some ?e) = Inr p'" "p_SecretEnvKeys p' = Some [''K'']"
    by (simp add: resolveProjectSecrets_def supplied_env_def desired_secrets_def resolve_var_def
        existing_secrets_def secretEnvKeySet_def mapValue_def env_entries_def sortedSecretEnvKeys_def)
  from placeholder_resolved [OF p'(1), of "[(''K'', redactedSecret)]" "''K''" redactedSecret] p'
  show ?thesis by (simp add: secretEnvKeySet_def env_entries_def [of ?e])
qed

text \<open>
  A value that was secret can only become visible through a declassification that
  is logged: if the saved project shows a variable that was secret before, the variable is among
  the declassified keys.
\<close>

theorem revealed_is_declassified:
  assumes "k \<in> set (secretEnvKeySet (p_SecretEnvKeys e))"
    and "map_of (env_entries (redactedProject p')) k = Some v" "v \<noteq> redactedSecret"
  shows "k \<in> set (declassifiedSecretEnvKeys (Some e) p')"
proof -
  obtain m where m: "p_EnvVars p' = Some m"
    using assms(2) by (cases "p_EnvVars p'") (auto simp: env_entries_def redactedProject_def redactedEnvVars_def)
  have r: "map_of (map (\<lambda>(key, value). (key, if key \<in> set (secretEnvKeySet (p_SecretEnvKeys p'))
      then redactedSecret else value)) m) k = Some v"
    using assms(2) m by (simp add: env_entries_def redactedProject_def redactedEnvVars_def)
  have "k \<notin> set (secretEnvKeySet (p_SecretEnvKeys p'))" "map_of m k = Some v"
    using r assms(3) by (auto simp: map_of_redacted split: if_splits)
  with assms(1) m show ?thesis
    by (auto simp: declassifiedSecretEnvKeys_def env_entries_def dest: map_of_in_keys)
qed

lemma revealed_is_declassified_witness:
  "''K'' \<in> set (declassifiedSecretEnvKeys
     (Some (zero_project\<lparr>p_EnvVars := Some [(''K'', ''x'')], p_SecretEnvKeys := Some [''K'']\<rparr>))
     (zero_project\<lparr>p_EnvVars := Some [(''K'', ''x'')], p_SecretEnvKeys := Some []\<rparr>))"
  by (rule revealed_is_declassified [where v = "''x''"])
     (simp_all add: secretEnvKeySet_def env_entries_def redactedProject_def redactedEnvVars_def redactedSecret_def)

end
