(* ===== verification/Project_Rules.thy ===== *)
theory Project_Rules
  imports Web_Secrets Go_Path
begin

text \<open>
  The rules every project goes through before it is stored (\<open>internal/web/api.go\<close>,
  \<open>validateAndDefaultProject\<close> and its helpers; \<open>isValidID\<close> of \<open>server.go\<close>): defaults, the two
  conversions of old formats, the checks of services and of the backup spec, and the
  normalisation of volume paths. The YAML reader of the old custom format is a parameter.
\<close>

section \<open>Operations\<close>

definition id_char :: "char \<Rightarrow> bool" where
  "id_char c \<longleftrightarrow> CHR ''a'' \<le> c \<and> c \<le> CHR ''z'' \<or> CHR ''0'' \<le> c \<and> c \<le> CHR ''9'' \<or> c = CHR ''-''"

definition isValidID :: "string \<Rightarrow> bool" where
  "isValidID i \<longleftrightarrow> list_all id_char i \<and> 0 < length i \<and> hd i \<noteq> CHR ''-'' \<and> last i \<noteq> CHR ''-''"

definition normaliseVolumeHostPath :: "string \<Rightarrow> string \<Rightarrow> string" where
  "normaliseVolumeHostPath p stackPath =
     (if p = '''' then ''''
      else let cleaned = Clean p in
      if IsAbs cleaned \<and> stackPath \<noteq> '''' then
        (case Rel (Clean stackPath) cleaned of
           Inl err \<Rightarrow> cleaned
         | Inr rel \<Rightarrow> if \<not> HasPrefix rel ''..'' \<and> rel \<noteq> ''.'' then rel else cleaned)
      else cleaned)"

text \<open>The fields that \<open>custom_compose\<close> may hold in the old format.\<close>

record LegacyConfig =
  lc_RegistryImage :: string
  lc_ImageTag :: string
  lc_PullPolicy :: string
  lc_Ports :: "PortMapping list"
  lc_Volumes :: "VolumeMount list"
  lc_ExtraOptions :: string
  lc_Services :: "ServiceConfig list"
  lc_EnvVars :: smap

definition default_fields :: "string \<Rightarrow> Project \<Rightarrow> Project" where
  "default_fields stackRoot p =
     p\<lparr>p_ImageTag := (if p_ImageTag p = '''' then ''latest'' else p_ImageTag p),
       p_PollInterval := (if p_PollInterval p \<le> 0 then 300 else p_PollInterval p),
       p_StackPath := (if p_StackPath p = '''' then stackRoot @ ''/'' @ p_ID p else p_StackPath p)\<rparr>"

definition legacy_applies :: "Project \<Rightarrow> bool" where
  "legacy_applies p \<longleftrightarrow> p_Services p = [] \<and> p_RegistryImage p \<noteq> ''''"

definition legacy_service :: "Project \<Rightarrow> Project" where
  "legacy_service p =
     (if legacy_applies p
      then p\<lparr>p_Services := [zero_service\<lparr>svc_Name := p_ID p, svc_RegistryImage := p_RegistryImage p,
             svc_ImageTag := p_ImageTag p, svc_Polled := True, svc_Ports := p_Ports p,
             svc_Volumes := p_Volumes p, svc_ExtraOptions := p_ExtraOptions p\<rparr>]\<rparr>
      else p)"

definition legacy_services :: "Project \<Rightarrow> LegacyConfig \<Rightarrow> ServiceConfig list" where
  "legacy_services p sc =
     (if lc_Services sc \<noteq> [] then lc_Services sc
      else if lc_RegistryImage sc \<noteq> '''' then
        [zero_service\<lparr>svc_Name := p_ID p, svc_RegistryImage := lc_RegistryImage sc,
           svc_ImageTag := (if lc_ImageTag sc = '''' then ''latest'' else lc_ImageTag sc),
           svc_Polled := True, svc_PullPolicy := lc_PullPolicy sc, svc_Ports := lc_Ports sc,
           svc_Volumes := lc_Volumes sc, svc_ExtraOptions := lc_ExtraOptions sc\<rparr>]
      else p_Services p)"

definition legacy_env :: "Project \<Rightarrow> LegacyConfig \<Rightarrow> smap option" where
  "legacy_env p sc =
     (if lc_EnvVars sc \<noteq> []
      then Some (foldl (\<lambda>m (k, v). AList.update k v m) (env_entries p) (lc_EnvVars sc))
      else p_EnvVars p)"

definition convert_custom :: "(string \<Rightarrow> LegacyConfig option) \<Rightarrow> Project \<Rightarrow> Project" where
  "convert_custom yaml p =
     (if p_ConfigMode p = ConfigModeCustom \<and> p_CustomCompose p \<noteq> '''' \<and> p_Services p = []
      then (case yaml (p_CustomCompose p) of
              None \<Rightarrow> p
            | Some sc \<Rightarrow> p\<lparr>p_Services := legacy_services p sc, p_EnvVars := legacy_env p sc\<rparr>)
           \<lparr>p_ConfigMode := ConfigModeForm, p_CustomCompose := ''''\<rparr>
      else p)"

definition default_service :: "string \<Rightarrow> ServiceConfig \<Rightarrow> ServiceConfig" where
  "default_service stackPath svc =
     svc\<lparr>svc_ImageTag := (if svc_ImageTag svc = '''' then ''latest'' else svc_ImageTag svc),
         svc_PullPolicy := (if svc_PullPolicy svc = '''' then ''always'' else svc_PullPolicy svc),
         svc_Volumes := map (\<lambda>v. v\<lparr>vm_HostPath := normaliseVolumeHostPath (vm_HostPath v) stackPath\<rparr>)
           (svc_Volumes svc)\<rparr>"

text \<open>The loop over the services, from index \<open>i\<close> on; it stops at the first without a name.\<close>

fun validate_services :: "string \<Rightarrow> nat \<Rightarrow> ServiceConfig list \<Rightarrow> ServiceConfig list result" where
  "validate_services stackPath i [] = Inr []"
| "validate_services stackPath i (svc # svcs) =
     (if svc_Name svc = '''' then Inl (''service at index '' @ nat_text i @ '' has no name'')
      else case validate_services stackPath (Suc i) svcs of
        Inl e \<Rightarrow> Inl e
      | Inr svcs' \<Rightarrow> Inr (default_service stackPath svc # svcs'))"

definition mount_in :: "string \<Rightarrow> ServiceConfig \<Rightarrow> ServiceConfig" where
  "mount_in output svc =
     (if list_ex (\<lambda>v. Clean (vm_ContainerPath v) = Clean output) (svc_Volumes svc) then svc
      else svc\<lparr>svc_Volumes := svc_Volumes svc @
        [\<lparr>vm_HostPath = ''backups'', vm_ContainerPath = output, vm_ReadOnly = False\<rparr>]\<rparr>)"

text \<open>The first service with the given name gets a mount at the output path, unless it has one.\<close>

fun inject_mount :: "string \<Rightarrow> string \<Rightarrow> ServiceConfig list \<Rightarrow> ServiceConfig list option" where
  "inject_mount name output [] = None"
| "inject_mount name output (svc # svcs) =
     (if svc_Name svc = name then Some (mount_in output svc # svcs)
      else map_option (\<lambda>svcs'. svc # svcs') (inject_mount name output svcs))"

definition validateAndInjectBackup :: "Project \<Rightarrow> Project result" where
  "validateAndInjectBackup p =
     (case p_Backup p of
        None \<Rightarrow> Inr p
      | Some b \<Rightarrow>
          if bs_Service b = '''' then Inl ''backup.service required''
          else if bs_BackupCommand b = '''' then Inl ''backup.backup_command required''
          else if bs_OutputPath b = '''' then Inl ''backup.output_path required''
          else if \<not> IsAbs (bs_OutputPath b)
          then Inl (''backup.output_path must be absolute (got '' @ Quote (bs_OutputPath b) @ '')'')
          else (case inject_mount (bs_Service b) (bs_OutputPath b) (p_Services p) of
             None \<Rightarrow> Inl (''backup.service '' @ Quote (bs_Service b) @ '' not found among services'')
           | Some svcs \<Rightarrow> Inr (p\<lparr>p_Services := svcs\<rparr>)))"

text \<open>
  A converted legacy service shares its volume slice with the project, so that the paths are
  normalised in both.
\<close>

definition shared_volumes :: "Project \<Rightarrow> string \<Rightarrow> VolumeMount list" where
  "shared_volumes p stackPath =
     (if legacy_applies p
      then map (\<lambda>v. v\<lparr>vm_HostPath := normaliseVolumeHostPath (vm_HostPath v) stackPath\<rparr>) (p_Volumes p)
      else p_Volumes p)"

definition validateAndDefaultProject ::
    "string \<Rightarrow> (string \<Rightarrow> LegacyConfig option) \<Rightarrow> Project \<Rightarrow> bool \<Rightarrow> Project result" where
  "validateAndDefaultProject stackRoot yaml p isNew =
     (if isNew \<and> p_ID p = '''' then Inl ''project ID is required''
      else if isNew \<and> \<not> isValidID (p_ID p)
      then Inl ''project ID must be lowercase alphanumeric with hyphens only''
      else let volumes = shared_volumes p (p_StackPath (default_fields stackRoot p));
          p = convert_custom yaml (legacy_service (default_fields stackRoot p)) in
        case validate_services (p_StackPath p) 0 (p_Services p) of
          Inl e \<Rightarrow> Inl e
        | Inr svcs \<Rightarrow> validateAndInjectBackup (p\<lparr>p_Services := svcs, p_Volumes := volumes\<rparr>))"

section \<open>Identifiers and paths\<close>

lemma id_char_not_special [simp]: "\<not> id_char CHR ''/''" "\<not> id_char CHR ''.''"
  by code_simp+

lemma isValidID_plain: "isValidID i \<Longrightarrow> plain_comp i"
  by (auto simp: isValidID_def plain_comp_def comp_ok_def list_all_iff)

lemma path_comps_append:
  assumes "a \<noteq> ''''" "plain_comp i"
  shows "path_comps (a @ CHR ''/'' # i) = path_comps a @ [i]" "IsAbs (a @ CHR ''/'' # i) = IsAbs a"
proof -
  show abs: "IsAbs (a @ CHR ''/'' # i) = IsAbs a"
    using assms(1) by (cases a) (auto simp: IsAbs_def)
  have "split_on CHR ''/'' i = [i]"
    using assms(2) by (intro split_on_no_sep) (auto simp: plain_comp_def comp_ok_def)
  then have "clean_stack (IsAbs a) [] (a @ CHR ''/'' # i) = i # clean_stack (IsAbs a) [] a"
    using assms(2) by (simp add: clean_stack_append clean_stack_def [of _ _ i] foldl_clean_plain del: foldl.simps)
  with abs show "path_comps (a @ CHR ''/'' # i) = path_comps a @ [i]"
    by (simp add: path_comps_def)
qed

lemma drop_common_eq: "drop_common bs ts = ([], r) \<Longrightarrow> ts = bs @ r"
  by (induction bs ts rule: drop_common.induct) (auto split: if_splits)

lemma path_comps_plain: "IsAbs p \<Longrightarrow> list_all plain_comp (path_comps p)"
proof -
  assume "IsAbs p"
  with path_comps_ok [of p] have "list_all plain_comp (rev (path_comps p))"
    by (auto simp: stack_ok_def)
  then show ?thesis by simp
qed

lemma rel_comps_Clean: "IsAbs p \<Longrightarrow> rel_comps (Clean p) = path_comps p"
  using path_comps_all_ok [of p] by (simp add: Clean_render rel_comps_render)

text \<open>What \<open>Rel\<close> answers when the target is below the base.\<close>

lemma Rel_below:
  assumes "Rel b t = Inr r" "IsAbs t" "IsAbs b" "\<not> HasPrefix r ''..''" "r \<noteq> ''.''"
  shows "below_path r \<and> Join2 b r = Clean t"
proof -
  obtain bs ts where d: "drop_common (path_comps b) (path_comps t) = (bs, ts)" by fastforce
  have nb: "Clean b \<noteq> ''.''" using assms(3) Clean_eq_dot [of b] by simp
  have r: "r = strings_Join (map (\<lambda>_. ''..'') bs @ ts) ''/''"
    using assms d nb by (auto simp: Rel_def Let_def rel_comps_Clean split: if_splits)
  have "bs = []"
  proof (rule ccontr)
    assume "bs \<noteq> []"
    then obtain b bs' where "bs = b # bs'" by (cases bs) auto
    then have "HasPrefix r ''..''" unfolding r
      by (cases "map (\<lambda>_. ''..'') bs' @ ts") auto
    with assms(4) show False by simp
  qed
  then have ts: "path_comps t = path_comps b @ ts" "r = strings_Join ts ''/''"
    using drop_common_eq d r by auto
  have plain: "list_all plain_comp ts" using path_comps_plain [OF assms(2)] ts(1) by simp
  have ne: "ts \<noteq> []"
  proof
    assume "ts = []"
    with ts have "Clean t = Clean b" using assms(2,3) by (simp add: Clean_render)
    with assms(1,5) show False by (simp add: Rel_def)
  qed
  have below: "below_path r" unfolding ts(2) by (rule below_pathI [OF ne plain])
  have "split_on CHR ''/'' r = ts"
    unfolding ts(2) using ne plain by (intro split_on_comps) (auto simp: list_all_iff plain_comp_def)
  then have "Join2 b r = render_path True (path_comps t)"
    using Join2_comps(2) [OF _ below, of b] assms(3) ts(1) by (cases b) (simp_all add: IsAbs_def)
  with below assms(2) show ?thesis by (simp add: Clean_render)
qed

text \<open>A normalised path that became relative names the same file under the stack.\<close>

lemma normalise_cases:
  assumes "p \<noteq> ''''"
  shows "normaliseVolumeHostPath p s = Clean p \<or>
    IsAbs p \<and> IsAbs s \<and> below_path (normaliseVolumeHostPath p s) \<and>
      Join2 (Clean s) (normaliseVolumeHostPath p s) = Clean p"
proof (cases "normaliseVolumeHostPath p s = Clean p")
  case False
  then obtain rel where rel: "IsAbs p" "s \<noteq> ''''" "Rel (Clean s) (Clean p) = Inr rel" "\<not> HasPrefix rel ''..''"
      "rel \<noteq> ''.''" "normaliseVolumeHostPath p s = rel"
    using assms by (auto simp: normaliseVolumeHostPath_def Let_def split: if_splits sum.splits)
  have "IsAbs s"
  proof (rule ccontr)
    assume "\<not> IsAbs s"
    then have "\<not> IsAbs (Clean s)" by simp
    then have "\<not> IsAbs (if Clean s = ''.'' then '''' else Clean s)" by (auto simp: IsAbs_def)
    moreover have "Clean p \<noteq> Clean s" using rel(1) \<open>\<not> IsAbs s\<close> IsAbs_Clean by metis
    ultimately show False using rel(1,3) by (simp add: Rel_def Let_def split: if_splits)
  qed
  then show ?thesis using Rel_below [OF rel(3)] rel by simp
qed simp

lemma normalise_idem: "normaliseVolumeHostPath (normaliseVolumeHostPath p s) s = normaliseVolumeHostPath p s"
proof (cases "p = ''''")
  case True
  then show ?thesis by (simp add: normaliseVolumeHostPath_def)
next
  case False
  have ne: "Clean p \<noteq> ''''" by (rule Clean_not_empty)
  show ?thesis
    using normalise_cases [OF False, of s]
  proof
    assume eq: "normaliseVolumeHostPath p s = Clean p"
    have "normaliseVolumeHostPath (Clean p) s = normaliseVolumeHostPath p s"
      using False ne by (simp add: normaliseVolumeHostPath_def)
    with eq show ?thesis by simp
  next
    assume "IsAbs p \<and> IsAbs s \<and> below_path (normaliseVolumeHostPath p s) \<and>
      Join2 (Clean s) (normaliseVolumeHostPath p s) = Clean p"
    then have "Clean (normaliseVolumeHostPath p s) = normaliseVolumeHostPath p s"
      "\<not> IsAbs (normaliseVolumeHostPath p s)" by (auto simp: below_path_def)
    then show ?thesis by (simp add: normaliseVolumeHostPath_def [of "normaliseVolumeHostPath p s"])
  qed
qed

section \<open>Validated projects\<close>

text \<open>What validation establishes, and what a second validation looks at.\<close>

definition service_ok :: "string \<Rightarrow> ServiceConfig \<Rightarrow> bool" where
  "service_ok stackPath svc \<longleftrightarrow>
     svc_Name svc \<noteq> '''' \<and> default_service stackPath svc = svc"

definition backup_ok :: "Project \<Rightarrow> bool" where
  "backup_ok p \<longleftrightarrow>
     (case p_Backup p of
        None \<Rightarrow> True
      | Some b \<Rightarrow> bs_Service b \<noteq> '''' \<and> bs_BackupCommand b \<noteq> '''' \<and> IsAbs (bs_OutputPath b) \<and>
          inject_mount (bs_Service b) (bs_OutputPath b) (p_Services p) = Some (p_Services p))"

definition project_ok :: "Project \<Rightarrow> bool" where
  "project_ok p \<longleftrightarrow>
     p_ImageTag p \<noteq> '''' \<and> 0 < p_PollInterval p \<and> p_StackPath p \<noteq> '''' \<and> \<not> legacy_applies p \<and>
     \<not> (p_ConfigMode p = ConfigModeCustom \<and> p_CustomCompose p \<noteq> '''' \<and> p_Services p = []) \<and>
     list_all (service_ok (p_StackPath p)) (p_Services p) \<and> backup_ok p"

lemma default_service_idem: "svc_Name (default_service s svc) = svc_Name svc"
    "default_service s (default_service s svc) = default_service s svc"
  by (simp_all add: default_service_def normalise_idem)

lemma validate_services_ok:
  "validate_services s i svcs = Inr svcs' \<Longrightarrow>
   svcs' = map (default_service s) svcs \<and> list_all (service_ok s) svcs'"
  by (induction svcs arbitrary: i svcs')
     (auto simp: service_ok_def default_service_idem split: if_splits sum.splits)

lemma validate_services_id:
  "list_all (service_ok s) svcs \<Longrightarrow> validate_services s i svcs = Inr svcs"
  by (induction svcs arbitrary: i) (auto simp: service_ok_def)

lemma normalise_backups: "normaliseVolumeHostPath ''backups'' s = ''backups''"
proof -
  have "Clean ''backups'' = ''backups''" "\<not> IsAbs ''backups''" by code_simp+
  then show ?thesis by (simp add: normaliseVolumeHostPath_def)
qed

lemma mount_in_Name: "svc_Name (mount_in output svc) = svc_Name svc"
  by (simp add: mount_in_def)

lemma mount_in_idem: "mount_in output (mount_in output svc) = mount_in output svc"
  by (simp add: mount_in_def)

lemma service_ok_mount:
  assumes "service_ok s svc"
  shows "service_ok s (mount_in output svc)"
proof (cases svc)
  case (fields name img tag polled policy platform ports vols opts ht target hosts)
  have "map (\<lambda>v. v\<lparr>vm_HostPath := normaliseVolumeHostPath (vm_HostPath v) s\<rparr>) vols = vols"
      "name \<noteq> ''''" "tag \<noteq> ''''" "policy \<noteq> ''''"
    using assms by (auto simp: service_ok_def default_service_def fields split: if_splits)
  then show ?thesis
    by (simp add: service_ok_def default_service_def mount_in_def fields normalise_backups)
qed

lemma inject_mount_ok:
  "inject_mount n out svcs = Some svcs' \<Longrightarrow> list_all (service_ok s) svcs \<Longrightarrow>
   list_all (service_ok s) svcs' \<and> inject_mount n out svcs' = Some svcs' \<and>
   svcs' \<noteq> [] \<and> svcs \<noteq> [] \<and> map svc_Name svcs' = map svc_Name svcs"
proof (induction svcs arbitrary: svcs')
  case (Cons svc svcs)
  show ?case
  proof (cases "svc_Name svc = n")
    case True
    then have "svcs' = mount_in out svc # svcs"
      using Cons.prems(1) by simp
    then show ?thesis
      using True Cons.prems(2) service_ok_mount [of s svc out] mount_in_idem [of out svc]
      by (simp add: mount_in_Name)
  next
    case False
    then show ?thesis using Cons.IH Cons.prems by auto
  qed
qed simp

lemma inject_mount_names:
  "inject_mount n out svcs = Some svcs' \<Longrightarrow> map svc_Name svcs' = map svc_Name svcs"
  by (induction svcs arbitrary: svcs') (auto simp: mount_in_Name split: if_splits)

lemma inject_mount_mounted:
  "inject_mount n out svcs = Some svcs' \<Longrightarrow>
   \<exists>svc \<in> set svcs'. svc_Name svc = n \<and> (\<exists>v \<in> set (svc_Volumes svc). Clean (vm_ContainerPath v) = Clean out)"
  by (induction svcs arbitrary: svcs') (auto simp: list_ex_iff mount_in_def split: if_splits)

lemma convert_custom_ok:
  assumes "p_StackPath p \<noteq> ''''"
  shows "let q = convert_custom yaml (legacy_service p) in
    p_ImageTag q = p_ImageTag p \<and> p_PollInterval q = p_PollInterval p \<and> p_StackPath q = p_StackPath p \<and>
    p_ID q = p_ID p \<and> p_Backup q = p_Backup p \<and> p_RegistryImage q = p_RegistryImage p \<and> \<not> legacy_applies q \<and>
    \<not> (p_ConfigMode q = ConfigModeCustom \<and> p_CustomCompose q \<noteq> '''' \<and> p_Services q = [])"
  by (auto simp: convert_custom_def legacy_service_def legacy_applies_def Let_def split: option.splits)

lemma default_fields_ok:
  "p_ImageTag (default_fields root p) \<noteq> ''''" "0 < p_PollInterval (default_fields root p)"
  "p_StackPath (default_fields root p) \<noteq> ''''" "p_ID (default_fields root p) = p_ID p"
  by (simp_all add: default_fields_def)

lemma validated_ok:
  assumes "validateAndDefaultProject root yaml p isNew = Inr p'"
  shows "project_ok p' \<and> p_ID p' = p_ID p \<and> p_StackPath p' = p_StackPath (default_fields root p) \<and>
    (isNew \<longrightarrow> isValidID (p_ID p'))"
proof -
  define q where "q = convert_custom yaml (legacy_service (default_fields root p))"
  let ?q = q
  define vols where "vols = shared_volumes p (p_StackPath (default_fields root p))"
  note q = convert_custom_ok [OF default_fields_ok(3), of yaml root p, unfolded Let_def, folded q_def]
  from assms obtain svcs where svcs: "validate_services (p_StackPath ?q) 0 (p_Services ?q) = Inr svcs"
    and b: "validateAndInjectBackup (?q\<lparr>p_Services := svcs, p_Volumes := vols\<rparr>) = Inr p'"
    and new: "isNew \<longrightarrow> isValidID (p_ID p)"
    unfolding validateAndDefaultProject_def Let_def q_def [symmetric] vols_def [symmetric]
    by (auto split: if_splits sum.splits)
  have ok: "list_all (service_ok (p_StackPath ?q)) svcs" "svcs = [] \<longleftrightarrow> p_Services ?q = []"
    using validate_services_ok [OF svcs] by auto
  obtain svcs' where p': "p' = ?q\<lparr>p_Services := svcs', p_Volumes := vols\<rparr>"
    and s': "list_all (service_ok (p_StackPath ?q)) svcs'" "(svcs' = []) = (svcs = [])"
    and bk: "backup_ok p'"
  proof (cases "p_Backup ?q")
    case None
    then have "p' = ?q\<lparr>p_Services := svcs, p_Volumes := vols\<rparr>"
      using b by (simp add: validateAndInjectBackup_def)
    moreover from this None have "backup_ok p'" by (simp add: backup_ok_def)
    ultimately show ?thesis using that ok(1) by blast
  next
    case (Some bs)
    with b obtain svcs' where i: "inject_mount (bs_Service bs) (bs_OutputPath bs) svcs = Some svcs'"
      and p': "p' = ?q\<lparr>p_Services := svcs', p_Volumes := vols\<rparr>"
      and c: "bs_Service bs \<noteq> ''''" "bs_BackupCommand bs \<noteq> ''''" "IsAbs (bs_OutputPath bs)"
      by (auto simp: validateAndInjectBackup_def split: if_splits option.splits)
    have "backup_ok p'" using inject_mount_ok [OF i ok(1)] c Some by (simp add: backup_ok_def p')
    with that p' inject_mount_ok [OF i ok(1)] show ?thesis by blast
  qed
  have "p_RegistryImage p' = p_RegistryImage q" "p_Services p' = [] \<longleftrightarrow> p_Services q = []"
    using s'(2) ok(2) by (simp_all add: p')
  moreover have "\<not> legacy_applies q" using q by blast
  ultimately have "\<not> legacy_applies p'" by (simp add: legacy_applies_def)
  then show ?thesis
    using q s' bk ok(2) new default_fields_ok [of root p] by (simp add: project_ok_def p')
qed

lemma validate_id:
  assumes "project_ok p" "isNew \<longrightarrow> isValidID (p_ID p)"
  shows "validateAndDefaultProject root yaml p isNew = Inr p"
proof -
  have d: "default_fields root p = p" using assms(1) by (simp add: project_ok_def default_fields_def)
  have l: "legacy_service p = p" using assms(1) by (simp add: project_ok_def legacy_service_def)
  have c: "convert_custom yaml p = p" using assms(1) by (auto simp: project_ok_def convert_custom_def)
  have v: "shared_volumes p s = p_Volumes p" for s using assms(1) by (simp add: project_ok_def shared_volumes_def)
  have s: "validate_services (p_StackPath p) 0 (p_Services p) = Inr (p_Services p)"
    using assms(1) by (simp add: project_ok_def validate_services_id)
  have b: "validateAndInjectBackup p = Inr p"
    using assms(1)
    by (auto simp: project_ok_def backup_ok_def validateAndInjectBackup_def IsAbs_def split: option.splits)
  have "p\<lparr>p_Services := p_Services p, p_Volumes := p_Volumes p\<rparr> = p" by simp
  with b have "validateAndInjectBackup (p\<lparr>p_Services := p_Services p, p_Volumes := p_Volumes p\<rparr>) = Inr p"
    by simp
  with assms(2) show ?thesis
    by (simp add: validateAndDefaultProject_def Let_def d l c v s) (auto simp: isValidID_def)
qed

section \<open>Properties\<close>

text \<open>
  Property C18. Validation is idempotent: what it accepts, it accepts again without a change, so
  that storing, exporting and saving a project does not drift.
\<close>

theorem validate_idempotent:
  assumes "validateAndDefaultProject root yaml p isNew = Inr p'"
  shows "validateAndDefaultProject root' yaml' p' isNew = Inr p'"
  using validated_ok [OF assms] validate_id by metis

definition demo_raw :: Project where
  "demo_raw = zero_project\<lparr>p_ID := ''app'', p_RegistryImage := ''r/app'',
     p_Volumes := [\<lparr>vm_HostPath = ''/s/app/data'', vm_ContainerPath = ''/data'', vm_ReadOnly = False\<rparr>],
     p_Backup := Some \<lparr>bs_Service = ''app'', bs_BackupCommand = ''dump'', bs_RestoreCommand = '''',
       bs_OutputPath = ''/out'', bs_OutputPattern = '''', bs_User = '''', bs_TimeoutSec = 0\<rparr>\<rparr>"

definition demo_validated :: "Project result" where
  "demo_validated = validateAndDefaultProject ''/s'' (\<lambda>s. None) demo_raw True"

lemma demo_validated_ok: "\<not> isl demo_validated"
  by code_simp

lemma demo_validated_Inr: "\<exists>p'. demo_validated = Inr p'"
  using demo_validated_ok by (metis sum.collapse(2))

lemma validate_idempotent_witness:
  "\<exists>p'. demo_validated = Inr p' \<and>
     validateAndDefaultProject ''/s'' (\<lambda>s. None) p' True = Inr p'"
proof -
  obtain p' where "demo_validated = Inr p'" using demo_validated_Inr by blast
  with validate_idempotent [of "''/s''" "\<lambda>s. None" demo_raw True p'] show ?thesis
    by (simp add: demo_validated_def)
qed

text \<open>
  Property C19. A new project without a stack path of its own gets a directory that is a direct
  child of the stack root, named by its id: a validated id cannot leave the root, and different
  ids get different directories.
\<close>

theorem stack_path_below_root:
  assumes "validateAndDefaultProject root yaml p True = Inr p'" "p_StackPath p = ''''" "root \<noteq> ''''"
  shows "path_comps (p_StackPath p') = path_comps root @ [p_ID p'] \<and>
    IsAbs (p_StackPath p') = IsAbs root \<and> plain_comp (p_ID p')"
proof -
  have "p_StackPath p' = root @ CHR ''/'' # p_ID p'"
    using validated_ok [OF assms(1)] assms(2) by (simp add: default_fields_def)
  moreover have "plain_comp (p_ID p')"
    using validated_ok [OF assms(1)] by (blast intro: isValidID_plain)
  ultimately show ?thesis using path_comps_append [OF assms(3)] by simp
qed

lemma stack_path_below_root_witness:
  "\<exists>p'. demo_validated = Inr p' \<and> path_comps (p_StackPath p') = path_comps ''/s'' @ [p_ID p']"
proof -
  obtain p' where p': "demo_validated = Inr p'" using demo_validated_Inr by blast
  have "p_StackPath demo_raw = ''''" by (simp add: demo_raw_def zero_project_def)
  with stack_path_below_root [of "''/s''" "\<lambda>s. None" demo_raw p'] p' show ?thesis
    by (simp add: demo_validated_def)
qed

text \<open>
  Normalising a volume path never changes the file it names: it is the cleaned path,
  or a relative one that stays below the stack directory and leads to the same place from there.
\<close>

theorem normalise_same_file:
  assumes "p \<noteq> ''''"
  shows "(if IsAbs (normaliseVolumeHostPath p s) \<or> \<not> IsAbs p then normaliseVolumeHostPath p s = Clean p
     else IsAbs s \<and> below_path (normaliseVolumeHostPath p s) \<and>
       Join2 (Clean s) (normaliseVolumeHostPath p s) = Clean p)"
  using normalise_cases [OF assms, of s] IsAbs_Clean [of p] by (auto simp: below_path_def)

lemma demo_normalised: "normaliseVolumeHostPath ''/s/app/./data/'' ''/s/app'' = ''data''"
  by code_simp

lemma normalise_same_file_witness:
  "Join2 (Clean ''/s/app'') (normaliseVolumeHostPath ''/s/app/./data/'' ''/s/app'') = Clean ''/s/app/./data/''"
proof -
  have "''/s/app/./data/'' \<noteq> ''''" by simp
  from normalise_same_file [OF this, of "''/s/app''"]
  show ?thesis
    by (simp add: demo_normalised IsAbs_def)
qed

text \<open>
  A project that asks for backups and passes validation names a service of its own,
  has a command and an absolute output path, and the service mounts a host directory there; the
  services keep their names and order.
\<close>

theorem backup_is_mounted:
  assumes "validateAndInjectBackup p = Inr p'" "p_Backup p = Some b"
  shows "map svc_Name (p_Services p') = map svc_Name (p_Services p) \<and> IsAbs (bs_OutputPath b) \<and>
    bs_BackupCommand b \<noteq> '''' \<and>
    (\<exists>svc. svc \<in> set (p_Services p') \<and> svc_Name svc = bs_Service b \<and>
      list_ex (\<lambda>v. Clean (vm_ContainerPath v) = Clean (bs_OutputPath b)) (svc_Volumes svc))"
proof -
  obtain svcs where i: "inject_mount (bs_Service b) (bs_OutputPath b) (p_Services p) = Some svcs"
    and p': "p' = p\<lparr>p_Services := svcs\<rparr>" and c: "IsAbs (bs_OutputPath b)" "bs_BackupCommand b \<noteq> ''''"
    using assms by (auto simp: validateAndInjectBackup_def split: if_splits option.splits)
  have "map svc_Name svcs = map svc_Name (p_Services p)" by (rule inject_mount_names [OF i])
  with c inject_mount_mounted [OF i] show ?thesis by (auto simp: p' list_ex_iff)
qed

lemma backup_is_mounted_witness:
  "\<exists>b (svc :: ServiceConfig). p_Backup demo_raw = Some b \<and> svc_Name svc = ''app'' \<and>
     list_ex (\<lambda>v. Clean (vm_ContainerPath v) = Clean ''/out'') (svc_Volumes svc)"
proof -
  let ?p = "demo_raw\<lparr>p_Services := [zero_service\<lparr>svc_Name := ''app''\<rparr>]\<rparr>"
  obtain b where b: "p_Backup demo_raw = Some b" "bs_Service b = ''app''" "bs_OutputPath b = ''/out''"
    by (simp add: demo_raw_def)
  obtain p' where "validateAndInjectBackup ?p = Inr p'"
    by (simp add: validateAndInjectBackup_def demo_raw_def IsAbs_def)
  from backup_is_mounted [OF this, of b] b obtain svc :: ServiceConfig where "svc_Name svc = ''app''"
    "list_ex (\<lambda>v. Clean (vm_ContainerPath v) = Clean ''/out'') (svc_Volumes svc)" by auto
  with b show ?thesis by (intro exI [of _ b] exI [of _ svc]) simp
qed

end
