(* ===== verification/Cf_Api.thy ===== *)
theory Cf_Api
  imports World
begin

text \<open>
  \<open>internal/cfapi/client.go\<close>: the client of Cloudflare's API. A request is an \<open>ActCall\<close> of the
  trace; what the API answers to the n-th call, and Go's JSON encoding of its messages, are the
  fields of \<open>CfApi\<close>. Host names are ASCII (other letters keep their case here).
\<close>

section \<open>Data\<close>

record Zone =
  z_ID :: string
  z_Name :: string

record DNSRecord =
  dr_ID :: string
  dr_Type :: string
  dr_Name :: string
  dr_Content :: string
  dr_TTL :: int
  dr_Proxied :: bool

record apiErrorEnvelop =
  ee_Code :: int
  ee_Message :: string

record apiEnvelope =
  ae_Success :: bool
  ae_Errors :: "apiErrorEnvelop list"
  ae_Result :: string

text \<open>
  What answers a request with a token, a method, an address and a body: an error of the
  transport, or a status with the text that was read; then the JSON decoders and the encoder.
\<close>

record CfApi =
  cf_send :: "nat \<Rightarrow> string \<Rightarrow> string \<Rightarrow> string \<Rightarrow> string \<Rightarrow> (int \<times> string) result"
  cf_envelope :: "string \<Rightarrow> apiEnvelope result"
  cf_zones :: "string \<Rightarrow> Zone list result"
  cf_records :: "string \<Rightarrow> DNSRecord list result"
  cf_record :: "string \<Rightarrow> DNSRecord result"
  cf_marshal :: "DNSRecord \<Rightarrow> string"

record Client =
  cl_token :: string
  cl_api :: CfApi

section \<open>Requests\<close>

definition baseURL :: string where
  "baseURL = ''https://api.cloudflare.com/client/v4''"

definition upper_hex :: "nat \<Rightarrow> char" where
  "upper_hex d = (if d < 10 then digit_char d else char_of (55 + d))"

definition is_alnum :: "char \<Rightarrow> bool" where
  "is_alnum c = (let n = (of_char c :: nat) in 48 \<le> n \<and> n < 58 \<or> 65 \<le> n \<and> n < 91 \<or> 97 \<le> n \<and> n < 123)"

text \<open>\<open>url.QueryEscape\<close>.\<close>

definition QueryEscape :: "string \<Rightarrow> string" where
  "QueryEscape s = concat (map (\<lambda>c.
     if is_alnum c \<or> c \<in> set ''-_.~'' then [c]
     else if c = CHR '' '' then ''+''
     else [CHR ''%'', upper_hex (of_char c div 16), upper_hex (of_char c mod 16)]) s)"

definition formatErrors :: "apiErrorEnvelop list \<Rightarrow> string" where
  "formatErrors errs =
     (if errs = [] then ''unknown error''
      else strings_Join (map (\<lambda>e. Itoa (ee_Code e) @ '': '' @ ee_Message e) errs) ''; '')"

definition truncate :: "string \<Rightarrow> nat \<Rightarrow> string" where
  "truncate s n = (if length s \<le> n then s else take n s @ ''...'')"

text \<open>What \<open>do\<close> makes of the answer; \<open>zero\<close> is the result when none is decoded.\<close>

definition cf_answer ::
    "Client \<Rightarrow> nat \<Rightarrow> string \<Rightarrow> string \<Rightarrow> string \<Rightarrow> (string \<Rightarrow> 'a result) \<Rightarrow> 'a \<Rightarrow> 'a result" where
  "cf_answer C t meth u body dec zero =
     (case cf_send (cl_api C) t (cl_token C) meth u body of
        Inl err \<Rightarrow> Inl err
      | Inr (status, raw) \<Rightarrow>
          (case cf_envelope (cl_api C) raw of
             Inl err \<Rightarrow> Inl (''decode response (status '' @ Itoa status @ ''): '' @ err @ '': '' @ truncate raw 200)
           | Inr ev \<Rightarrow>
               if \<not> ae_Success ev then Inl (''cloudflare API: '' @ formatErrors (ae_Errors ev))
               else if ae_Result ev \<noteq> '''' \<and> ae_Result ev \<noteq> ''null''
               then (case dec (ae_Result ev) of Inl err \<Rightarrow> Inl (''decode result: '' @ err) | Inr x \<Rightarrow> Inr x)
               else Inr zero))"

definition request_url :: "string \<Rightarrow> string \<Rightarrow> string" where
  "request_url path query = baseURL @ path @ (if query = '''' then '''' else ''?'' @ query)"

definition cf_do ::
    "Client \<Rightarrow> string \<Rightarrow> string \<Rightarrow> string \<Rightarrow> string \<Rightarrow> (string \<Rightarrow> 'a result) \<Rightarrow> 'a \<Rightarrow> 'a result io" where
  "cf_do C meth path query body dec zero = do {
     t \<leftarrow> io_tick;
     io_trace (ActCall meth (request_url path query) body);
     ret (cf_answer C t meth (request_url path query) body dec zero)
   }"

section \<open>Zones\<close>

definition zones_query :: "nat \<Rightarrow> string" where
  "zones_query page = ''page='' @ nat_text page @ ''&per_page=50''"

text \<open>The loop of \<open>ListZones\<close>, which leaves after the page 50.\<close>

function list_zones_from :: "Client \<Rightarrow> nat \<Rightarrow> Zone list \<Rightarrow> Zone list result io" where
  "list_zones_from C page all = do {
     r \<leftarrow> cf_do C ''GET'' ''/zones'' (zones_query page) '''' (cf_zones (cl_api C)) [];
     case r of
       Inl err \<Rightarrow> ret (Inl err)
     | Inr batch \<Rightarrow>
         if length batch < 50 then ret (Inr (all @ batch))
         else if 50 < Suc page then ret (Inr (all @ batch))
         else list_zones_from C (Suc page) (all @ batch)
   }"
  by pat_completeness auto
termination by (relation "measure (\<lambda>(C, page, all). 51 - page)") auto

declare list_zones_from.simps [simp del]

definition ListZones :: "Client \<Rightarrow> Zone list result io" where
  "ListZones C = list_zones_from C 1 []"

definition zone_matches :: "string \<Rightarrow> Zone \<Rightarrow> bool" where
  "zone_matches host z \<longleftrightarrow>
     (let zn = ToLower (z_Name z) in host = zn \<or> HasSuffix host (CHR ''.'' # zn))"

fun find_zone :: "Zone option \<Rightarrow> string \<Rightarrow> Zone list \<Rightarrow> Zone option" where
  "find_zone best host [] = best"
| "find_zone best host (z # zs) =
     (if zone_matches host z \<and> (case best of None \<Rightarrow> True | Some b \<Rightarrow> length (z_Name b) < length (z_Name z))
      then find_zone (Some z) host zs
      else find_zone best host zs)"

definition FindZoneForHostname :: "Zone list \<Rightarrow> string \<Rightarrow> Zone option" where
  "FindZoneForHostname zones host = find_zone None (ToLower (TrimSuffix host ''.'')) zones"

section \<open>Records\<close>

definition dns_path :: "string \<Rightarrow> string" where
  "dns_path zoneID = ''/zones/'' @ zoneID @ ''/dns_records''"

definition ListDNSRecords :: "Client \<Rightarrow> string \<Rightarrow> string \<Rightarrow> DNSRecord list result io" where
  "ListDNSRecords C zoneID name =
     cf_do C ''GET'' (dns_path zoneID) (''name='' @ QueryEscape name) '''' (cf_records (cl_api C)) []"

definition zero_record :: DNSRecord where
  "zero_record = \<lparr>dr_ID = '''', dr_Type = '''', dr_Name = '''', dr_Content = '''', dr_TTL = 0, dr_Proxied = False\<rparr>"

definition CreateDNSRecord :: "Client \<Rightarrow> string \<Rightarrow> DNSRecord \<Rightarrow> DNSRecord result io" where
  "CreateDNSRecord C zoneID rec =
     cf_do C ''POST'' (dns_path zoneID) '''' (cf_marshal (cl_api C) rec) (cf_record (cl_api C)) zero_record"

definition UpdateDNSRecord :: "Client \<Rightarrow> string \<Rightarrow> string \<Rightarrow> DNSRecord \<Rightarrow> DNSRecord result io" where
  "UpdateDNSRecord C zoneID recordID rec =
     cf_do C ''PUT'' (dns_path zoneID @ ''/'' @ recordID) '''' (cf_marshal (cl_api C) rec)
       (cf_record (cl_api C)) zero_record"

section \<open>Lemmas\<close>

lemma wp_cf_do [simp]:
  "wp (cf_do C meth path query body dec zero) w Q =
     Q (cf_answer C (w_tick w) meth (request_url path query) body dec zero)
       (w\<lparr>w_tick := Suc (w_tick w), w_trace := w_trace w @ [ActCall meth (request_url path query) body]\<rparr>)"
  by (simp add: wp_def cf_do_def io_tick_def io_trace_def)

lemma leaves_cf_do [frame]:
  "leaves own_state (cf_do C meth path query body dec zero)" "leaves w_fs (cf_do C meth path query body dec zero)"
  "leaves w_events (cf_do C meth path query body dec zero)"
  by (simp_all add: leaves_def cf_do_def io_tick_def io_trace_def own_state_def)

text \<open>The API holds the zones \<open>zs\<close> and serves them fifty to a page.\<close>

definition serves_zones :: "Client \<Rightarrow> Zone list \<Rightarrow> bool" where
  "serves_zones C zs \<longleftrightarrow> (\<forall>t page. cf_answer C t ''GET'' (request_url ''/zones'' (zones_query (Suc page))) ''''
     (cf_zones (cl_api C)) [] = Inr (take 50 (drop (50 * page) zs)))"

lemma list_zones_served:
  assumes "serves_zones C zs" "page < 50" "50 * page \<le> length zs"
  shows "wp (list_zones_from C (Suc page) (take (50 * page) zs)) w (\<lambda>r w'. r = Inr (take 2500 zs) \<and>
    length (w_trace w') = length (w_trace w) + (min 50 (Suc (length zs div 50)) - page))"
  using assms(2,3)
proof (induction "49 - page" arbitrary: page w)
  case (Suc n)
  then have n: "n = 49 - Suc page" "Suc page < 50" by auto
  have ans: "cf_answer C t ''GET'' (request_url ''/zones'' (zones_query (Suc page))) ''''
      (cf_zones (cl_api C)) [] = Inr (take 50 (drop (50 * page) zs))" for t
    using assms(1) by (simp add: serves_zones_def)
  have app: "take (50 * page) zs @ take 50 (drop (50 * page) zs) = take (50 * Suc page) zs"
    by (simp add: take_add [symmetric] add.commute)
  show ?case
  proof (cases "50 * Suc page \<le> length zs")
    case True
    have "Suc page \<le> length zs div 50" using True by simp
    with Suc.hyps(1) [OF n(1) n(2) True] True n(2) show ?thesis
      by (subst list_zones_from.simps, simp add: ans app)
         (rule wp_mono, assumption, auto)
  next
    case False
    then have "length zs div 50 = page" "length zs - 50 * page < 50" using Suc.prems(2) by auto
    with False n(2) show ?thesis
      by (subst list_zones_from.simps, simp add: ans app)
  qed
next
  case 0
  then have page: "page = 49" by simp
  have ans: "cf_answer C t ''GET'' (request_url ''/zones'' (zones_query (Suc 49))) ''''
      (cf_zones (cl_api C)) [] = Inr (take 50 (drop 2450 zs))" for t
    using assms(1) [unfolded serves_zones_def, rule_format, of t 49] by simp
  have app: "take 2450 zs @ take 50 (drop 2450 zs) = take 2500 zs"
    by (simp add: take_add [symmetric])
  have "49 \<le> length zs div 50" using 0 page by auto
  with page show ?case
    by (subst list_zones_from.simps) (simp add: ans [simplified] app [simplified])
qed

section \<open>The zone of a host name\<close>

lemma length_ToLower [simp]: "length (ToLower s) = length s"
  by (simp add: ToLower_def)

lemma find_zone_best:
  assumes "find_zone best host zs = Some z"
  shows "(best = Some z \<or> z \<in> set zs \<and> zone_matches host z) \<and>
    (\<forall>b. best = Some b \<longrightarrow> length (z_Name b) \<le> length (z_Name z)) \<and>
    (\<forall>y \<in> set zs. zone_matches host y \<longrightarrow> length (z_Name y) \<le> length (z_Name z))"
  using assms
proof (induction zs arbitrary: best)
  case (Cons y zs)
  show ?case
  proof (cases "zone_matches host y \<and> (case best of None \<Rightarrow> True | Some b \<Rightarrow> length (z_Name b) < length (z_Name y))")
    case True
    with Cons.IH [of "Some y"] Cons.prems show ?thesis by (auto split: option.splits)
  next
    case False
    with Cons.IH [of best] Cons.prems show ?thesis by (auto split: option.splits)
  qed
qed simp

lemma find_zone_None: "find_zone best host zs = None \<longleftrightarrow> best = None \<and> (\<forall>y \<in> set zs. \<not> zone_matches host y)"
  by (induction zs arbitrary: best) (auto split: option.splits)

text \<open>Two matching zones with names of the same length have the same name.\<close>

lemma zone_matches_unique:
  assumes "zone_matches host y" "zone_matches host z" "length (z_Name y) = length (z_Name z)"
  shows "ToLower (z_Name y) = ToLower (z_Name z)"
proof -
  have suffix: "\<exists>p. host = p @ ToLower (z_Name x)" if "zone_matches host x" for x
    using that by (auto simp: zone_matches_def Let_def HasSuffix_iff)
  from suffix [OF assms(1)] suffix [OF assms(2)] assms(3) show ?thesis
    by (metis append_eq_append_conv length_ToLower length_append add_right_cancel)
qed

section \<open>Properties\<close>

text \<open>
  Property C26. \<open>ListZones\<close> ends, for an API that serves its zones page by page, after at most
  fifty requests, with the first 2500 zones: all of them when there are no more than that.
\<close>

theorem ListZones_served:
  assumes "serves_zones C zs" "run_state (ListZones C) w = (r, w')"
  shows "r = Inr (take 2500 zs) \<and>
    length (w_trace w') = length (w_trace w) + min 50 (Suc (length zs div 50))"
  using list_zones_served [OF assms(1), of 0 w] assms(2) by (simp add: ListZones_def wp_def)

text \<open>An API with sixty zones, on two pages.\<close>

definition sixty_zones :: "Zone list" where
  "sixty_zones = replicate 60 \<lparr>z_ID = ''1'', z_Name = ''a.org''\<rparr>"

definition demo_client :: Client where
  "demo_client = \<lparr>cl_token = ''t'', cl_api = \<lparr>
      cf_send = (\<lambda>t token m u b. Inr (200,
        if u = request_url ''/zones'' (zones_query 1) then ''1''
        else if u = request_url ''/zones'' (zones_query 2) then ''2'' else '''')),
      cf_envelope = (\<lambda>raw. Inr \<lparr>ae_Success = True, ae_Errors = [], ae_Result = raw\<rparr>),
      cf_zones = (\<lambda>s. Inr (if s = ''1'' then take 50 sixty_zones else drop 50 sixty_zones)),
      cf_records = (\<lambda>s. Inr []), cf_record = (\<lambda>s. Inl ''none''), cf_marshal = (\<lambda>r. ''{}'')\<rparr>\<rparr>"

lemma zones_url_inj: "request_url ''/zones'' (zones_query i) = request_url ''/zones'' (zones_query j) \<longleftrightarrow> i = j"
proof
  assume "request_url ''/zones'' (zones_query i) = request_url ''/zones'' (zones_query j)"
  then have "nat_text i = nat_text j" by (simp add: request_url_def zones_query_def)
  then show "i = j" by (metis digits_value_nat_text)
qed simp

lemma demo_serves: "serves_zones demo_client sixty_zones"
  unfolding serves_zones_def
  by (auto simp: cf_answer_def demo_client_def zones_url_inj sixty_zones_def)

lemma ListZones_served_witness:
  "\<forall>w :: World. \<exists>w'. run_state (ListZones demo_client) w = (Inr sixty_zones, w') \<and> length (w_trace w') = length (w_trace w) + 2"
proof
  fix w :: World
  obtain r w' where run: "run_state (ListZones demo_client) w = (r, w')" by fastforce
  with ListZones_served [OF demo_serves run]
  show "\<exists>w'. run_state (ListZones demo_client) w = (Inr sixty_zones, w') \<and> length (w_trace w') = length (w_trace w) + 2"
    by (simp add: sixty_zones_def)
qed

text \<open>
  Among zones with different names, the one found for a host name is the matching one whose name
  is longer than that of every other matching zone; the order of the zones does not matter.
\<close>

theorem zone_is_longest_suffix:
  assumes "distinct (map (\<lambda>z. ToLower (z_Name z)) zones)"
  shows "FindZoneForHostname zones host = Some z \<longleftrightarrow>
    z \<in> set zones \<and> zone_matches (ToLower (TrimSuffix host ''.'')) z \<and>
    (\<forall>y \<in> set zones. zone_matches (ToLower (TrimSuffix host ''.'')) y \<longrightarrow> y \<noteq> z \<longrightarrow>
       length (z_Name y) < length (z_Name z))"
  (is "?found \<longleftrightarrow> ?longest z")
proof
  let ?h = "ToLower (TrimSuffix host ''.'')"
  have same: "y = z" if "y \<in> set zones" "z \<in> set zones" "zone_matches ?h y" "zone_matches ?h z"
    "length (z_Name y) = length (z_Name z)" for y z
    using zone_matches_unique [OF that(3-5)] that(1,2) assms by (auto simp: distinct_map dest: inj_onD)
  show longest: "?longest z" if ?found
    using find_zone_best [OF that [unfolded FindZoneForHostname_def]] same [of _ z]
    by (auto simp: nat_less_le)
  show ?found if l: "?longest z"
  proof (cases "FindZoneForHostname zones host")
    case None
    with l show ?thesis by (auto simp: FindZoneForHostname_def find_zone_None)
  next
    case (Some y)
    from find_zone_best [OF this [unfolded FindZoneForHostname_def]]
    have "y \<in> set zones" "zone_matches ?h y" "length (z_Name z) \<le> length (z_Name y)" using l by auto
    with l have "y = z" by force
    with Some show ?thesis by simp
  qed
qed

lemma zone_is_longest_suffix_witness:
  "FindZoneForHostname [\<lparr>z_ID = ''1'', z_Name = ''Example.org''\<rparr>, \<lparr>z_ID = ''2'', z_Name = ''dev.example.org''\<rparr>]
     ''git.dev.example.org.'' = Some \<lparr>z_ID = ''2'', z_Name = ''dev.example.org''\<rparr>"
  by (subst zone_is_longest_suffix) (code_simp, code_simp)

end
