(* ===== verification/Tunnels.thy ===== *)
theory Tunnels
  imports Cf_Api Deploy_Correct
begin

text \<open>
  \<open>internal/tunnel/manager.go\<close>: each tunnel has a system project that runs cloudflared; its stack
  directory holds the credentials and the ingress rules, which are derived from the public host
  names of the other projects. A goroutine that \<open>ReconcileTunnel\<close> starts is a \<open>TunnelTask\<close> of its
  result; the mutex of the manager makes a call one step. Deadlines are not modelled (a request
  that is cut off is one that fails).
\<close>

section \<open>Data\<close>

record Manager =
  tm_deployer :: Deployer
  tm_codec :: Codec
  tm_api :: CfApi
  tm_stackRoot :: string
  tm_runtime :: string
  tm_marshal :: "TunnelCredentials \<Rightarrow> string"

abbreviation tm_env :: "Manager \<Rightarrow> Env" where
  "tm_env M \<equiv> dep_env (tm_deployer M)"

record ingressEntry =
  ie_Hostname :: string
  ie_Port :: int
  ie_ProjectID :: string
  ie_Service :: string

datatype TunnelTask =
    StartSystem Project
  | RestartCloudflared string string
  | SyncDNS Tunnel "ingressEntry list"

record RouteDNS =
  rd_Status :: string
  rd_ExpectedTarget :: string
  rd_ActualTarget :: string
  rd_ActualType :: string
  rd_Proxied :: bool
  rd_Error :: string

record Route =
  rt_Hostname :: string
  rt_ProjectID :: string
  rt_Service :: string
  rt_Port :: int
  rt_DNS :: RouteDNS

definition SystemProjectID :: "string \<Rightarrow> string" where
  "SystemProjectID tunnelID = ''cf-tunnel-'' @ tunnelID"

section \<open>Ingress\<close>

definition hostname_entries :: "string \<Rightarrow> Project \<Rightarrow> ServiceConfig \<Rightarrow> ingressEntry list" where
  "hostname_entries tunnelID p svc =
     map (\<lambda>h. \<lparr>ie_Hostname = ph_Hostname h, ie_Port = ph_Port h, ie_ProjectID = p_ID p, ie_Service = svc_Name svc\<rparr>)
       (filter (\<lambda>h. \<not> (ph_TunnelID h \<noteq> tunnelID \<or> ph_Hostname h = '''' \<or> ph_Port h \<le> 0)) (svc_PublicHostnames svc))"

definition ingress_of :: "string \<Rightarrow> Project list \<Rightarrow> ingressEntry list" where
  "ingress_of tunnelID projects =
     sort_key ie_Hostname (concat (map (\<lambda>p.
       if p_IsSystem p \<or> \<not> p_Enabled p then []
       else concat (map (hostname_entries tunnelID p) (p_Services p))) projects))"

definition collectIngressFor :: "Manager \<Rightarrow> string \<Rightarrow> ingressEntry list result io" where
  "collectIngressFor M tunnelID = db_read (\<lambda>d.
     case ListProjects (tm_codec M) d of
       Inl err \<Rightarrow> Inl err
     | Inr projects \<Rightarrow> Inr (ingress_of tunnelID projects))"

section \<open>Files of a tunnel\<close>

definition credentials_of :: "Tunnel \<Rightarrow> TunnelCredentials" where
  "credentials_of t =
     \<lparr>tc_AccountTag = t_AccountTag t, tc_TunnelSecret = t_TunnelSecret t, tc_TunnelID = t_CFTunnelID t\<rparr>"

definition writeCredentials :: "Manager \<Rightarrow> string \<Rightarrow> Tunnel \<Rightarrow> unit result io" where
  "writeCredentials M stackPath t = do {
     let path = Join2 stackPath ''credentials.json'';
     r \<leftarrow> os_WriteFile (tm_env M) path (tm_marshal M (credentials_of t)) 420;
     case r of
       Inl err \<Rightarrow> ret (Inl err)
     | Inr u \<Rightarrow> os_Chmod (tm_env M) path 420
   }"

definition nl :: string where
  "nl = [CHR 0x0A]"

definition config_text :: "Tunnel \<Rightarrow> ingressEntry list \<Rightarrow> string" where
  "config_text t entries =
     ''# Auto-generated by bbsit. Do not edit manually.'' @ nl @
     ''tunnel: '' @ t_CFTunnelID t @ nl @
     ''credentials-file: /etc/cloudflared/credentials.json'' @ nl @
     ''ingress:'' @ nl @
     concat (map (\<lambda>e. ''  - hostname: '' @ ie_Hostname e @ nl @
       ''    service: http://localhost:'' @ Itoa (ie_Port e) @ nl) entries) @
     ''  - service: http_status:404'' @ nl"

text \<open>Whether the contents changed. A file that cannot be read counts as empty.\<close>

definition writeConfigYml :: "Manager \<Rightarrow> string \<Rightarrow> Tunnel \<Rightarrow> ingressEntry list \<Rightarrow> bool result io" where
  "writeConfigYml M stackPath t entries = do {
     let path = Join2 stackPath ''config.yml'';
     let newContent = config_text t entries;
     old \<leftarrow> os_ReadFile (tm_env M) path;
     if (case old of Inl e \<Rightarrow> '''' | Inr c \<Rightarrow> c) = newContent then ret (Inr False)
     else do {
       r \<leftarrow> os_WriteFile (tm_env M) path newContent 420;
       ret (case r of Inl err \<Rightarrow> Inl err | Inr u \<Rightarrow> Inr True)
     }
   }"

section \<open>The system project\<close>

definition cloudflared_service :: ServiceConfig where
  "cloudflared_service = zero_service\<lparr>svc_Name := ''cloudflared'',
     svc_RegistryImage := ''cloudflare/cloudflared'', svc_ImageTag := ''latest'', svc_Polled := True,
     svc_Volumes := [
       \<lparr>vm_HostPath = ''config.yml'', vm_ContainerPath = ''/etc/cloudflared/config.yml'', vm_ReadOnly = True\<rparr>,
       \<lparr>vm_HostPath = ''credentials.json'', vm_ContainerPath = ''/etc/cloudflared/credentials.json'', vm_ReadOnly = True\<rparr>],
     svc_ExtraOptions := ''network_mode: host'' @ nl @
       ''command: tunnel --no-autoupdate --config /etc/cloudflared/config.yml run''\<rparr>"

definition buildSystemProject :: "Tunnel \<Rightarrow> string \<Rightarrow> int \<Rightarrow> int \<Rightarrow> Project" where
  "buildSystemProject t stackPath created updated =
     zero_project\<lparr>p_ID := SystemProjectID (t_ID t),
       p_DisplayName := (if t_Name t = '''' then ''Cloudflared ('' @ t_ID t @ '')'' else ''Cloudflared: '' @ t_Name t),
       p_ConfigMode := ConfigModeForm, p_Services := [cloudflared_service], p_BindHost := ''127.0.0.1'',
       p_StackPath := stackPath, p_HealthType := HealthNone, p_PollInterval := 3600,
       p_Enabled := t_Enabled t, p_IsSystem := True, p_CreatedAt := created, p_UpdatedAt := updated\<rparr>"

section \<open>Reconciliation\<close>

text \<open>The files first, then the project; the tasks are the goroutines that are started.\<close>

definition write_tunnel_files :: "Manager \<Rightarrow> string \<Rightarrow> Tunnel \<Rightarrow> ingressEntry list \<Rightarrow> bool result io" where
  "write_tunnel_files M stackPath t ingress =
     check_err ''mkdir stack: '' (os_MkdirAll (tm_env M) stackPath)
     (check_err ''chmod stack: '' (os_Chmod (tm_env M) stackPath 448)
     (check_err ''write credentials: '' (writeCredentials M stackPath t) (do {
        r \<leftarrow> writeConfigYml M stackPath t ingress;
        ret (case r of Inl err \<Rightarrow> Inl (''write config.yml: '' @ err) | Inr c \<Rightarrow> Inr c)
      })))"

definition tm_UpdateProject :: "Manager \<Rightarrow> Project \<Rightarrow> unit result io" where
  "tm_UpdateProject M p = do {
     r \<leftarrow> rand_Read (tm_env M);
     now \<leftarrow> time_Now (tm_env M);
     db_exec (UpdateProject (tm_codec M) r now p)
   }"

definition tm_CreateProject :: "Manager \<Rightarrow> Project \<Rightarrow> unit result io" where
  "tm_CreateProject M p = do {
     r \<leftarrow> rand_Read (tm_env M);
     now \<leftarrow> time_Now (tm_env M);
     db_exec (CreateProject (tm_codec M) r now p)
   }"

definition reconcile_project ::
    "Manager \<Rightarrow> string \<Rightarrow> Tunnel \<Rightarrow> ingressEntry list \<Rightarrow> bool \<Rightarrow> (unit result \<times> TunnelTask list) io" where
  "reconcile_project M stackPath t ingress configChanged = do {
     existing \<leftarrow> db_read (\<lambda>d. GetProject (tm_codec M) d (SystemProjectID (t_ID t)));
     created \<leftarrow> time_Now (tm_env M);
     updated \<leftarrow> time_Now (tm_env M);
     let desired = buildSystemProject t stackPath created updated;
     case existing of
       Inl e \<Rightarrow> do {
         r \<leftarrow> tm_CreateProject M desired;
         ret (case r of Inl err \<Rightarrow> (Inl (''create system project: '' @ err), []) | Inr u \<Rightarrow> (Inr (), [StartSystem desired]))
       }
     | Inr q \<Rightarrow> do {
         r \<leftarrow> tm_UpdateProject M desired;
         case r of
           Inl err \<Rightarrow> ret (Inl (''update system project: '' @ err), [])
         | Inr u \<Rightarrow>
             if \<not> t_Enabled t then do { s \<leftarrow> Stop (tm_deployer M) desired; ret (Inr (), []) }
             else ret (Inr (),
               (if configChanged then [RestartCloudflared stackPath (t_ID t)] else []) @
               (if t_CFAPIToken t \<noteq> '''' \<and> ingress \<noteq> [] then [SyncDNS t ingress] else []))
       }
   }"

definition ReconcileTunnel :: "Manager \<Rightarrow> string \<Rightarrow> (unit result \<times> TunnelTask list) io" where
  "ReconcileTunnel M tunnelID = do {
     g \<leftarrow> db_read (\<lambda>d. GetTunnel (tm_codec M) d tunnelID);
     case g of
       Inl err \<Rightarrow> ret (Inl (''get tunnel '' @ tunnelID @ '': '' @ err), [])
     | Inr t \<Rightarrow> do {
     let stackPath = Join2 (tm_stackRoot M) (SystemProjectID (t_ID t));
     c \<leftarrow> collectIngressFor M (t_ID t);
     case c of
       Inl err \<Rightarrow> ret (Inl (''collect ingress: '' @ err), [])
     | Inr ingress \<Rightarrow> do {
     f \<leftarrow> write_tunnel_files M stackPath t ingress;
     case f of
       Inl err \<Rightarrow> ret (Inl err, [])
     | Inr configChanged \<Rightarrow> reconcile_project M stackPath t ingress configChanged
     }}}"

text \<open>The loop over the tunnels goes on after an error and keeps the first.\<close>

fun reconcile_tunnels :: "Manager \<Rightarrow> error option \<Rightarrow> Tunnel list \<Rightarrow> (error option \<times> TunnelTask list) io" where
  "reconcile_tunnels M firstErr [] = ret (firstErr, [])"
| "reconcile_tunnels M firstErr (t # ts) = do {
     r \<leftarrow> ReconcileTunnel M (t_ID t);
     rest \<leftarrow> reconcile_tunnels M
       (case (fst r, firstErr) of (Inl err, None) \<Rightarrow> Some err | _ \<Rightarrow> firstErr) ts;
     ret (fst rest, snd r @ snd rest)
   }"

definition ReconcileAll :: "Manager \<Rightarrow> (unit result \<times> TunnelTask list) io" where
  "ReconcileAll M = do {
     r \<leftarrow> db_read (ListTunnels (tm_codec M));
     case r of
       Inl err \<Rightarrow> ret (Inl err, [])
     | Inr tunnels \<Rightarrow> do {
         res \<leftarrow> reconcile_tunnels M None tunnels;
         ret (case fst res of Some err \<Rightarrow> Inl err | None \<Rightarrow> Inr (), snd res)
       }
   }"

definition tm_DeleteTunnel :: "Manager \<Rightarrow> string \<Rightarrow> unit result io" where
  "tm_DeleteTunnel M tunnelID = do {
     let projectID = SystemProjectID tunnelID;
     g \<leftarrow> db_read (\<lambda>d. GetProject (tm_codec M) d projectID);
     (case g of
        Inl e \<Rightarrow> ret ()
      | Inr p \<Rightarrow> do {
          s \<leftarrow> Stop (tm_deployer M) p;
          x \<leftarrow> db_exec (DeleteProject projectID);
          y \<leftarrow> os_RemoveAll (tm_env M) (p_StackPath p);
          ret ()
        });
     db_exec (db_DeleteTunnel tunnelID)
   }"

definition restartCloudflared :: "Manager \<Rightarrow> string \<Rightarrow> unit io" where
  "restartCloudflared M stackPath = do {
     out \<leftarrow> exec_run (tm_env M)
       [tm_runtime M, ''compose'', ''-f'', Join2 stackPath ''compose.yaml'', ''restart'', ''cloudflared''] stackPath;
     ret ()
   }"

section \<open>DNS\<close>

definition tunnel_target :: "Tunnel \<Rightarrow> string" where
  "tunnel_target t = t_CFTunnelID t @ ''.cfargotunnel.com''"

definition tunnel_client :: "Manager \<Rightarrow> Tunnel \<Rightarrow> Client" where
  "tunnel_client M t = \<lparr>cl_token = t_CFAPIToken t, cl_api = tm_api M\<rparr>"

text \<open>A record that routes its name: a CNAME or an address.\<close>

definition routing_record :: "DNSRecord \<Rightarrow> bool" where
  "routing_record r \<longleftrightarrow> dr_Type r = ''CNAME'' \<or> dr_Type r = ''A'' \<or> dr_Type r = ''AAAA''"

definition desired_record :: "string \<Rightarrow> string \<Rightarrow> DNSRecord" where
  "desired_record name target =
     \<lparr>dr_ID = '''', dr_Type = ''CNAME'', dr_Name = name, dr_Content = target, dr_TTL = 1, dr_Proxied = True\<rparr>"

definition record_correct :: "string \<Rightarrow> DNSRecord \<Rightarrow> bool" where
  "record_correct target r \<longleftrightarrow> dr_Type r = ''CNAME'' \<and> dr_Content r = target \<and> dr_Proxied r"

definition dropped :: "'a result \<Rightarrow> unit result" where
  "dropped r = (case r of Inl err \<Rightarrow> Inl err | Inr x \<Rightarrow> Inr ())"

definition ensureCNAME :: "Client \<Rightarrow> string \<Rightarrow> string \<Rightarrow> string \<Rightarrow> unit result io" where
  "ensureCNAME C zoneID name target = do {
     r \<leftarrow> ListDNSRecords C zoneID name;
     case r of
       Inl err \<Rightarrow> ret (Inl (''list dns: '' @ err))
     | Inr recs \<Rightarrow>
         (case find routing_record recs of
            Some r \<Rightarrow>
              if record_correct target r then ret (Inr ())
              else do { u \<leftarrow> UpdateDNSRecord C zoneID (dr_ID r) (desired_record name target); ret (dropped u) }
          | None \<Rightarrow> do { u \<leftarrow> CreateDNSRecord C zoneID (desired_record name target); ret (dropped u) })
   }"

text \<open>An error for one host name is logged, and the next one is taken.\<close>

definition sync_entry :: "Client \<Rightarrow> Zone list \<Rightarrow> string \<Rightarrow> ingressEntry \<Rightarrow> unit io" where
  "sync_entry C zones target e =
     (case FindZoneForHostname zones (ie_Hostname e) of
        None \<Rightarrow> ret ()
      | Some zone \<Rightarrow> do { r \<leftarrow> ensureCNAME C (z_ID zone) (ie_Hostname e) target; ret () })"

definition syncDNS :: "Manager \<Rightarrow> Tunnel \<Rightarrow> ingressEntry list \<Rightarrow> unit io" where
  "syncDNS M t ingress = do {
     let C = tunnel_client M t;
     r \<leftarrow> ListZones C;
     case r of
       Inl err \<Rightarrow> ret ()
     | Inr zones \<Rightarrow> io_each (sync_entry C zones (tunnel_target t)) ingress
   }"

text \<open>A goroutine of \<open>ReconcileTunnel\<close>, when it runs.\<close>

definition run_tunnel_task :: "Manager \<Rightarrow> TunnelTask \<Rightarrow> unit io" where
  "run_tunnel_task M k =
     (case k of
        StartSystem p \<Rightarrow> do { r \<leftarrow> Start (tm_deployer M) p; ret () }
      | RestartCloudflared stackPath i \<Rightarrow> restartCloudflared M stackPath
      | SyncDNS t ingress \<Rightarrow> syncDNS M t ingress)"

definition no_dns :: "string \<Rightarrow> RouteDNS" where
  "no_dns status = \<lparr>rd_Status = status, rd_ExpectedTarget = '''', rd_ActualTarget = '''', rd_ActualType = '''',
     rd_Proxied = False, rd_Error = ''''\<rparr>"

definition picked_dns :: "string \<Rightarrow> DNSRecord \<Rightarrow> RouteDNS" where
  "picked_dns status r = (no_dns status)\<lparr>rd_ActualType := dr_Type r, rd_ActualTarget := dr_Content r,
     rd_Proxied := dr_Proxied r\<rparr>"

text \<open>A CNAME first, then an address.\<close>

definition pick_record :: "DNSRecord list \<Rightarrow> DNSRecord option" where
  "pick_record recs =
     (case find (\<lambda>r. dr_Type r = ''CNAME'') recs of
        Some r \<Rightarrow> Some r
      | None \<Rightarrow> find (\<lambda>r. dr_Type r = ''A'' \<or> dr_Type r = ''AAAA'') recs)"

definition classifyDNS :: "string \<Rightarrow> DNSRecord list \<Rightarrow> RouteDNS" where
  "classifyDNS expectedTarget recs =
     (if recs = [] then no_dns ''missing''
      else case pick_record recs of
        None \<Rightarrow> no_dns ''missing''
      | Some r \<Rightarrow>
          if dr_Type r \<noteq> ''CNAME'' then picked_dns ''wrong_type'' r
          else if dr_Content r \<noteq> expectedTarget then picked_dns ''wrong_target'' r
          else if \<not> dr_Proxied r then picked_dns ''not_proxied'' r
          else picked_dns ''ok'' r)"

definition entry_route :: "string \<Rightarrow> ingressEntry \<Rightarrow> Route" where
  "entry_route expected e =
     \<lparr>rt_Hostname = ie_Hostname e, rt_ProjectID = ie_ProjectID e, rt_Service = ie_Service e, rt_Port = ie_Port e,
      rt_DNS = (no_dns ''no_token'')\<lparr>rd_ExpectedTarget := expected\<rparr>\<rparr>"

definition check_route :: "Client \<Rightarrow> Zone list \<Rightarrow> string \<Rightarrow> Route \<Rightarrow> Route io" where
  "check_route C zones expected rt =
     (case FindZoneForHostname zones (rt_Hostname rt) of
        None \<Rightarrow> ret (rt\<lparr>rt_DNS := (no_dns ''no_zone'')\<lparr>rd_ExpectedTarget := expected\<rparr>\<rparr>)
      | Some zone \<Rightarrow> do {
          r \<leftarrow> ListDNSRecords C (z_ID zone) (rt_Hostname rt);
          ret (rt\<lparr>rt_DNS := (case r of Inl err \<Rightarrow> (no_dns ''error'')\<lparr>rd_Error := err\<rparr>
            | Inr recs \<Rightarrow> classifyDNS expected recs)\<lparr>rd_ExpectedTarget := expected\<rparr>\<rparr>)
        })"

fun check_routes :: "Client \<Rightarrow> Zone list \<Rightarrow> string \<Rightarrow> Route list \<Rightarrow> Route list io" where
  "check_routes C zones expected [] = ret []"
| "check_routes C zones expected (rt # rts) = do {
     x \<leftarrow> check_route C zones expected rt;
     xs \<leftarrow> check_routes C zones expected rts;
     ret (x # xs)
   }"

definition RoutesFor :: "Manager \<Rightarrow> string \<Rightarrow> Route list result io" where
  "RoutesFor M tunnelID = do {
     g \<leftarrow> db_read (\<lambda>d. GetTunnel (tm_codec M) d tunnelID);
     case g of
       Inl err \<Rightarrow> ret (Inl (''get tunnel: '' @ err))
     | Inr t \<Rightarrow> do {
     c \<leftarrow> collectIngressFor M tunnelID;
     case c of
       Inl err \<Rightarrow> ret (Inl err)
     | Inr entries \<Rightarrow> do {
     let expected = tunnel_target t;
     let routes = map (entry_route expected) entries;
     (if t_CFAPIToken t = '''' \<or> routes = [] then ret (Inr routes)
      else do {
        z \<leftarrow> ListZones (tunnel_client M t);
        case z of
          Inl err \<Rightarrow> ret (Inr (map (\<lambda>rt. rt\<lparr>rt_DNS := (no_dns ''error'')\<lparr>rd_ExpectedTarget := expected,
            rd_Error := ''list zones: '' @ err\<rparr>\<rparr>) routes))
        | Inr zones \<Rightarrow> do {
            rts \<leftarrow> check_routes (tunnel_client M t) zones expected routes;
            ret (Inr rts)
          }
      })
     }}}"

section \<open>The files of a tunnel\<close>

abbreviation config_path :: "string \<Rightarrow> string" where
  "config_path sp \<equiv> Join2 sp ''config.yml''"

abbreviation credentials_path :: "string \<Rightarrow> string" where
  "credentials_path sp \<equiv> Join2 sp ''credentials.json''"

lemma tunnel_paths_distinct:
  assumes "sp \<noteq> ''''"
  shows "Clean (config_path sp) \<noteq> Clean (credentials_path sp)"
    "Clean (config_path sp) \<noteq> Clean sp" "Clean (credentials_path sp) \<noteq> Clean sp"
proof -
  have b: "below_path ''config.yml''" "below_path ''credentials.json''"
    using below_pathI [of "[''config.yml'']"] below_pathI [of "[''credentials.json'']"]
    by (simp_all add: plain_comp_def comp_ok_def)
  have comps: "path_comps (config_path sp) = path_comps sp @ [''config.yml'']"
      "path_comps (credentials_path sp) = path_comps sp @ [''credentials.json'']"
    using Join2_comps(1) [OF assms] b by simp_all
  have ne: "Clean a = Clean b \<Longrightarrow> path_comps a = path_comps b" for a b
    by (metis path_comps_Clean)
  show "Clean (config_path sp) \<noteq> Clean (credentials_path sp)"
    "Clean (config_path sp) \<noteq> Clean sp" "Clean (credentials_path sp) \<noteq> Clean sp"
    using comps by (auto dest!: ne)
qed

lemma keeps_file_credentials:
  "Clean q \<noteq> Clean (credentials_path sp) \<Longrightarrow> keeps (holds_file q c m) (writeCredentials M sp t)"
  unfolding writeCredentials_def Let_def by (auto intro!: wf_intros keeps_file_Write keeps_file_Chmod)

lemma keeps_file_config:
  "Clean q \<noteq> Clean (config_path sp) \<Longrightarrow> keeps (holds_file q c m) (writeConfigYml M sp t ing)"
  unfolding writeConfigYml_def Let_def
  by (auto intro!: wf_intros keeps_file_Write keeps_file_leaves [OF leaves_ReadFile(2)])

lemma wp_writeCredentials:
  "wp (writeCredentials M sp t) w (\<lambda>r w'. r = Inr () \<longrightarrow>
     holds_file (credentials_path sp) (tm_marshal M (credentials_of t)) 420 w')"
proof -
  have "wp (os_Chmod e p 420) w' (\<lambda>r w''. r = Inr () \<longrightarrow> holds_file p c 420 w'')"
    if "\<exists>m. holds_file p c m w'" for w' p c and e :: Env
    unfolding os_Chmod_def using that by (intro wp_fs_op) (auto simp: holds_file_def intro: fs_Chmod_at)
  then show ?thesis
    unfolding writeCredentials_def Let_def wp_bind
    by (intro wp_mono [OF wp_WriteFile]) (auto split: sum.splits)
qed

text \<open>After the write the file has the new contents; \<open>False\<close> says that it had them before.\<close>

lemma wp_writeConfigYml:
  "wp (writeConfigYml M sp t ing) w (\<lambda>r w'. \<forall>c. r = Inr c \<longrightarrow>
     (\<exists>m. holds_file (config_path sp) (config_text t ing) m w') \<and>
     (\<forall>c0 m. holds_file (config_path sp) c0 m w \<longrightarrow> c0 \<noteq> config_text t ing \<longrightarrow> c))"
proof -
  let ?p = "config_path sp" and ?new = "config_text t ing"
  have ne: "?new \<noteq> ''''" by (simp add: config_text_def)
  show ?thesis
    unfolding writeConfigYml_def Let_def wp_bind [of "os_ReadFile e p" for e p]
  proof (rule wp_mono [OF ReadFile_post])
    fix old :: "string result" and w1 :: World
    assume old: "w_fs w1 = w_fs w \<and> (\<forall>c. old = Inr c \<longrightarrow> fs_contents (w_fs w) ?p = Some c)"
    show "wp (if (case old of Inl e \<Rightarrow> '''' | Inr c \<Rightarrow> c) = ?new then ret (Inr False)
        else do { r \<leftarrow> os_WriteFile (tm_env M) ?p ?new 420; ret (case r of Inl err \<Rightarrow> Inl err | Inr u \<Rightarrow> Inr True) }) w1
      (\<lambda>r w'. \<forall>c. r = Inr c \<longrightarrow> (\<exists>m. holds_file ?p ?new m w') \<and>
        (\<forall>c0 m. holds_file ?p c0 m w \<longrightarrow> c0 \<noteq> ?new \<longrightarrow> c))"
    proof (cases "(case old of Inl e \<Rightarrow> '''' | Inr c \<Rightarrow> c) = ?new")
      case True
      with ne old have "fs_contents (w_fs w) ?p = Some ?new" by (cases old) auto
      with True old show ?thesis
        by (auto simp: holds_file_def file_at_def fs_contents_def split: option.splits Node.splits)
    next
      case False
      then show ?thesis
        by (simp, intro wp_mono [OF wp_WriteFile]) (auto split: sum.splits)
    qed
  qed
qed

lemma wp_write_tunnel_files:
  assumes "sp \<noteq> ''''"
  shows "wp (write_tunnel_files M sp t ing) w (\<lambda>r w'. \<forall>c. r = Inr c \<longrightarrow>
     (\<exists>m. holds_file (config_path sp) (config_text t ing) m w') \<and>
     holds_file (credentials_path sp) (tm_marshal M (credentials_of t)) 420 w' \<and>
     (\<forall>c0 m. holds_file (config_path sp) c0 m w \<longrightarrow> c0 \<noteq> config_text t ing \<longrightarrow> c))"
proof -
  note d = tunnel_paths_distinct [OF assms]
  let ?new = "config_text t ing" and ?creds = "tm_marshal M (credentials_of t)"
  let ?old = "\<lambda>w1. \<forall>c0. (\<exists>m. holds_file (config_path sp) c0 m w) \<longrightarrow> (\<exists>m. holds_file (config_path sp) c0 m w1)"
  have keep_old: "wp m w1 (\<lambda>r w'. ?old w')"
    if "\<And>c n. keeps (holds_file (config_path sp) c n) m" "?old w1" for m :: "unit result io" and w1
  proof -
    have "wp m w1 (\<lambda>r w'. \<forall>c0 n. holds_file (config_path sp) c0 n w1 \<longrightarrow> holds_file (config_path sp) c0 n w')"
      using that(1) by (auto simp: wp_def keeps_def split: prod.splits) (metis snd_conv)
    then show ?thesis by (rule wp_mono) (use that(2) in blast)
  qed
  have s1: "wp (os_MkdirAll (tm_env M) sp) w (\<lambda>r w'. r = Inr () \<longrightarrow> ?old w')"
    by (rule wp_mono [OF keep_old]) (auto intro: wf_intros)
  have s2: "wp (os_Chmod (tm_env M) sp 448) w1 (\<lambda>r w'. r = Inr () \<longrightarrow> ?old w')" if "?old w1" for w1
    by (rule wp_mono [OF keep_old]) (use that d in \<open>auto intro: keeps_file_Chmod\<close>)
  have s3: "wp (writeCredentials M sp t) w1 (\<lambda>r w'. r = Inr () \<longrightarrow>
      ?old w' \<and> holds_file (credentials_path sp) ?creds 420 w')" if "?old w1" for w1
    by (rule wp_also [OF wp_writeCredentials keep_old]) (use that d in \<open>auto intro: keeps_file_credentials\<close>)
  have s4: "wp (do { r \<leftarrow> writeConfigYml M sp t ing; ret (case r of Inl err \<Rightarrow> Inl (''write config.yml: '' @ err) | Inr c \<Rightarrow> Inr c) }) w1
      (\<lambda>r w'. \<forall>c. r = Inr c \<longrightarrow> (\<exists>m. holds_file (config_path sp) ?new m w') \<and>
        holds_file (credentials_path sp) ?creds 420 w' \<and>
        (\<forall>c0 m. holds_file (config_path sp) c0 m w \<longrightarrow> c0 \<noteq> ?new \<longrightarrow> c))"
    if o: "?old w1 \<and> holds_file (credentials_path sp) ?creds 420 w1" for w1
    unfolding wp_bind wp_ret
  proof (rule wp_mono [OF wp_conj [OF wp_writeConfigYml wp_keeps [OF keeps_file_config [OF d(1) [symmetric]] o [THEN conjunct2]]]],
      intro allI impI, elim conjE)
    fix r :: "bool result" and w2 :: World and c
    assume r: "(case r of Inl err \<Rightarrow> Inl (''write config.yml: '' @ err) | Inr c \<Rightarrow> Inr c) = Inr c"
      and new: "\<forall>c. r = Inr c \<longrightarrow> (\<exists>m. holds_file (config_path sp) ?new m w2) \<and>
        (\<forall>c0 m. holds_file (config_path sp) c0 m w1 \<longrightarrow> c0 \<noteq> ?new \<longrightarrow> c)"
      and creds: "holds_file (credentials_path sp) ?creds 420 w2"
    from r have "r = Inr c" by (cases r) simp_all
    note new [rule_format, OF this]
    with o creds show "(\<exists>m. holds_file (config_path sp) ?new m w2) \<and>
        holds_file (credentials_path sp) ?creds 420 w2 \<and>
        (\<forall>c0 m. holds_file (config_path sp) c0 m w \<longrightarrow> c0 \<noteq> ?new \<longrightarrow> c)" by blast
  qed
  show ?thesis
    unfolding write_tunnel_files_def
    by (rule wp_check_errI [OF s1 wp_check_errI [OF s2 wp_check_errI [OF s3 s4]]])
qed

section \<open>Reconciliation\<close>

lemma wp_tm_projects:
  "wp (tm_CreateProject M p) w Q =
     Q (fst (CreateProject (tm_codec M) (env_rand (tm_env M) (w_tick w)) (env_now (tm_env M) (Suc (w_tick w))) p (w_db w)))
       (w\<lparr>w_tick := Suc (Suc (w_tick w)), w_db :=
          snd (CreateProject (tm_codec M) (env_rand (tm_env M) (w_tick w)) (env_now (tm_env M) (Suc (w_tick w))) p (w_db w))\<rparr>)"
  "wp (tm_UpdateProject M p) w Q =
     Q (fst (UpdateProject (tm_codec M) (env_rand (tm_env M) (w_tick w)) (env_now (tm_env M) (Suc (w_tick w))) p (w_db w)))
       (w\<lparr>w_tick := Suc (Suc (w_tick w)), w_db :=
          snd (UpdateProject (tm_codec M) (env_rand (tm_env M) (w_tick w)) (env_now (tm_env M) (Suc (w_tick w))) p (w_db w))\<rparr>)"
  by (simp_all add: tm_CreateProject_def tm_UpdateProject_def wp_rand_Read wp_time_Now)

text \<open>What a reconciliation of an enabled tunnel starts.\<close>

definition tunnel_tasks ::
    "Project result \<Rightarrow> string \<Rightarrow> Tunnel \<Rightarrow> ingressEntry list \<Rightarrow> bool \<Rightarrow> TunnelTask list \<Rightarrow> bool" where
  "tunnel_tasks existing sp t ingress changed tasks \<longleftrightarrow>
     (case existing of
        Inl e \<Rightarrow> (\<exists>p. tasks = [StartSystem p] \<and> p_ID p = SystemProjectID (t_ID t) \<and> p_StackPath p = sp)
      | Inr q \<Rightarrow>
          tasks = (if changed then [RestartCloudflared sp (t_ID t)] else []) @
            (if t_CFAPIToken t \<noteq> '''' \<and> ingress \<noteq> [] then [SyncDNS t ingress] else []))"

lemma wp_reconcile_project:
  assumes "t_Enabled t"
  shows "wp (reconcile_project M sp t ingress changed) w (\<lambda>(r, tasks) w'. w_fs w' = w_fs w \<and> (r = Inr () \<longrightarrow>
    tunnel_tasks (GetProject (tm_codec M) (w_db w) (SystemProjectID (t_ID t))) sp t ingress changed tasks))"
proof (cases "GetProject (tm_codec M) (w_db w) (SystemProjectID (t_ID t))")
  case (Inl e)
  then show ?thesis
    by (simp add: reconcile_project_def Let_def wp_time_Now wp_tm_projects tunnel_tasks_def buildSystemProject_def
        split: sum.split)
next
  case (Inr q)
  then show ?thesis
    using assms by (simp add: reconcile_project_def Let_def wp_time_Now wp_tm_projects tunnel_tasks_def
        split: sum.split)
qed

text \<open>
  The files of the tunnel after a reconciliation; a change of the rules in a file that was there
  is a change for \<open>tunnel_tasks\<close>.
\<close>

definition tunnel_synced :: "Manager \<Rightarrow> Tunnel \<Rightarrow> ingressEntry list \<Rightarrow> World \<Rightarrow> TunnelTask list \<Rightarrow> World \<Rightarrow> bool" where
  "tunnel_synced M t ingress w tasks w' \<longleftrightarrow>
     (let sp = Join2 (tm_stackRoot M) (SystemProjectID (t_ID t)) in
      fs_contents (w_fs w') (config_path sp) = Some (config_text t ingress) \<and>
      fs_contents (w_fs w') (credentials_path sp) = Some (tm_marshal M (credentials_of t)) \<and>
      (\<exists>changed. tunnel_tasks (GetProject (tm_codec M) (w_db w) (SystemProjectID (t_ID t))) sp t ingress changed tasks \<and>
         (\<forall>c. fs_contents (w_fs w) (config_path sp) = Some c \<longrightarrow> c \<noteq> config_text t ingress \<longrightarrow> changed)))"

lemma fs_contents_at: "fs_contents (w_fs w) p = Some c \<longleftrightarrow> (\<exists>m. holds_file p c m w)"
  by (auto simp: fs_contents_def holds_file_def file_at_def split: option.splits Node.splits)

lemma leaves_write_tunnel_files: "leaves own_state (write_tunnel_files M sp t ing)"
  unfolding write_tunnel_files_def writeCredentials_def writeConfigYml_def by (intro frame)

lemma system_stack_path: "Join2 root (SystemProjectID i) \<noteq> ''''"
  by (simp add: Join2_def SystemProjectID_def Clean_not_empty)

lemma ReconcileTunnel_synced:
  assumes "GetTunnel (tm_codec M) (w_db w) i = Inr t" "ListProjects (tm_codec M) (w_db w) = Inr ps" "t_Enabled t"
  shows "wp (ReconcileTunnel M i) w (\<lambda>(r, tasks) w'. r = Inr () \<longrightarrow>
    tunnel_synced M t (ingress_of (t_ID t) ps) w tasks w')"
proof -
  let ?sp = "Join2 (tm_stackRoot M) (SystemProjectID (t_ID t))" and ?ing = "ingress_of (t_ID t) ps"
  have "wp (write_tunnel_files M ?sp t ?ing) w (\<lambda>f w'. wp (case f of
      Inl err \<Rightarrow> ret (Inl err, []) | Inr changed \<Rightarrow> reconcile_project M ?sp t ?ing changed) w'
        (\<lambda>(r, tasks) w'. r = Inr () \<longrightarrow> tunnel_synced M t ?ing w tasks w'))"
  proof (rule wp_mono [OF wp_conj [OF wp_write_tunnel_files [OF system_stack_path] wp_leaves [OF leaves_write_tunnel_files]]], elim conjE)
    fix f :: "bool result" and w1
    assume f: "\<forall>c. f = Inr c \<longrightarrow> (\<exists>m. holds_file (config_path ?sp) (config_text t ?ing) m w1) \<and>
        holds_file (credentials_path ?sp) (tm_marshal M (credentials_of t)) 420 w1 \<and>
        (\<forall>c0 m. holds_file (config_path ?sp) c0 m w \<longrightarrow> c0 \<noteq> config_text t ?ing \<longrightarrow> c)"
      and own: "own_state w1 = own_state w"
    show "wp (case f of Inl err \<Rightarrow> ret (Inl err, []) | Inr changed \<Rightarrow> reconcile_project M ?sp t ?ing changed) w1
        (\<lambda>(r, tasks) w'. r = Inr () \<longrightarrow> tunnel_synced M t ?ing w tasks w')"
    proof (cases f)
      case (Inr c)
      from f [rule_format, OF Inr] have
        files: "fs_contents (w_fs w1) (config_path ?sp) = Some (config_text t ?ing)"
          "fs_contents (w_fs w1) (credentials_path ?sp) = Some (tm_marshal M (credentials_of t))"
        and ch: "\<forall>c0. fs_contents (w_fs w) (config_path ?sp) = Some c0 \<longrightarrow> c0 \<noteq> config_text t ?ing \<longrightarrow> c"
        unfolding fs_contents_at by blast+
      have db: "w_db w1 = w_db w" using own by (simp add: own_state_def)
      show ?thesis
        unfolding Inr sum.case
        by (rule wp_mono [OF wp_reconcile_project [OF assms(3)]])
           (use files ch db in \<open>auto simp: tunnel_synced_def Let_def\<close>)
    qed simp
  qed
  then show ?thesis
    by (simp add: ReconcileTunnel_def assms(1,2) collectIngressFor_def Let_def)
qed

section \<open>The database stays well-formed\<close>

lemma Stop_ok [wf_intros]: "keeps (\<lambda>w. db_ok (w_db w)) (Stop D p)"
  unfolding Stop_def put_state_def read_state_def Let_def
  by (intro wf_intros keeps_own [OF leaves_emits(4)] keeps_own [OF leaves_composeCmd(2)])

lemma Start_ok [wf_intros]: "keeps (\<lambda>w. db_ok (w_db w)) (Start D p)"
  unfolding Start_def start_failed_def put_state_def read_state_def Let_def
  by (intro wf_intros keeps_own [OF leaves_emits(4)] keeps_own [OF leaves_composeCmd(2)]
      keeps_own [OF leaves_write_files(1)])

lemma tm_projects_ok [wf_intros]: "keeps (\<lambda>w. db_ok (w_db w)) (tm_CreateProject M p)"
    "keeps (\<lambda>w. db_ok (w_db w)) (tm_UpdateProject M p)"
  unfolding tm_CreateProject_def tm_UpdateProject_def by (intro wf_intros; assumption)+

lemma ReconcileTunnel_ok [wf_intros]: "keeps (\<lambda>w. db_ok (w_db w)) (ReconcileTunnel M i)"
  unfolding ReconcileTunnel_def reconcile_project_def collectIngressFor_def Let_def
  by (intro wf_intros keeps_own [OF leaves_write_tunnel_files])

lemma reconcile_tunnels_ok: "keeps (\<lambda>w. db_ok (w_db w)) (reconcile_tunnels M e ts)"
  by (induction ts arbitrary: e) (auto intro!: wf_intros split: sum.splits option.splits)

lemma ReconcileAll_ok [wf_intros]: "keeps (\<lambda>w. db_ok (w_db w)) (ReconcileAll M)"
  unfolding ReconcileAll_def by (intro wf_intros reconcile_tunnels_ok)

lemma tm_DeleteTunnel_ok [wf_intros]: "keeps (\<lambda>w. db_ok (w_db w)) (tm_DeleteTunnel M i)"
  unfolding tm_DeleteTunnel_def Let_def
  by (intro wf_intros keeps_own [OF leaves_RemoveAll(1)]; assumption?)

lemma leaves_list_zones [frame]: "leaves own_state (list_zones_from C n zs)"
proof (induction C n zs rule: list_zones_from.induct)
  case (1 C n zs)
  show ?case
    by (subst list_zones_from.simps, rule leaves_bind [OF leaves_cf_do(1)], rename_tac r, case_tac r)
       (auto simp: leaves_ret intro: 1)
qed

lemma leaves_syncDNS [frame]: "leaves own_state (syncDNS M t ing)"
  unfolding syncDNS_def ListZones_def sync_entry_def ensureCNAME_def ListDNSRecords_def UpdateDNSRecord_def
    CreateDNSRecord_def Let_def
  by (intro frame)

lemma run_tunnel_task_ok [wf_intros]: "keeps (\<lambda>w. db_ok (w_db w)) (run_tunnel_task M k)"
  by (cases k) (auto simp: run_tunnel_task_def restartCloudflared_def
      intro!: wf_intros keeps_own [OF leaves_syncDNS] keeps_own [OF leaves_exec(1)])

lemma leaves_check_routes [frame]: "leaves own_state (check_routes C zones x rts)"
  by (induction rts) (auto simp: check_route_def ListDNSRecords_def intro!: frame)

lemma RoutesFor_ok [wf_intros]: "keeps (\<lambda>w. db_ok (w_db w)) (RoutesFor M i)"
  unfolding RoutesFor_def ListZones_def collectIngressFor_def Let_def
  by (intro wf_intros keeps_own [OF leaves_list_zones] keeps_own [OF leaves_check_routes])

section \<open>Properties\<close>

text \<open>
  Property C24. The ingress rules of a tunnel are sorted by host name, and are exactly the host
  names, with their ports, that services of enabled projects (system projects apart) publish on
  that tunnel with a name and a positive port.
\<close>

theorem ingress_is_what_is_published:
  "sorted (map ie_Hostname (ingress_of tunnelID ps)) \<and>
   set (ingress_of tunnelID ps) =
     {\<lparr>ie_Hostname = ph_Hostname h, ie_Port = ph_Port h, ie_ProjectID = p_ID p, ie_Service = svc_Name svc\<rparr> | h svc p.
        p \<in> set ps \<and> \<not> p_IsSystem p \<and> p_Enabled p \<and> svc \<in> set (p_Services p) \<and> h \<in> set (svc_PublicHostnames svc) \<and>
        ph_TunnelID h = tunnelID \<and> ph_Hostname h \<noteq> '''' \<and> 0 < ph_Port h}"
  by (auto simp: ingress_of_def hostname_entries_def split: if_splits) (force simp: not_le)+


text \<open>A tunnel that is created disabled is started all the same.\<close>

lemma disabled_tunnel_is_started:
  assumes "GetProject (tm_codec M) (w_db w) (SystemProjectID (t_ID t)) = Inl e" "\<not> t_Enabled t"
  shows "wp (reconcile_project M sp t ingress changed) w (\<lambda>(r, tasks) w'. r = Inr () \<longrightarrow>
    (\<exists>p. tasks = [StartSystem p] \<and> \<not> p_Enabled p))"
  using assms
  by (simp add: reconcile_project_def Let_def wp_time_Now wp_tm_projects buildSystemProject_def split: sum.split)

text \<open>A tunnel that is enabled again, with the rules it had, is not.\<close>

lemma enabled_again_is_not_started:
  assumes "GetProject (tm_codec M) (w_db w) (SystemProjectID (t_ID t)) = Inr q" "t_Enabled t"
  shows "wp (reconcile_project M sp t ingress False) w (\<lambda>(r, tasks) w'. r = Inr () \<longrightarrow>
    (\<forall>k \<in> set tasks. k = SyncDNS t ingress))"
  by (rule wp_mono [OF wp_reconcile_project [OF assms(2)]]) (auto simp: tunnel_tasks_def assms(1) split: if_splits)

section \<open>Records\<close>

lemma find_first: "find P xs = Some x \<Longrightarrow> \<exists>ys zs. xs = ys @ x # zs \<and> (\<forall>y \<in> set ys. \<not> P y) \<and> P x"
  by (induction xs) (auto split: if_splits intro: exI [of _ "[]"], metis append_Cons set_ConsD)

lemma find_routing_CNAME:
  assumes "find routing_record recs = Some r" "dr_Type r = ''CNAME''"
  shows "find (\<lambda>r. dr_Type r = ''CNAME'') recs = Some r"
  using assms by (induction recs) (auto simp: routing_record_def split: if_splits)

lemma find_CNAME_routing:
  assumes "find (\<lambda>r. dr_Type r = ''CNAME'') recs = Some r"
    and "\<forall>a \<in> set recs. \<not> (dr_Type a = ''A'' \<or> dr_Type a = ''AAAA'')"
  shows "find routing_record recs = Some r"
  using assms by (induction recs) (auto simp: routing_record_def split: if_splits)

lemma classify_ok:
  "rd_Status (classifyDNS target recs) = ''ok'' \<longleftrightarrow>
   (\<exists>r. find (\<lambda>r. dr_Type r = ''CNAME'') recs = Some r \<and> record_correct target r)"
proof -
  have type: "dr_Type r = ''CNAME''" if "find (\<lambda>r. dr_Type r = ''CNAME'') recs = Some r" for r
    using find_first [OF that] by blast
  have addr: "dr_Type r \<noteq> ''CNAME''" if "find (\<lambda>r. dr_Type r = ''A'' \<or> dr_Type r = ''AAAA'') recs = Some r" for r
    using find_first [OF that] by fastforce
  show ?thesis
    by (auto simp: classifyDNS_def pick_record_def picked_dns_def no_dns_def record_correct_def
        dest: type addr split: option.splits if_splits)
qed

text \<open>The answer to the listing of a name.\<close>

definition listed :: "Client \<Rightarrow> nat \<Rightarrow> string \<Rightarrow> string \<Rightarrow> DNSRecord list result" where
  "listed C t zoneID name = cf_answer C t ''GET'' (request_url (dns_path zoneID) (''name='' @ QueryEscape name)) ''''
     (cf_records (cl_api C)) []"


end
