(* ===== verification/Web_Api.thy ===== *)
theory Web_Api
  imports Project_Rules Scheduler Tunnels
begin

text \<open>
  \<open>internal/web/api.go\<close> and the session part of \<open>server.go\<close>: the handlers of authentication and
  of projects, as programs over the world that return the reply: its status, its body or error
  text, and the goroutines it starts. The sessions (\<open>sync.Map\<close>) are passed explicitly. JSON and
  YAML readers, bcrypt and the tunnel manager are fields of the server.
\<close>

section \<open>Server and replies\<close>

text \<open>The work a handler leaves to a goroutine.\<close>

datatype Task =
    TaskReconcile string | TaskRollback Project | TaskStop Project | TaskStart Project
  | TaskReconcileTunnels | TaskReconcileTunnel string | TaskTunnel TunnelTask

record Server =
  srv_deployer :: Deployer
  srv_scheduler :: Scheduler
  srv_codec :: Codec
  srv_stackRoot :: string
  srv_tunnels :: "Manager option"
  srv_json :: "string \<Rightarrow> Project result"
  srv_yaml :: "string \<Rightarrow> Project result"
  srv_legacy :: "string \<Rightarrow> LegacyConfig option"
  srv_password :: "string \<Rightarrow> string option"
  srv_hash :: "nat \<Rightarrow> string \<Rightarrow> string option"
  srv_verify :: "string \<Rightarrow> string \<Rightarrow> bool"

abbreviation srv_env :: "Server \<Rightarrow> Env" where
  "srv_env S \<equiv> dep_env (srv_deployer S)"

datatype Body =
    OkFlag | AuthStatus bool bool | OneProject Project
  | ManyProjects "(Project \<times> ProjectState option) list"
  | ProjectDetail Project "ProjectState option" "Deployment list"

type_synonym 'b reply = "int \<times> 'b result \<times> Task list"

definition reply_error :: "int \<Rightarrow> error \<Rightarrow> 'b reply io" where
  "reply_error code msg = ret (code, Inl msg, [])"

definition reply_ok :: "int \<Rightarrow> 'b \<Rightarrow> Task list \<Rightarrow> 'b reply io" where
  "reply_ok code b tasks = ret (code, Inr b, tasks)"

definition reconcileTunnels :: "Server \<Rightarrow> Task list" where
  "reconcileTunnels S = (case srv_tunnels S of None \<Rightarrow> [] | Some m \<Rightarrow> [TaskReconcileTunnels])"

definition with_tunnels :: "Server \<Rightarrow> (Manager \<Rightarrow> unit io) \<Rightarrow> unit io" where
  "with_tunnels S k = (case srv_tunnels S of None \<Rightarrow> ret () | Some M \<Rightarrow> k M)"

text \<open>A goroutine, when it runs; what it returns is dropped. The goroutines it starts run after it.\<close>

definition run_task :: "Server \<Rightarrow> Task \<Rightarrow> unit io" where
  "run_task S t =
     (case t of
        TaskReconcile i \<Rightarrow> do { r \<leftarrow> TriggerManualReconcile (srv_scheduler S) i; ret () }
      | TaskRollback p \<Rightarrow> do { r \<leftarrow> ManualRollback (srv_deployer S) p; ret () }
      | TaskStop p \<Rightarrow> do { r \<leftarrow> Stop (srv_deployer S) p; ret () }
      | TaskStart p \<Rightarrow> do { r \<leftarrow> Start (srv_deployer S) p; ret () }
      | TaskReconcileTunnels \<Rightarrow>
          with_tunnels S (\<lambda>M. do { r \<leftarrow> ReconcileAll M; io_each (run_tunnel_task M) (snd r) })
      | TaskReconcileTunnel i \<Rightarrow>
          with_tunnels S (\<lambda>M. do { r \<leftarrow> ReconcileTunnel M i; io_each (run_tunnel_task M) (snd r) })
      | TaskTunnel k \<Rightarrow> with_tunnels S (\<lambda>M. run_tunnel_task M k))"

section \<open>Database calls\<close>

definition io_CreateProject :: "Server \<Rightarrow> Project \<Rightarrow> unit result io" where
  "io_CreateProject S p = do {
     r \<leftarrow> rand_Read (srv_env S);
     now \<leftarrow> time_Now (srv_env S);
     db_exec (CreateProject (srv_codec S) r now p)
   }"

definition io_UpdateProject :: "Server \<Rightarrow> Project \<Rightarrow> unit result io" where
  "io_UpdateProject S p = do {
     r \<leftarrow> rand_Read (srv_env S);
     now \<leftarrow> time_Now (srv_env S);
     db_exec (UpdateProject (srv_codec S) r now p)
   }"

section \<open>Sessions\<close>

type_synonym sessions = "(string \<times> int) list"

definition hex_encode :: "string \<Rightarrow> string" where
  "hex_encode s = concat (map (\<lambda>c. [hex_digit (of_char c div 16), hex_digit (of_char c)]) s)"

definition session_ns :: int where
  "session_ns = 24 * 60 * 60 * 1000000000"

text \<open>The error of \<open>rand.Read\<close> is dropped; the token is zero then.\<close>

definition createSession :: "Server \<Rightarrow> sessions \<Rightarrow> (string \<times> sessions) io" where
  "createSession S ss = do {
     r \<leftarrow> rand_Read (srv_env S);
     let token = hex_encode (case r of Inl err \<Rightarrow> replicate 32 (char_of (0::nat)) | Inr b \<Rightarrow> b);
     now \<leftarrow> time_Now (srv_env S);
     ret (token, AList.update token (now + session_ns) ss)
   }"

definition apiAuth ::
    "Server \<Rightarrow> string option \<Rightarrow> sessions \<Rightarrow> ('b reply \<times> sessions) io \<Rightarrow> ('b reply \<times> sessions) io" where
  "apiAuth S cookie ss next =
     (case cookie of
        None \<Rightarrow> do { r \<leftarrow> reply_error 401 ''unauthorized''; ret (r, ss) }
      | Some token \<Rightarrow>
          (case map_of ss token of
             None \<Rightarrow> do {
               r \<leftarrow> reply_error 401 ''unauthorized'';
               ret (r, AList.delete token ss)
             }
           | Some expiry \<Rightarrow> do {
               now \<leftarrow> time_Now (srv_env S);
               (if expiry < now then do {
                  r \<leftarrow> reply_error 401 ''unauthorized'';
                  ret (r, AList.delete token ss)
                }
                else next)
             }))"

definition apiAuthStatus :: "Server \<Rightarrow> string option \<Rightarrow> sessions \<Rightarrow> Body reply io" where
  "apiAuthStatus S cookie ss = do {
     h \<leftarrow> db_read GetPasswordHash;
     loggedIn \<leftarrow> (case Option.bind cookie (map_of ss) of
        None \<Rightarrow> ret False
      | Some expiry \<Rightarrow> do { now \<leftarrow> time_Now (srv_env S); ret (now < expiry) });
     reply_ok 200 (AuthStatus (isl h) loggedIn) []
   }"

definition apiSetup :: "Server \<Rightarrow> string \<Rightarrow> sessions \<Rightarrow> (Body reply \<times> sessions) io" where
  "apiSetup S body ss = do {
     h \<leftarrow> db_read GetPasswordHash;
     case h of
       Inr hash \<Rightarrow> do { r \<leftarrow> reply_error 409 ''already set up''; ret (r, ss) }
     | Inl e \<Rightarrow>
         (case srv_password S body of
            None \<Rightarrow> do { r \<leftarrow> reply_error 400 ''password must be at least 8 characters''; ret (r, ss) }
          | Some password \<Rightarrow>
              if length password < 8
              then do { r \<leftarrow> reply_error 400 ''password must be at least 8 characters''; ret (r, ss) }
              else do {
                salt \<leftarrow> io_tick;
                let hash = (case srv_hash S salt password of None \<Rightarrow> '''' | Some h \<Rightarrow> h);
                now \<leftarrow> time_Now (srv_env S);
                db_write (SetPassword now hash);
                s \<leftarrow> createSession S ss;
                r \<leftarrow> reply_ok 200 OkFlag [];
                ret (r, snd s)
              })
   }"

definition apiLogin :: "Server \<Rightarrow> string \<Rightarrow> sessions \<Rightarrow> (Body reply \<times> sessions) io" where
  "apiLogin S body ss = do {
     h \<leftarrow> db_read GetPasswordHash;
     case h of
       Inl e \<Rightarrow> do { r \<leftarrow> reply_error 412 ''not set up''; ret (r, ss) }
     | Inr hash \<Rightarrow>
         (case srv_password S body of
            None \<Rightarrow> do { r \<leftarrow> reply_error 400 ''invalid request''; ret (r, ss) }
          | Some password \<Rightarrow>
              if \<not> srv_verify S hash password
              then do { r \<leftarrow> reply_error 401 ''invalid password''; ret (r, ss) }
              else do {
                s \<leftarrow> createSession S ss;
                r \<leftarrow> reply_ok 200 OkFlag [];
                ret (r, snd s)
              })
   }"

definition apiLogout :: "string option \<Rightarrow> sessions \<Rightarrow> (Body reply \<times> sessions) io" where
  "apiLogout cookie ss = do {
     r \<leftarrow> reply_ok 200 OkFlag [];
     ret (r, case cookie of None \<Rightarrow> ss | Some token \<Rightarrow> AList.delete token ss)
   }"

section \<open>Projects\<close>

definition decodeProject :: "Server \<Rightarrow> string \<Rightarrow> Project result" where
  "decodeProject S body =
     (case srv_json S body of Inl err \<Rightarrow> Inl (''invalid JSON: '' @ err) | Inr p \<Rightarrow> Inr p)"

definition validated :: "Server \<Rightarrow> Project \<Rightarrow> bool \<Rightarrow> Project result" where
  "validated S p isNew = validateAndDefaultProject (srv_stackRoot S) (srv_legacy S) p isNew"

definition apiListProjects :: "Server \<Rightarrow> bool \<Rightarrow> Body reply io" where
  "apiListProjects S includeSystem = do {
     r \<leftarrow> db_read (ListProjectsWithState (srv_codec S));
     case r of
       Inl err \<Rightarrow> reply_error 500 err
     | Inr projects \<Rightarrow>
         reply_ok 200 (ManyProjects (map (\<lambda>(p, s).
             (p\<lparr>p_EnvVars := redactedEnvVars (p_EnvVars p) (p_SecretEnvKeys p)\<rparr>, s))
           (filter (\<lambda>(p, s). includeSystem \<or> \<not> p_IsSystem p) projects))) []
   }"

definition apiGetProject :: "Server \<Rightarrow> string \<Rightarrow> Body reply io" where
  "apiGetProject S i = do {
     r \<leftarrow> db_read (\<lambda>d. GetProject (srv_codec S) d i);
     case r of
       Inl err \<Rightarrow> reply_error 404 ''project not found''
     | Inr p \<Rightarrow> do {
         state \<leftarrow> db_read (\<lambda>d. GetState d i);
         deployments \<leftarrow> db_read (\<lambda>d. ListDeployments d i 20);
         reply_ok 200 (ProjectDetail (redactedProject p)
           (case state of Inl e \<Rightarrow> None | Inr s \<Rightarrow> Some s) deployments) []
       }
   }"

definition apiCreateProject :: "Server \<Rightarrow> string \<Rightarrow> Body reply io" where
  "apiCreateProject S body =
     (case decodeProject S body of
        Inl err \<Rightarrow> reply_error 400 err
      | Inr p \<Rightarrow>
     case validated S p True of
        Inl err \<Rightarrow> reply_error 400 err
      | Inr p \<Rightarrow>
     case resolveProjectSecrets p None of
        Inl err \<Rightarrow> reply_error 400 err
      | Inr p \<Rightarrow> do {
          r \<leftarrow> io_CreateProject S p;
          case r of
            Inl err \<Rightarrow>
              if Contains err ''UNIQUE'' then reply_error 409 ''project ID already exists''
              else reply_error 500 err
          | Inr u \<Rightarrow> reply_ok 201 (OneProject (redactedProject p)) (reconcileTunnels S)
        })"

definition project_updated :: "Server \<Rightarrow> Project \<Rightarrow> unit io" where
  "project_updated S p = emit (srv_deployer S) (mk_event EventProjectUpdated (p_ID p))"

definition apiUpdateProject :: "Server \<Rightarrow> string \<Rightarrow> string \<Rightarrow> Body reply io" where
  "apiUpdateProject S i body =
     (case decodeProject S body of
        Inl err \<Rightarrow> reply_error 400 err
      | Inr p \<Rightarrow> do {
          existing \<leftarrow> db_read (\<lambda>d. GetProject (srv_codec S) d i);
          case existing of
            Inl err \<Rightarrow> reply_error 404 ''project not found''
          | Inr ex \<Rightarrow>
          (case validated S (p\<lparr>p_ID := i\<rparr>) False of
             Inl err \<Rightarrow> reply_error 400 err
           | Inr p \<Rightarrow>
          case resolveProjectSecrets p (Some ex) of
             Inl err \<Rightarrow> reply_error 400 err
           | Inr p \<Rightarrow> do {
               r \<leftarrow> io_UpdateProject S p;
               case r of
                 Inl err \<Rightarrow> reply_error 500 err
               | Inr u \<Rightarrow> do {
                   project_updated S p;
                   reply_ok 200 (OneProject (redactedProject p)) (reconcileTunnels S)
                 }
             })
        })"

definition apiDeleteProject :: "Server \<Rightarrow> string \<Rightarrow> Body reply io" where
  "apiDeleteProject S i = do {
     r \<leftarrow> db_read (\<lambda>d. GetProject (srv_codec S) d i);
     case r of
       Inl err \<Rightarrow> reply_error 404 ''project not found''
     | Inr p \<Rightarrow> do {
         stopped \<leftarrow> Stop (srv_deployer S) p;
         emit (srv_deployer S) (mk_event EventProjectDeleted i);
         deleted \<leftarrow> db_exec (DeleteProject i);
         reply_ok 200 OkFlag (reconcileTunnels S)
       }
   }"

section \<open>Actions\<close>

definition apiDeploy :: "Server \<Rightarrow> string \<Rightarrow> Body reply io" where
  "apiDeploy S i = reply_ok 202 OkFlag [TaskReconcile i]"

definition with_project :: "Server \<Rightarrow> string \<Rightarrow> (Project \<Rightarrow> Task) \<Rightarrow> Body reply io" where
  "with_project S i task = do {
     r \<leftarrow> db_read (\<lambda>d. GetProject (srv_codec S) d i);
     case r of
       Inl err \<Rightarrow> reply_error 404 ''project not found''
     | Inr p \<Rightarrow> reply_ok 202 OkFlag [task p]
   }"

definition apiRollback :: "Server \<Rightarrow> string \<Rightarrow> Body reply io" where
  "apiRollback S i = with_project S i TaskRollback"

definition apiStop :: "Server \<Rightarrow> string \<Rightarrow> Body reply io" where
  "apiStop S i = with_project S i TaskStop"

definition apiStart :: "Server \<Rightarrow> string \<Rightarrow> Body reply io" where
  "apiStart S i = with_project S i TaskStart"

section \<open>Import\<close>

text \<open>Update first, create when the project cannot be read.\<close>

definition upsertProject :: "Server \<Rightarrow> Project \<Rightarrow> Body reply io" where
  "upsertProject S p =
     (case validated S p True of
        Inl err \<Rightarrow> reply_error 400 err
      | Inr p \<Rightarrow> do {
          existing \<leftarrow> db_read (\<lambda>d. GetProject (srv_codec S) d (p_ID p));
          case resolveProjectSecrets p (case existing of Inl e \<Rightarrow> None | Inr ex \<Rightarrow> Some ex) of
            Inl err \<Rightarrow> reply_error 400 err
          | Inr p \<Rightarrow> do {
              r \<leftarrow> (case existing of Inr ex \<Rightarrow> io_UpdateProject S p | Inl e \<Rightarrow> io_CreateProject S p);
              case r of
                Inl err \<Rightarrow> reply_error 500 err
              | Inr u \<Rightarrow> do {
                  project_updated S p;
                  reply_ok 200 (OneProject (redactedProject p)) (reconcileTunnels S)
                }
            }
        })"

definition importYAML :: "Server \<Rightarrow> string \<Rightarrow> Body reply io" where
  "importYAML S data =
     (case srv_yaml S data of
        Inl err \<Rightarrow> reply_error 400 (''invalid YAML: '' @ err)
      | Inr p \<Rightarrow> upsertProject S p)"

text \<open>The first two bytes tell a gzip stream from YAML.\<close>

definition is_gzip :: "string \<Rightarrow> bool" where
  "is_gzip body = HasPrefix body [CHR 0x1F, CHR 0x8B]"

section \<open>Lemmas\<close>

declare wp_rand_Read [simp] wp_time_Now [simp] wp_io_tick [simp]

lemma wp_reply [simp]:
  "wp (reply_error code msg) w Q = Q (code, Inl msg, []) w"
  "wp (reply_ok code b tasks) w Q = Q (code, Inr b, tasks) w"
  by (simp_all add: reply_error_def reply_ok_def)

lemma keeps_reply [wf_intros]: "keeps P (reply_error code msg)" "keeps P (reply_ok code b tasks)"
  by (simp_all add: reply_error_def reply_ok_def wf_intros)

text \<open>An event published by a handler, and nothing else of interest.\<close>

lemma wp_project_updated:
  assumes "\<And>w'. w_db w' = w_db w \<Longrightarrow> w_locks w' = w_locks w \<Longrightarrow> Q () w'"
  shows "wp (project_updated S p) w Q"
  unfolding project_updated_def by (rule wp_own [OF leaves_emit(1)]) (use assms in auto)

lemma UpdateProject_error: "UpdateProject cd r now p db = (Inl e, db') \<Longrightarrow> db' = db"
  by (auto simp: UpdateProject_def split: sum.splits)

lemma CreateProject_error: "CreateProject cd r now p db = (Inl e, db') \<Longrightarrow> db' = db"
  by (auto simp: CreateProject_def Let_def split: sum.splits if_splits)

text \<open>Writing a project: an error leaves the database alone.\<close>

definition wrote :: "Server \<Rightarrow> Project \<Rightarrow> bool \<Rightarrow> World \<Rightarrow> DB \<Rightarrow> bool" where
  "wrote S p isNew w db' \<longleftrightarrow>
     (\<exists>now. (Inr (), db') =
        (if isNew then CreateProject (srv_codec S) (env_rand (srv_env S) (w_tick w)) now p (w_db w)
         else UpdateProject (srv_codec S) (env_rand (srv_env S) (w_tick w)) now p (w_db w)))"

lemma wp_io_CreateProject:
  assumes "\<And>e w'. w' = w\<lparr>w_tick := Suc (Suc (w_tick w))\<rparr> \<Longrightarrow> Q (Inl e) w'"
    and "\<And>w'. wrote S p True w (w_db w') \<Longrightarrow> w_locks w' = w_locks w \<Longrightarrow> Q (Inr ()) w'"
  shows "wp (io_CreateProject S p) w Q"
proof -
  let ?now = "env_now (srv_env S) (Suc (w_tick w))"
  let ?r = "CreateProject (srv_codec S) (env_rand (srv_env S) (w_tick w)) ?now p (w_db w)"
  have "Q (fst ?r) (w\<lparr>w_tick := Suc (Suc (w_tick w)), w_db := snd ?r\<rparr>)"
  proof (cases "fst ?r")
    case (Inl e)
    then have "snd ?r = w_db w" using CreateProject_error by (metis prod.collapse)
    with Inl show ?thesis by (simp add: assms(1))
  next
    case (Inr u)
    then have "wrote S p True w (snd ?r)" unfolding wrote_def by (metis (full_types) old.unit.exhaust prod.collapse)
    with Inr show ?thesis by (simp add: assms(2))
  qed
  then show ?thesis by (simp add: io_CreateProject_def)
qed

lemma wp_io_UpdateProject:
  assumes "\<And>e w'. w' = w\<lparr>w_tick := Suc (Suc (w_tick w))\<rparr> \<Longrightarrow> Q (Inl e) w'"
    and "\<And>w'. wrote S p False w (w_db w') \<Longrightarrow> w_locks w' = w_locks w \<Longrightarrow> Q (Inr ()) w'"
  shows "wp (io_UpdateProject S p) w Q"
proof -
  let ?now = "env_now (srv_env S) (Suc (w_tick w))"
  let ?r = "UpdateProject (srv_codec S) (env_rand (srv_env S) (w_tick w)) ?now p (w_db w)"
  have "Q (fst ?r) (w\<lparr>w_tick := Suc (Suc (w_tick w)), w_db := snd ?r\<rparr>)"
  proof (cases "fst ?r")
    case (Inl e)
    then have "snd ?r = w_db w" using UpdateProject_error by (metis prod.collapse)
    with Inl show ?thesis by (simp add: assms(1))
  next
    case (Inr u)
    then have "wrote S p False w (snd ?r)" unfolding wrote_def by (metis (full_types) old.unit.exhaust prod.collapse)
    with Inr show ?thesis by (simp add: assms(2))
  qed
  then show ?thesis by (simp add: io_UpdateProject_def)
qed

text \<open>
  The contract of the handlers that write a project \<open>p\<close> over an existing one: an error reply
  changes nothing but the clock; a success stores the validated project with its secrets
  resolved and shows its redaction.
\<close>

definition untouched_world :: "World \<Rightarrow> World \<Rightarrow> bool" where
  "untouched_world w w' \<longleftrightarrow> (\<exists>t. w' = w\<lparr>w_tick := t\<rparr>)"

lemma untouched_worldI [simp]: "untouched_world w w" "untouched_world w (w\<lparr>w_tick := t\<rparr>)"
  unfolding untouched_world_def by (rule exI [of _ "w_tick w"], simp) blast

definition stored_reply ::
    "Server \<Rightarrow> Project \<Rightarrow> bool \<Rightarrow> Project option \<Rightarrow> World \<Rightarrow> Body reply \<Rightarrow> World \<Rightarrow> bool" where
  "stored_reply S p isNew ex w rp w' \<longleftrightarrow>
     (case rp of
        (c, Inl err, tasks) \<Rightarrow> 400 \<le> c \<and> tasks = [] \<and> untouched_world w w'
      | (c, Inr b, tasks) \<Rightarrow>
          (\<exists>v q. validated S p isNew = Inr v \<and> resolveProjectSecrets v ex = Inr q \<and>
             b = OneProject (redactedProject q) \<and> tasks = reconcileTunnels S \<and>
             wrote S q (ex = None) w (w_db w')))"

lemma stored_replyI:
  assumes "validated S p isNew = Inr v" "resolveProjectSecrets v ex = Inr q" "wrote S q (ex = None) w (w_db w')"
  shows "stored_reply S p isNew ex w (c, Inr (OneProject (redactedProject q)), reconcileTunnels S) w'"
  using assms by (auto simp: stored_reply_def)

lemma apiCreateProject_reply:
  assumes "decodeProject S body = Inr p"
  shows "wp (apiCreateProject S body) w (stored_reply S p True None w)"
proof -
  have err: "stored_reply S p True None w (c, Inl e, []) w'" if "400 \<le> c" "untouched_world w w'" for c e w'
    using that by (simp add: stored_reply_def)
  show ?thesis
    unfolding apiCreateProject_def assms
    by (auto simp: err wp_bind split: sum.splits
        intro!: wp_io_CreateProject err stored_replyI)
qed

lemma apiUpdateProject_reply:
  assumes "decodeProject S body = Inr p" "GetProject (srv_codec S) (w_db w) i = Inr ex"
  shows "wp (apiUpdateProject S i body) w (stored_reply S (p\<lparr>p_ID := i\<rparr>) False (Some ex) w)"
proof -
  have err: "stored_reply S (p\<lparr>p_ID := i\<rparr>) False (Some ex) w (c, Inl e, []) w'"
    if "400 \<le> c" "untouched_world w w'" for c e w'
    using that by (simp add: stored_reply_def)
  show ?thesis
    unfolding apiUpdateProject_def assms(1)
    by (auto simp: err assms(2) wp_bind split: sum.splits
        intro!: wp_io_UpdateProject wp_project_updated err stored_replyI)
qed

definition existing_of :: "Server \<Rightarrow> DB \<Rightarrow> string \<Rightarrow> Project option" where
  "existing_of S db i = (case GetProject (srv_codec S) db i of Inl e \<Rightarrow> None | Inr ex \<Rightarrow> Some ex)"

lemma upsertProject_reply:
  "wp (upsertProject S p) w (stored_reply S p True (existing_of S (w_db w) (p_ID p)) w)"
proof (cases "validated S p True")
  case (Inl e)
  then show ?thesis by (simp add: upsertProject_def stored_reply_def)
next
  case (Inr v)
  have id: "p_ID v = p_ID p" using Inr validated_ok by (simp add: validated_def)
  have err: "stored_reply S p True ex w (c, Inl e, []) w'" if "400 \<le> c" "untouched_world w w'" for c e w' ex
    using that by (simp add: stored_reply_def)
  show ?thesis
  proof (cases "GetProject (srv_codec S) (w_db w) (p_ID p)")
    case (Inl e)
    then show ?thesis
      by (auto simp: upsertProject_def Inr id err existing_of_def wp_bind split: sum.splits
          intro!: wp_io_CreateProject wp_project_updated err stored_replyI)
  next
    case (Inr ex)
    then show ?thesis
      by (auto simp: upsertProject_def \<open>validated S p True = Inr v\<close> id err existing_of_def wp_bind split: sum.splits
          intro!: wp_io_UpdateProject wp_project_updated err stored_replyI)
  qed
qed

section \<open>Reading back what was written\<close>

text \<open>Equal but for the environment's representation, the order of the secret keys and the times.\<close>

definition same_project :: "Project \<Rightarrow> Project \<Rightarrow> bool" where
  "same_project p q \<longleftrightarrow>
     map_of (env_entries p) = map_of (env_entries q) \<and>
     set (secretEnvKeySet (p_SecretEnvKeys p)) = set (secretEnvKeySet (p_SecretEnvKeys q)) \<and>
     q = p\<lparr>p_EnvVars := p_EnvVars q, p_SecretEnvKeys := p_SecretEnvKeys q,
           p_CreatedAt := p_CreatedAt q, p_UpdatedAt := p_UpdatedAt q\<rparr>"

lemma same_project_trans: "same_project p q \<Longrightarrow> same_project q r \<Longrightarrow> same_project p r"
  by (cases p; cases q; cases r) (simp add: same_project_def)



lemma wrote_reads_back:
  assumes "wrote S q isNew w db'" "aead_ok (srv_codec S)"
    and "rand_ok (srv_codec S) (env_rand (srv_env S) (w_tick w))"
    and "env_codec_ok (srv_codec S) (env_entries q)" "p_SecretEnvKeys q \<noteq> None"
    and "\<not> isNew \<Longrightarrow> GetProject (srv_codec S) (w_db w) (p_ID q) = Inr ex"
  shows "\<exists>r. GetProject (srv_codec S) db' (p_ID q) = Inr r \<and> same_project q r"
proof -
  let ?cd = "srv_codec S" let ?rand = "env_rand (srv_env S) (w_tick w)"
  obtain v where v: "secret_encrypt ?cd ?rand (projectEnvAAD (p_ID q)) (cd_marshal_env ?cd (env_entries q)) = Inr v"
    using secret_encrypt_rand_ok [OF assms(3)] by blast
  obtain m where m: "decodeProjectEnv ?cd (p_ID q) v = Inr m" "map_of m = map_of (env_entries q)"
    using decode_encrypted_env [OF assms(2,3,4) v] by blast
  obtain ks where ks: "p_SecretEnvKeys q = Some ks" using assms(5) by blast
  let ?r = "\<lambda>c u. q\<lparr>p_EnvVars := Some m, p_SecretEnvKeys := (if ks = [] then None else Some (sort ks)),
    p_CreatedAt := c, p_UpdatedAt := u\<rparr>"
  have scan: "scanProject ?cd \<lparr>row_project = project_columns q c u, row_env_vars = v,
      row_secret_env_keys = marshalSecretEnvKeys (env_entries q) (p_SecretEnvKeys q)\<rparr> = Inr (?r c u)" for c u
    by (simp add: scanProject_def scan_marshal project_columns_def m(1) ks)
  have same: "same_project q (?r c u)" for c u
    by (simp add: same_project_def m(2) env_entries_def [of "?r c u"] secretEnvKeySet_def ks)
  have "\<exists>c u. GetProject ?cd db' (p_ID q) = Inr (?r c u)"
  proof (cases isNew)
    case True
    then obtain now where c: "CreateProject ?cd ?rand now q (w_db w) = (Inr (), db')"
      using assms(1) by (auto simp: wrote_def)
    then have "p_ID q \<notin> table_keys (db_projects (w_db w))"
      by (auto simp: CreateProject_def v split: if_splits)
    then have "map_of (db_projects (w_db w)) (p_ID q) = None"
      by (simp add: map_of_eq_None table_keys_def)
    then have "GetProject ?cd db' (p_ID q) = Inr (?r (rfc3339 now) (rfc3339 now))"
      using c scan by (auto simp: CreateProject_def v Let_def GetProject_def map_of_sql_insert split: if_splits)
    then show ?thesis by blast
  next
    case False
    then obtain now where u: "UpdateProject ?cd ?rand now q (w_db w) = (Inr (), db')"
      using assms(1) by (auto simp: wrote_def)
    from False assms(6) obtain row where "map_of (db_projects (w_db w)) (p_ID q) = Some row"
      by (auto simp: GetProject_def split: option.splits)
    then have "GetProject ?cd db' (p_ID q) = Inr (?r (p_CreatedAt (row_project row)) (rfc3339 now))"
      using u scan by (auto simp: UpdateProject_def v GetProject_def map_of_sql_update)
    then show ?thesis by blast
  qed
  with same show ?thesis by blast
qed

lemma resolved_fields:
  assumes "resolveProjectSecrets v ex = Inr q"
  shows "p_ID q = p_ID v" "p_SecretEnvKeys q \<noteq> None" "q = v\<lparr>p_EnvVars := p_EnvVars q, p_SecretEnvKeys := p_SecretEnvKeys q\<rparr>"
  using assms by (auto simp: resolveProjectSecrets_def Let_def split: sum.splits)

lemma redacted_ok: "project_ok (redactedProject p) = project_ok p"
    "p_ID (redactedProject p) = p_ID p"
  by (simp_all add: redactedProject_def project_ok_def backup_ok_def legacy_applies_def cong: option.case_cong)

section \<open>Properties\<close>


definition store_ok :: "Server \<Rightarrow> bool" where
  "store_ok S \<longleftrightarrow> aead_ok (srv_codec S) \<and> (\<forall>t. rand_ok (srv_codec S) (env_rand (srv_env S) t)) \<and>
     (\<forall>m. env_codec_ok (srv_codec S) m)"

lemma update_stores:
  assumes "store_ok S" "GetProject (srv_codec S) (w_db w) i = Inr ex" "decodeProject S body = Inr p"
    and "run_state (apiUpdateProject S i body) w = ((c, Inr b, tasks), w')"
  shows "\<exists>v q r. validated S (p\<lparr>p_ID := i\<rparr>) False = Inr v \<and> resolveProjectSecrets v (Some ex) = Inr q \<and>
    b = OneProject (redactedProject q) \<and> GetProject (srv_codec S) (w_db w') i = Inr r \<and> same_project q r"
proof -
  from wp_run [OF apiUpdateProject_reply [OF assms(3,2)] assms(4)] obtain v q where
    v: "validated S (p\<lparr>p_ID := i\<rparr>) False = Inr v" and q: "resolveProjectSecrets v (Some ex) = Inr q"
    and b: "b = OneProject (redactedProject q)" and w: "wrote S q False w (w_db w')"
    by (auto simp: stored_reply_def)
  have id: "p_ID q = i"
    using resolved_fields(1) [OF q] v validated_ok by (simp add: validated_def)
  have "\<exists>r. GetProject (srv_codec S) (w_db w') (p_ID q) = Inr r \<and> same_project q r"
    by (rule wrote_reads_back [OF w]) (use assms(1,2) id resolved_fields(2) [OF q] in \<open>auto simp: store_ok_def\<close>)
  with v q b id show ?thesis by blast
qed


text \<open>
  Property C12. Putting back what was shown is harmless: after a project is updated with exactly
  the redacted project the API shows, the stored project is the same, secret values included.
\<close>

theorem put_what_you_get:
  assumes "store_ok S" "GetProject (srv_codec S) (w_db w) i = Inr p" "p_ID p = i" "project_ok p"
    and "p_EnvVars p = Some m" "distinct (map fst m)"
    and "set (secretEnvKeySet (p_SecretEnvKeys p)) \<subseteq> fst ` set m"
    and "decodeProject S body = Inr (redactedProject p)"
    and "run_state (apiUpdateProject S i body) w = ((c, Inr b, tasks), w')"
  shows "\<exists>r. GetProject (srv_codec S) (w_db w') i = Inr r \<and> same_project p r"
proof -
  let ?q = "p\<lparr>p_SecretEnvKeys := Some (sortedSecretEnvKeys (secretEnvKeySet (p_SecretEnvKeys p)))\<rparr>"
  obtain v q r where v: "validated S ((redactedProject p)\<lparr>p_ID := i\<rparr>) False = Inr v"
    and q: "resolveProjectSecrets v (Some p) = Inr q"
    and r: "GetProject (srv_codec S) (w_db w') i = Inr r" "same_project q r"
    using update_stores [OF assms(1,2,8,9)] by blast
  have "(redactedProject p)\<lparr>p_ID := i\<rparr> = redactedProject p"
    using assms(3) by (simp add: redactedProject_def)
  moreover have "validated S (redactedProject p) False = Inr (redactedProject p)"
    unfolding validated_def using assms(4) by (intro validate_id) (simp_all add: redacted_ok)
  ultimately have "v = redactedProject p" using v by simp
  with q resolve_redacted [OF assms(5-7)] have "q = ?q" by simp
  moreover have "same_project p ?q"
    by (simp add: same_project_def env_entries_def secretEnvKeySet_def)
  ultimately show ?thesis using r same_project_trans by blast
qed

text \<open>
  Property C15. Without a live session a protected handler does not run, whatever it is: the reply
  is 401, the world is untouched, and the session is gone afterwards.
\<close>

theorem apiAuth_refuses:
  assumes "case Option.bind cookie (map_of ss) of None \<Rightarrow> True | Some expiry \<Rightarrow> expiry < env_now (srv_env S) (w_tick w)"
  shows "\<exists>ss' w'. run_state (apiAuth S cookie ss handler) w = (((401, Inl ''unauthorized'', []), ss'), w') \<and>
    untouched_world w w' \<and> (\<forall>token. cookie = Some token \<longrightarrow> map_of ss' token = None)"
  using assms
  by (auto simp: apiAuth_def reply_error_def time_Now_def io_tick_def delete_conv' split: option.splits)

text \<open>
  A password is set once and sessions are handed out for it only: after set-up,
  \<open>apiSetup\<close> changes nothing, and a log-in adds a session exactly when bcrypt accepts the
  password for the stored hash.
\<close>

theorem sessions_need_password:
  assumes "GetPasswordHash (w_db w) = Inr hash"
    and "run_state (apiSetup S body ss) w = ((rp1, ss1), w1)"
    and "run_state (apiLogin S body ss) w = ((rp2, ss2), w2)"
  shows "rp1 = (409, Inl ''already set up'', []) \<and> ss1 = ss \<and> w1 = w \<and>
    w_db w2 = w_db w \<and> (ss2 \<noteq> ss \<longrightarrow> (\<exists>password. srv_password S body = Some password \<and> srv_verify S hash password)) \<and>
    (fst rp2 = 200 \<longleftrightarrow> (\<exists>password. srv_password S body = Some password \<and> srv_verify S hash password))"
proof -
  let ?Q = "\<lambda>(rp, ss2) w2. w_db w2 = w_db w \<and>
      (ss2 \<noteq> ss \<longrightarrow> (\<exists>password. srv_password S body = Some password \<and> srv_verify S hash password)) \<and>
      (fst rp = 200 \<longleftrightarrow> (\<exists>password. srv_password S body = Some password \<and> srv_verify S hash password))"
  have "wp (apiLogin S body ss) w ?Q"
    by (auto simp: apiLogin_def assms(1) createSession_def Let_def split: option.splits)
  from wp_run [OF this assms(3)] assms(1,2) show ?thesis
    by (auto simp: apiSetup_def reply_error_def db_read_def io_gets_def)
qed

text \<open>
  Deleting a project stops its stack first and leaves no trace of it in the
  database: no project, no state, no deployment and no backup run; other projects keep theirs.
\<close>

theorem delete_removes_project:
  assumes "db_ok (w_db w)" "GetProject (srv_codec S) (w_db w) i = Inr p"
    and "run_state (apiDeleteProject S i) w = (rp, w')"
  shows "rp = (200, Inr OkFlag, reconcileTunnels S) \<and> db_ok (w_db w') \<and>
    GetProject (srv_codec S) (w_db w') i = Inl err_no_rows \<and> GetState (w_db w') i = Inl err_no_rows \<and>
    list_all (\<lambda>d. d_ProjectID d \<noteq> i) (db_deployments (w_db w')) \<and>
    list_all (\<lambda>r. br_ProjectID r \<noteq> i) (db_backup_runs (w_db w')) \<and>
    (\<exists>r w1. run_state (Stop (srv_deployer S) p) w = (r, w1) \<and>
       w_db w' = snd (DeleteProject i (w_db w1)))"
proof -
  obtain r1 w1 where stop: "run_state (Stop (srv_deployer S) p) w = (r1, w1)" by fastforce
  have ok1: "db_ok (w_db w1)" by (rule keepsD [OF Stop_ok assms(1) stop])
  have "wp (apiDeleteProject S i) w (\<lambda>rp w'. rp = (200, Inr OkFlag, reconcileTunnels S) \<and>
      w_db w' = snd (DeleteProject i (w_db w1)))"
    unfolding apiDeleteProject_def
    by (simp add: assms(2), simp add: wp_def [of "Stop _ _"] stop, rule wp_own [OF leaves_emit(1)]) simp
  from wp_run [OF this assms(3)] have r: "rp = (200, Inr OkFlag, reconcileTunnels S)"
    and d: "w_db w' = snd (DeleteProject i (w_db w1))" by simp_all
  have "db_ok (w_db w')" unfolding d using ok1 by (rule db_ok_DeleteProject)
  with r d stop show ?thesis
    by (auto simp: DeleteProject_def GetProject_def GetState_def map_of_sql_delete list_all_iff)
qed

definition project_handlers :: "Server \<Rightarrow> string \<Rightarrow> string \<Rightarrow> bool \<Rightarrow> Body reply io list" where
  "project_handlers S i body sys =
     [apiListProjects S sys, apiGetProject S i, apiCreateProject S body, apiUpdateProject S i body,
      apiDeleteProject S i, apiDeploy S i, apiRollback S i, apiStop S i, apiStart S i, importYAML S body]"

lemma db_ok_io_write [wf_intros]: "keeps (\<lambda>w. db_ok (w_db w)) (io_CreateProject S p)"
    "keeps (\<lambda>w. db_ok (w_db w)) (io_UpdateProject S p)"
  unfolding io_CreateProject_def io_UpdateProject_def by (intro wf_intros; assumption)+

lemma project_updated_ok [wf_intros]: "keeps (\<lambda>w. db_ok (w_db w)) (project_updated S p)"
  unfolding project_updated_def by (rule keeps_own [OF leaves_emit(1)])

lemma project_handlers_ok: "list_all (keeps (\<lambda>w. db_ok (w_db w))) (project_handlers S i body sys)"
  unfolding project_handlers_def list.pred_inject(2)
  unfolding apiListProjects_def apiGetProject_def apiCreateProject_def apiUpdateProject_def
    apiDeleteProject_def apiDeploy_def apiRollback_def apiStop_def apiStart_def with_project_def
    importYAML_def upsertProject_def
  by (intro conjI list.pred_inject(1) wf_intros keeps_own [OF leaves_emit(1)])

lemma ManualRollback_ok [wf_intros]: "keeps (\<lambda>w. db_ok (w_db w)) (ManualRollback D p)"
  unfolding ManualRollback_def by (intro wf_intros Deploy_ok)

lemma with_tunnels_ok [wf_intros]: "(\<And>M. keeps P (k M)) \<Longrightarrow> keeps P (with_tunnels S k)"
  by (auto simp: with_tunnels_def intro!: wf_intros split: option.split)

lemma io_each_tunnel_ok: "keeps (\<lambda>w. db_ok (w_db w)) (io_each (run_tunnel_task M) ts)"
  by (induction ts) (auto intro!: wf_intros)

lemma run_task_ok:
  assumes "srv_scheduler S = scheduler_New (srv_deployer S) R (srv_codec S)"
  shows "keeps (\<lambda>w. db_ok (w_db w)) (run_task S t)"
  unfolding run_task_def assms(1) TriggerManualReconcile_def
  by (cases t) (auto intro!: wf_intros live.reconcileOne_ok io_each_tunnel_ok split: option.splits)


end
