(* ===== verification/Demo_Web.thy ===== *)
theory Demo_Web
  imports Demo_Store Web_Api
begin

text \<open>
  The concrete installation behind its API: a server over the demonstration deployer and
  scheduler, with one project stored, on which the properties of the handlers are instantiated.
\<close>

definition demo_saved :: Project where
  "demo_saved = demo_project\<lparr>p_ImageTag := ''latest'', p_SecretEnvKeys := Some [''K''],
     p_Services := [demo_service\<lparr>svc_PullPolicy := ''always''\<rparr>]\<rparr>"

text \<open>The project as the database returns it.\<close>

definition demo_read :: Project where
  "demo_read = read_back 7 [(''K'', ''v'')] demo_saved"

definition demo_server :: Server where
  "demo_server =
     \<lparr>srv_deployer = demo_deployer True, srv_scheduler = demo_scheduler, srv_codec = demo_codec,
      srv_stackRoot = ''/s'', srv_tunnels = None,
      srv_json = (\<lambda>s. if s = ''shown'' then Inr (redactedProject demo_read) else Inl ''unexpected EOF''),
      srv_yaml = (\<lambda>s. Inl ''no YAML''), srv_legacy = (\<lambda>s. None),
      srv_password = (\<lambda>s. Some s), srv_hash = (\<lambda>salt s. Some s), srv_verify = (\<lambda>h s. h = s)\<rparr>"

definition demo_web_db :: DB where
  "demo_web_db = snd (CreateProject demo_codec (Inr ''0123456789ab'') 7 demo_saved empty_db)"

definition demo_web_world :: World where
  "demo_web_world = demo_world\<lparr>w_db := demo_web_db\<rparr>"

lemma demo_saved_fields: "p_ID demo_saved = ''app''" "p_EnvVars demo_saved = Some [(''K'', ''v'')]"
    "p_SecretEnvKeys demo_saved = Some [''K'']"
  by (simp_all add: demo_saved_def demo_project_def)

lemma demo_read_fields: "p_ID demo_read = ''app''" "p_EnvVars demo_read = Some [(''K'', ''v'')]"
    "p_SecretEnvKeys demo_read = Some [''K'']"
  by (simp_all add: demo_read_def read_back_def Let_def demo_saved_fields)

lemma demo_decode:
  assumes "secret_encrypt demo_codec (Inr ''0123456789ab'') (projectEnvAAD i) (cd_marshal_env demo_codec m) = Inr v"
  shows "decodeProjectEnv demo_codec i v = Inr m"
  using secret_decrypt_encrypt [OF demo_aead demo_rand assms] demo_unmarshal_marshal [OF demo_marshal_length]
  by (simp add: decodeProjectEnv_def demo_codec_def)

lemma demo_get: "GetProject demo_codec demo_web_db ''app'' = Inr demo_read"
proof -
  obtain v where v: "secret_encrypt demo_codec (Inr ''0123456789ab'') (projectEnvAAD ''app'')
      (cd_marshal_env demo_codec (env_entries demo_saved)) = Inr v"
    using secret_encrypt_rand_ok [OF demo_rand] by blast
  with demo_decode [OF v] show ?thesis
    by (simp add: demo_web_db_def CreateProject_def empty_db_def table_keys_def GetProject_def Let_def
        demo_saved_fields map_of_sql_insert scanProject_def scan_marshal project_columns_def demo_read_def
        read_back_def env_entries_def)
qed

lemma demo_get_server: "GetProject (srv_codec demo_server) (w_db demo_web_world) ''app'' = Inr demo_read"
  by (simp add: demo_server_def demo_web_world_def demo_get)

lemma demo_web_ok: "db_ok (w_db demo_web_world)"
  by (simp add: demo_web_world_def demo_web_db_def db_ok_CreateProject db_ok_empty)

lemma demo_store_ok: "store_ok demo_server"
  by (simp add: store_ok_def demo_server_def demo_aead demo_env_codec demo_deployer_def demo_env_def demo_rand)

lemma demo_read_ok: "project_ok demo_read"
  by (simp add: project_ok_def demo_read_def read_back_def Let_def demo_saved_def demo_project_def
      legacy_applies_def service_ok_def default_service_def demo_service_def zero_service_def zero_project_def
      backup_ok_def)

lemma demo_decoded: "decodeProject demo_server ''shown'' = Inr (redactedProject demo_read)"
  by (simp add: decodeProject_def demo_server_def)

lemma demo_server_env: "srv_codec demo_server = demo_codec"
    "env_rand (srv_env demo_server) t = Inr ''0123456789ab''"
  by (simp_all add: demo_server_def demo_deployer_def demo_env_def)

lemma not_isl: "\<not> isl r \<Longrightarrow> \<exists>b. r = Inr b"
  by (cases r) auto

section \<open>The update that puts back what was shown succeeds\<close>

lemma demo_put:
  "\<exists>c b tasks w'. run_state (apiUpdateProject demo_server ''app'' ''shown'') demo_web_world = ((c, Inr b, tasks), w')"
proof -
  have id: "(redactedProject demo_read)\<lparr>p_ID := ''app''\<rparr> = redactedProject demo_read"
    by (simp add: redactedProject_def demo_read_fields)
  have v: "validated demo_server (redactedProject demo_read) False = Inr (redactedProject demo_read)"
    unfolding validated_def by (intro validate_id) (simp_all add: redacted_ok demo_read_ok)
  have res: "\<exists>q. resolveProjectSecrets (redactedProject demo_read) (Some demo_read) = Inr q"
    using resolve_redacted [OF demo_read_fields(2)] by (simp add: demo_read_fields secretEnvKeySet_def)
  then obtain q where q: "resolveProjectSecrets (redactedProject demo_read) (Some demo_read) = Inr q" by blast
  obtain s where s: "secret_encrypt demo_codec (Inr ''0123456789ab'') (projectEnvAAD (p_ID q))
      (cd_marshal_env demo_codec (env_entries q)) = Inr s"
    using secret_encrypt_rand_ok [OF demo_rand] by blast
  have "wp (apiUpdateProject demo_server ''app'' ''shown'') demo_web_world (\<lambda>(c, r, tasks) w'. \<not> isl r)"
    unfolding apiUpdateProject_def demo_decoded
    by (simp add: demo_get_server [unfolded demo_server_env] id v q io_UpdateProject_def UpdateProject_def
          demo_server_env s)
  then show ?thesis
    by (cases "run_state (apiUpdateProject demo_server ''app'' ''shown'') demo_web_world")
      (auto simp: wp_def dest: not_isl)
qed

section \<open>Witnesses\<close>



lemma put_what_you_get_witness:
  "\<exists>rp w' r. run_state (apiUpdateProject demo_server ''app'' ''shown'') demo_web_world = (rp, w') \<and>
     GetProject demo_codec (w_db w') ''app'' = Inr r \<and> same_project demo_read r"
proof -
  obtain c b tasks w' where run: "run_state (apiUpdateProject demo_server ''app'' ''shown'') demo_web_world =
      ((c, Inr b, tasks), w')" using demo_put by blast
  from put_what_you_get [OF demo_store_ok demo_get_server demo_read_fields(1) demo_read_ok demo_read_fields(2)
      _ _ demo_decoded run] run show ?thesis
    unfolding demo_server_env by (auto simp: demo_read_fields secretEnvKeySet_def)
qed

lemma apiAuth_refuses_witness:
  "\<exists>ss w'. run_state (apiAuth demo_server (Some ''t'') [(''t'', 5)] (do { r \<leftarrow> apiDeleteProject demo_server ''app''; ret (r, []) }))
     demo_web_world = (((401, Inl ''unauthorized'', []), ss), w') \<and> untouched_world demo_web_world w'"
proof -
  have "env_now (srv_env demo_server) (w_tick demo_web_world) = 1000000000"
    by (simp add: demo_server_def demo_deployer_def demo_env_def demo_web_world_def demo_world_def)
  then have "case Option.bind (Some ''t'') (map_of [(''t'', 5)]) of None \<Rightarrow> True
      | Some expiry \<Rightarrow> expiry < env_now (srv_env demo_server) (w_tick demo_web_world)" by simp
  from apiAuth_refuses [OF this, of "do { r \<leftarrow> apiDeleteProject demo_server ''app''; ret (r, []) }"]
  show ?thesis by blast
qed

lemma sessions_need_password_witness:
  "fst (fst (fst (run_state (apiLogin demo_server ''wrong'' [])
     (demo_web_world\<lparr>w_db := SetPassword 0 ''right'' demo_web_db\<rparr>)))) \<noteq> 200"
proof -
  let ?w = "demo_web_world\<lparr>w_db := SetPassword 0 ''right'' demo_web_db\<rparr>"
  obtain rp1 ss1 w1 where r1: "run_state (apiSetup demo_server ''wrong'' []) ?w = ((rp1, ss1), w1)"
    by (metis surj_pair)
  obtain rp2 ss2 w2 where r2: "run_state (apiLogin demo_server ''wrong'' []) ?w = ((rp2, ss2), w2)"
    by (metis surj_pair)
  have "GetPasswordHash (w_db ?w) = Inr ''right''" by (simp add: GetPasswordHash_def SetPassword_def)
  from sessions_need_password [OF this r1 r2] r2 show ?thesis by (simp add: demo_server_def)
qed

lemma delete_removes_project_witness:
  "GetProject demo_codec (w_db (snd (run_state (apiDeleteProject demo_server ''app'') demo_web_world))) ''app'' =
     Inl err_no_rows"
  using delete_removes_project [OF demo_web_ok demo_get_server prod.collapse [symmetric]]
  unfolding demo_server_env by simp


end
