(* ===== verification/Go_Glob.thy ===== *)
theory Go_Glob
  imports World
begin

text \<open>
  \<open>filepath.Match\<close> and \<open>filepath.Glob\<close> of Go's standard library, as the backup code uses them. A
  pattern is read into items first: Go reports a malformed pattern whether or not the name
  matches the part before it. Names are matched byte by byte (Go: rune by rune, the same for
  ASCII names).
\<close>

section \<open>Patterns\<close>

datatype pat_item = AnyRun | AnyChar | Lit char | Class bool "(char \<times> char) list"

text \<open>A character of a class, perhaps escaped; more of the pattern has to follow.\<close>

definition get_esc :: "string \<Rightarrow> (char \<times> string) option" where
  "get_esc s =
     (case s of
        [] \<Rightarrow> None
      | c # r \<Rightarrow>
          if c = CHR ''-'' \<or> c = CHR '']'' then None
          else if c = CHR 0x5C then (case r of d # e # r' \<Rightarrow> Some (d, e # r') | _ \<Rightarrow> None)
          else if r = [] then None else Some (c, r))"

lemma get_esc_less: "get_esc s = Some (c, r) \<Longrightarrow> length r < length s"
  by (auto simp: get_esc_def split: list.splits if_splits)

text \<open>The ranges of a class up to its closing bracket; \<open>first\<close> holds before the first range.\<close>

function get_ranges :: "bool \<Rightarrow> string \<Rightarrow> ((char \<times> char) list \<times> string) option" where
  "get_ranges first s =
     (if \<not> first \<and> HasPrefix s '']'' then Some ([], drop 1 s)
      else case get_esc s of
        None \<Rightarrow> None
      | Some (lo, r) \<Rightarrow>
          if HasPrefix r ''-'' then
            (case get_esc (drop 1 r) of
               None \<Rightarrow> None
             | Some (hi, r') \<Rightarrow>
                 (case get_ranges False r' of None \<Rightarrow> None | Some (rs, t) \<Rightarrow> Some ((lo, hi) # rs, t)))
          else (case get_ranges False r of None \<Rightarrow> None | Some (rs, t) \<Rightarrow> Some ((lo, lo) # rs, t)))"
  by pat_completeness auto

termination
  by (relation "measure (length \<circ> snd)") (force dest: get_esc_less)+

declare get_ranges.simps [simp del]

lemma get_ranges_less: "get_ranges first s = Some (rs, t) \<Longrightarrow> length t < length s"
proof (induction "length s" arbitrary: first s rs t rule: less_induct)
  case less
  have IH: "length t' < length r" if "get_ranges False r = Some (rs', t')" "length r < length s" for r rs' t'
    using less.hyps that by blast
  have sub: "length t' < length s" if "get_ranges False r = Some (rs', t')" "length r < length s" for r rs' t'
    using IH [OF that] that(2) by simp
  have esc2: "length r' < length s" if "get_esc s = Some (a, r)" "get_esc (drop 1 r) = Some (b, r')" for a r b r'
    using get_esc_less [OF that(1)] get_esc_less [OF that(2)] by simp
  from less.prems show ?case
    by (subst (asm) get_ranges.simps)
       (auto split: if_splits option.splits prod.splits dest: sub esc2 get_esc_less simp: HasPrefix_iff)
qed

function pat_items :: "string \<Rightarrow> pat_item list option" where
  "pat_items s =
     (case s of
        [] \<Rightarrow> Some []
      | c # r \<Rightarrow>
          if c = CHR ''*'' then map_option (Cons AnyRun) (pat_items r)
          else if c = CHR ''?'' then map_option (Cons AnyChar) (pat_items r)
          else if c = CHR ''['' then
            (let neg = HasPrefix r ''^'' in
             case get_ranges True (if neg then drop 1 r else r) of
               None \<Rightarrow> None
             | Some (rs, t) \<Rightarrow> map_option (Cons (Class neg rs)) (pat_items t))
          else if c = CHR 0x5C then
            (case r of [] \<Rightarrow> None | d # r' \<Rightarrow> map_option (Cons (Lit d)) (pat_items r'))
          else map_option (Cons (Lit c)) (pat_items r))"
  by pat_completeness auto

termination
  by (relation "measure length") (auto dest!: get_ranges_less split: if_splits)

declare pat_items.simps [simp del]

fun match_items :: "pat_item list \<Rightarrow> string \<Rightarrow> bool" where
  "match_items [] s = (s = [])"
| "match_items (AnyRun # ps) [] = match_items ps []"
| "match_items (AnyRun # ps) (c # s) =
     (match_items ps (c # s) \<or> c \<noteq> CHR ''/'' \<and> match_items (AnyRun # ps) s)"
| "match_items (AnyChar # ps) s = (case s of [] \<Rightarrow> False | c # r \<Rightarrow> c \<noteq> CHR ''/'' \<and> match_items ps r)"
| "match_items (Lit d # ps) s = (case s of [] \<Rightarrow> False | c # r \<Rightarrow> c = d \<and> match_items ps r)"
| "match_items (Class neg rs # ps) s =
     (case s of
        [] \<Rightarrow> False
      | c # r \<Rightarrow> list_ex (\<lambda>(lo, hi). lo \<le> c \<and> c \<le> hi) rs \<noteq> neg \<and> match_items ps r)"

definition err_bad_pattern :: error where
  "err_bad_pattern = ''syntax error in pattern''"

definition Match :: "string \<Rightarrow> string \<Rightarrow> bool result" where
  "Match pattern name =
     (case pat_items pattern of None \<Rightarrow> Inl err_bad_pattern | Some ps \<Rightarrow> Inr (match_items ps name))"

section \<open>Directories\<close>

definition hasMeta :: "string \<Rightarrow> bool" where
  "hasMeta path \<longleftrightarrow> ContainsAny path [CHR ''*'', CHR ''?'', CHR ''['', CHR 0x5C]"

text \<open>The names in a directory, sorted.\<close>

definition dir_names :: "fs \<Rightarrow> string \<Rightarrow> string list" where
  "dir_names f dir =
     sort (map (BaseOf \<circ> fst) (filter (\<lambda>(q, n). q \<noteq> ''/'' \<and> DirOf q = Clean dir) f))"

definition glob_dir :: "fs \<Rightarrow> string \<Rightarrow> string \<Rightarrow> string list result" where
  "glob_dir f dir pattern =
     (if \<not> is_dir f (Clean dir) then Inr []
      else case pat_items pattern of
        None \<Rightarrow> if dir_names f dir = [] then Inr [] else Inl err_bad_pattern
      | Some ps \<Rightarrow> Inr (map (Join2 dir) (filter (match_items ps) (dir_names f dir))))"

definition cleanGlobPath :: "string \<Rightarrow> string" where
  "cleanGlobPath dir =
     (if dir = '''' then ''.'' else if dir = ''/'' then dir else butlast dir)"

fun concat_results :: "'a list result list \<Rightarrow> 'a list result" where
  "concat_results [] = Inr []"
| "concat_results (r # rs) =
     (case r of Inl e \<Rightarrow> Inl e
      | Inr xs \<Rightarrow> (case concat_results rs of Inl e \<Rightarrow> Inl e | Inr ys \<Rightarrow> Inr (xs @ ys)))"

text \<open>\<open>n\<close> bounds the nesting of patterns in directories; the length of the pattern is enough.\<close>

fun glob_fuel :: "nat \<Rightarrow> fs \<Rightarrow> string \<Rightarrow> string list result" where
  "glob_fuel 0 f pattern = Inl err_bad_pattern"
| "glob_fuel (Suc n) f pattern =
     (if pat_items pattern = None then Inl err_bad_pattern
      else if \<not> hasMeta pattern then
        (case fs_stat f pattern of StatFound node \<Rightarrow> Inr [pattern] | _ \<Rightarrow> Inr [])
      else let dir = cleanGlobPath (upto_last_slash pattern); file = after_last_slash pattern in
        if \<not> hasMeta dir then glob_dir f dir file
        else if dir = pattern then Inl err_bad_pattern
        else case glob_fuel n f dir of
          Inl e \<Rightarrow> Inl e
        | Inr dirs \<Rightarrow> concat_results (map (\<lambda>d. glob_dir f d file) dirs))"

definition Glob :: "fs \<Rightarrow> string \<Rightarrow> string list result" where
  "Glob f pattern = glob_fuel (Suc (length pattern)) f pattern"

end
