(* ===== verification/Backup.thy ===== *)
theory Backup
  imports Go_Glob Web_Api
begin

text \<open>
  \<open>internal/backup\<close> and \<open>internal/runtime/exec.go\<close>: running a project's backup command inside
  its container and recording the run, listing backup files, restoring in place or into a clone;
  and the handlers of \<open>internal/web/admin_backup.go\<close>. A held backup lock is a project id in
  \<open>w_backup_locks\<close>. Modification times, SHA-256, free ports and the working directory are fields
  of the service. A command that is cut off at its deadline is one that fails.
\<close>

section \<open>The service\<close>

record BackupService =
  bk_env :: Env
  bk_codec :: Codec
  bk_runtime :: string
  bk_mtime :: "nat \<Rightarrow> string \<Rightarrow> int"
  bk_sha256 :: "string \<Rightarrow> string"
  bk_cwd :: "string result"
  bk_port :: "nat \<Rightarrow> int result"

definition backup_TryLock :: "string \<Rightarrow> bool io" where
  "backup_TryLock i = State (\<lambda>w. if i \<in> set (w_backup_locks w) then (False, w)
     else (True, w\<lparr>w_backup_locks := i # w_backup_locks w\<rparr>))"

definition backup_Unlock :: "string \<Rightarrow> unit io" where
  "backup_Unlock i = State (\<lambda>w. ((), w\<lparr>w_backup_locks := remove1 i (w_backup_locks w)\<rparr>))"

section \<open>Commands in a container\<close>

record ExecOptions =
  eo_StackPath :: string
  eo_Service :: string
  eo_User :: string
  eo_Env :: smap
  eo_Shell :: string
  eo_Command :: string

record ExecResult =
  er_Stdout :: string
  er_Stderr :: string
  er_ExitCode :: int

definition ellipsis :: string where
  "ellipsis = [CHR 0xE2, CHR 0x80, CHR 0xA6]"

text \<open>A dash, as UTF-8.\<close>

definition em_dash :: string where
  "em_dash = [CHR 0xE2, CHR 0x80, CHR 0x94]"

definition trimErr :: "string \<Rightarrow> string" where
  "trimErr s = (let s = TrimSpace s in if 400 < length s then take 400 s @ ellipsis else s)"

definition stack_compose :: "string \<Rightarrow> string \<Rightarrow> bool \<Rightarrow> string list" where
  "stack_compose binary stackPath override =
     [binary, ''compose'', ''-f'', Join2 stackPath ''compose.yaml''] @
     (if override then [''-f'', Join2 stackPath ''compose.override.yaml''] else [])"

definition exec_args :: "string \<Rightarrow> ExecOptions \<Rightarrow> bool \<Rightarrow> string list" where
  "exec_args binary opts override =
     stack_compose binary (eo_StackPath opts) override @ [''exec'', ''-T''] @
     (if eo_User opts \<noteq> '''' then [''--user'', eo_User opts] else []) @
     concat (map (\<lambda>(k, v). [''--env'', k @ ''='' @ v]) (eo_Env opts)) @
     [eo_Service opts, if eo_Shell opts = '''' then ''sh'' else eo_Shell opts, ''-c'', eo_Command opts]"

text \<open>The result is nil when an option is missing.\<close>

definition Exec :: "BackupService \<Rightarrow> ExecOptions \<Rightarrow> (ExecResult option \<times> error option) io" where
  "Exec B opts =
     (if eo_StackPath opts = '''' then ret (None, Some ''exec: stack_path required'')
      else if eo_Service opts = '''' then ret (None, Some ''exec: service required'')
      else if eo_Command opts = '''' then ret (None, Some ''exec: command required'')
      else do {
        ov \<leftarrow> fileExists (bk_env B) (Join2 (eo_StackPath opts) ''compose.override.yaml'');
        out \<leftarrow> exec_run (bk_env B) (exec_args (bk_runtime B) opts ov) (eo_StackPath opts);
        let started = (xo_Start out = None) in
        let res = \<lparr>er_Stdout = (if started then xo_Stdout out else ''''),
            er_Stderr = (if started then xo_Stderr out else ''''),
            er_ExitCode = (if started then xo_ExitCode out else - 1)\<rparr> in
        ret (Some res,
          case xo_error out of
            None \<Rightarrow> None
          | Some runErr \<Rightarrow>
              Some (if started \<and> xo_Exited out
                then eo_Service opts @ '' exited '' @ Itoa (er_ExitCode res) @ '': '' @ trimErr (er_Stderr res)
                else ''compose exec '' @ eo_Service opts @ '': '' @ runErr @ '' ('' @ trimErr (er_Stderr res) @ '')''))
      })"

definition IsServiceRunning :: "BackupService \<Rightarrow> string \<Rightarrow> string \<Rightarrow> bool result io" where
  "IsServiceRunning B stackPath service =
     (if stackPath = '''' \<or> service = '''' then ret (Inl ''stack_path and service required'')
      else do {
        ov \<leftarrow> fileExists (bk_env B) (Join2 stackPath ''compose.override.yaml'');
        out \<leftarrow> exec_run (bk_env B)
          (stack_compose (bk_runtime B) stackPath ov @ [''ps'', ''-q'', service]) stackPath;
        case xo_error out of
          Some err \<Rightarrow> ret (Inl (''compose ps: '' @ err))
        | None \<Rightarrow> ret (Inr (TrimSpace (xo_Stdout out) \<noteq> ''''))
      })"

section \<open>The deadline of a command\<close>

text \<open>
  In nanoseconds, as \<open>Run\<close> and \<open>restore\<close> compute it in 64 bits: an hour when the product is not
  positive. So a configured number of seconds is kept while it fits, and a larger one may come out
  as a fraction of a second.
\<close>

definition exec_timeout :: "BackupSpec \<Rightarrow> int" where
  "exec_timeout b =
     (let timeout = wrap64 (bs_TimeoutSec b * 1000000000)
      in if timeout \<le> 0 then 3600 * 1000000000 else timeout)"

lemma exec_timeout_bounds: "0 < exec_timeout b \<and> int64_ok (exec_timeout b)"
  using wrap64_ok [of "bs_TimeoutSec b * 1000000000"]
  by (simp add: exec_timeout_def Let_def int64_ok_def)

lemma exec_timeout_configured:
  assumes "0 < bs_TimeoutSec b" "bs_TimeoutSec b \<le> 9223372036"
  shows "exec_timeout b = bs_TimeoutSec b * 1000000000"
  using assms wrap64_id [of "bs_TimeoutSec b * 1000000000"]
  by (simp add: exec_timeout_def Let_def int64_ok_def)

lemma exec_timeout_wraps: "exec_timeout (b\<lparr>bs_TimeoutSec := 18446744074\<rparr>) = 290448384"
  by (simp add: exec_timeout_def wrap64_def)

section \<open>Files\<close>

definition hashFile :: "BackupService \<Rightarrow> string \<Rightarrow> (string \<times> int) result io" where
  "hashFile B path = do {
     r \<leftarrow> os_ReadFile (bk_env B) path;
     ret (case r of Inl err \<Rightarrow> Inl err
       | Inr c \<Rightarrow> Inr (hex_encode (bk_sha256 B c), int (length c)))
   }"

text \<open>The copied file is created before its contents are read.\<close>

definition copyFile :: "Env \<Rightarrow> string \<Rightarrow> string \<Rightarrow> unit result io" where
  "copyFile e src dst = do {
     s \<leftarrow> os_Stat e src;
     case s of
       StatMissing \<Rightarrow> ret (Inl (''open '' @ src @ '': no such file or directory''))
     | StatError err \<Rightarrow> ret (Inl err)
     | StatFound node \<Rightarrow> do {
     d \<leftarrow> os_MkdirAll e (DirOf dst);
     case d of
       Inl err \<Rightarrow> ret (Inl err)
     | Inr u \<Rightarrow> do {
     c \<leftarrow> os_WriteFile e dst '''' 416;
     case c of
       Inl err \<Rightarrow> ret (Inl err)
     | Inr u \<Rightarrow> do {
     r \<leftarrow> os_ReadFile e src;
     case r of
       Inl err \<Rightarrow> ret (Inl err)
     | Inr data \<Rightarrow> os_WriteFile e dst data 416
     }}}
   }"

text \<open>A file with its modification time, for each match that is a file.\<close>

fun stat_files :: "BackupService \<Rightarrow> string list \<Rightarrow> BackupFile list io" where
  "stat_files B [] = ret []"
| "stat_files B (path # paths) = do {
     t \<leftarrow> io_tick;
     f \<leftarrow> io_gets w_fs;
     rest \<leftarrow> stat_files B paths;
     ret (case (env_fs_error (bk_env B) t path, fs_stat f path) of
       (None, StatFound (FileNode c m)) \<Rightarrow>
         \<lparr>bf_Name = BaseOf path, bf_Path = path, bf_Bytes = int (length c),
          bf_Modified = bk_mtime B t path\<rparr> # rest
     | _ \<Rightarrow> rest)
   }"

text \<open>The loop of \<open>newestMatch\<close> with its best file so far.\<close>

fun newest :: "int \<Rightarrow> string \<times> int \<Rightarrow> BackupFile list \<Rightarrow> string \<times> int" where
  "newest since best [] = best"
| "newest since best (f # fs) =
     (if bf_Modified f < since - 5 * 1000000000 then newest since best fs
      else if snd best < bf_Modified f then newest since (bf_Path f, bf_Modified f) fs
      else newest since best fs)"

definition newestMatch :: "BackupService \<Rightarrow> string \<Rightarrow> string \<Rightarrow> int \<Rightarrow> string result io" where
  "newestMatch B dir pattern since = do {
     f \<leftarrow> io_gets w_fs;
     case Glob f (Join2 dir pattern) of
       Inl err \<Rightarrow> ret (Inl err)
     | Inr matches \<Rightarrow> do {
         files \<leftarrow> stat_files B matches;
         ret (Inr (fst (newest since ('''', zero_time) files)))
       }
   }"

definition backup_pattern :: "Project \<Rightarrow> string" where
  "backup_pattern p =
     (case p_Backup p of
        None \<Rightarrow> ''*''
      | Some b \<Rightarrow> if bs_OutputPattern b = '''' then ''*'' else bs_OutputPattern b)"

definition List :: "BackupService \<Rightarrow> Project \<Rightarrow> BackupFile list result io" where
  "List B p = do {
     f \<leftarrow> io_gets w_fs;
     case Glob f (Join2 (BackupHostDir p) (backup_pattern p)) of
       Inl err \<Rightarrow> ret (Inl err)
     | Inr entries \<Rightarrow> do {
         files \<leftarrow> stat_files B entries;
         ret (Inr (sort_key (\<lambda>f. - bf_Modified f) files))
       }
   }"

definition History :: "string \<Rightarrow> int \<Rightarrow> BackupRun list io" where
  "History projectID limit = db_read (\<lambda>d. ListBackupRuns d projectID limit)"

section \<open>Backup\<close>

text \<open>A call that panics (a nil result is read) does not return.\<close>

datatype 'a outcome = Panic | Returned 'a

definition finish_run ::
    "BackupService \<Rightarrow> nat \<Rightarrow> BackupStatus \<Rightarrow> string \<Rightarrow> string \<Rightarrow> int \<Rightarrow> string \<Rightarrow> unit io" where
  "finish_run B n status file sha nbytes msg = do {
     now \<leftarrow> time_Now (bk_env B);
     db_write (FinishBackupRun now n status file sha nbytes msg)
   }"

definition new_run :: "Project \<Rightarrow> string \<Rightarrow> int \<Rightarrow> BackupRun" where
  "new_run p trigger now =
     \<lparr>br_ID = 0, br_ProjectID = p_ID p, br_Status = BackupInProgress, br_Trigger = trigger,
      br_FilePath = '''', br_Bytes = 0, br_SHA256 = '''', br_StartedAt = now, br_EndedAt = None, br_Error = ''''\<rparr>"

text \<open>The part of \<open>Run\<close> after the command: find its output, hash it, record it.\<close>

definition record_hashed ::
    "BackupService \<Rightarrow> string \<Rightarrow> BackupRun \<Rightarrow> (BackupRun option \<times> error option) outcome io" where
  "record_hashed B file run = do {
     h \<leftarrow> hashFile B file;
     case h of
       Inl err \<Rightarrow> do {
         finish_run B (br_ID run) BackupFailed file '''' 0 err;
         ret (Returned (Some run, Some (''hash backup file: '' @ err)))
       }
     | Inr (sha, nbytes) \<Rightarrow> do {
         finish_run B (br_ID run) BackupSuccess file sha nbytes '''';
         end_time \<leftarrow> time_Now (bk_env B);
         ret (Returned (Some (run\<lparr>br_EndedAt := Some end_time, br_Status := BackupSuccess,
             br_FilePath := file, br_SHA256 := sha, br_Bytes := nbytes\<rparr>), None))
       }
   }"

definition record_output ::
    "BackupService \<Rightarrow> Project \<Rightarrow> string \<Rightarrow> BackupRun \<Rightarrow> (BackupRun option \<times> error option) outcome io" where
  "record_output B p hostDir run = do {
     m \<leftarrow> newestMatch B hostDir (backup_pattern p) (br_StartedAt run);
     case m of
       Inl err \<Rightarrow> do {
         finish_run B (br_ID run) BackupFailed '''' '''' 0 err;
         ret (Returned (Some run, Some (''locate backup output: '' @ err)))
       }
     | Inr file \<Rightarrow>
         if file = '''' then do {
           let msg = ''no file matching '' @ Quote (backup_pattern p) @ '' in '' @ hostDir @ '' after backup command'';
           finish_run B (br_ID run) BackupFailed '''' '''' 0 msg;
           ret (Returned (Some run, Some msg))
         }
         else record_hashed B file run
   }"

definition exec_backup ::
    "BackupService \<Rightarrow> Project \<Rightarrow> BackupSpec \<Rightarrow> string \<Rightarrow> BackupRun \<Rightarrow> (BackupRun option \<times> error option) outcome io" where
  "exec_backup B p b hostDir run = do {
     r \<leftarrow> Exec B \<lparr>eo_StackPath = p_StackPath p, eo_Service = bs_Service b, eo_User = bs_User b,
       eo_Env = [], eo_Shell = '''', eo_Command = bs_BackupCommand b\<rparr>;
     case snd r of
       Some execErr \<Rightarrow> do {
         finish_run B (br_ID run) BackupFailed '''' '''' 0 execErr;
         (case fst r of
            None \<Rightarrow> ret Panic
          | Some res \<Rightarrow> ret (Returned (Some run, Some (''backup command failed: '' @ execErr))))
       }
     | None \<Rightarrow> record_output B p hostDir run
   }"

definition run_locked ::
    "BackupService \<Rightarrow> Project \<Rightarrow> BackupSpec \<Rightarrow> string \<Rightarrow> (BackupRun option \<times> error option) outcome io" where
  "run_locked B p b trigger = do {
     let hostDir = BackupHostDir p;
     d \<leftarrow> os_MkdirAll (bk_env B) hostDir;
     case d of
       Inl err \<Rightarrow> ret (Returned (None, Some (''ensure backup dir: '' @ err)))
     | Inr u \<Rightarrow> do {
     running \<leftarrow> IsServiceRunning B (p_StackPath p) (bs_Service b);
     case running of
       Inl err \<Rightarrow> ret (Returned (None, Some (''check service running: '' @ err)))
     | Inr up \<Rightarrow>
     if \<not> up then ret (Returned (None, Some (''service '' @ bs_Service b @ '' is not running '' @ em_dash @ '' start the project before backup'')))
     else do {
     now \<leftarrow> time_Now (bk_env B);
     ins \<leftarrow> db_exec (InsertBackupRun (new_run p trigger now));
     case ins of
       Inl err \<Rightarrow> ret (Returned (None, Some (''insert backup run: '' @ err)))
     | Inr runID \<Rightarrow> exec_backup B p b hostDir ((new_run p trigger now)\<lparr>br_ID := runID\<rparr>)
     }}}"

definition Run ::
    "BackupService \<Rightarrow> Project \<Rightarrow> string \<Rightarrow> (BackupRun option \<times> error option) outcome io" where
  "Run B p trigger =
     (case p_Backup p of
        None \<Rightarrow> ret (Returned (None, Some (''project '' @ p_ID p @ '' has no backup spec'')))
      | Some b \<Rightarrow> do {
          locked \<leftarrow> backup_TryLock (p_ID p);
          if \<not> locked
          then ret (Returned (None, Some (''project '' @ p_ID p @ '': backup or restore already in progress'')))
          else do {
            r \<leftarrow> run_locked B p b trigger;
            backup_Unlock (p_ID p);
            ret r
          }
        })"

section \<open>Restore\<close>

record RestoreOptions =
  ro_File :: string
  ro_AsProjectID :: string

text \<open>New host ports for one service: an error of the kernel ends the clone.\<close>

fun clone_ports :: "BackupService \<Rightarrow> PortMapping list \<Rightarrow> PortMapping list result io" where
  "clone_ports B [] = ret (Inr [])"
| "clone_ports B (pm # pms) = do {
     t \<leftarrow> io_tick;
     case bk_port B t of
       Inl err \<Rightarrow> ret (Inl (''allocate free port: '' @ err))
     | Inr port \<Rightarrow> do {
         rest \<leftarrow> clone_ports B pms;
         case rest of
           Inl err \<Rightarrow> ret (Inl err)
         | Inr pms' \<Rightarrow> ret (Inr (pm\<lparr>pm_HostPort := Itoa port\<rparr> # pms'))
       }
   }"

fun clone_services :: "BackupService \<Rightarrow> ServiceConfig list \<Rightarrow> ServiceConfig list result io" where
  "clone_services B [] = ret (Inr [])"
| "clone_services B (svc # svcs) = do {
     ports \<leftarrow> clone_ports B (svc_Ports svc);
     case ports of
       Inl err \<Rightarrow> ret (Inl err)
     | Inr ports \<Rightarrow> do {
         rest \<leftarrow> clone_services B svcs;
         case rest of
           Inl err \<Rightarrow> ret (Inl err)
         | Inr svcs' \<Rightarrow> ret (Inr (svc\<lparr>svc_Ports := ports, svc_PublicHostnames := []\<rparr> # svcs'))
       }
   }"

definition cloneForRestore :: "BackupService \<Rightarrow> Project \<Rightarrow> string \<Rightarrow> Project result io" where
  "cloneForRestore B src newID =
     (if newID = p_ID src then ret (Inl ''--as id must differ from source project id'')
      else if p_StackPath src = ''''
      then ret (Inl ''source project stack_path required for --as restore'')
      else do {
        services \<leftarrow> clone_services B (p_Services src);
        ret (case services of
          Inl err \<Rightarrow> Inl err
        | Inr svcs \<Rightarrow> Inr (src\<lparr>p_ID := newID, p_DisplayName := p_DisplayName src @ '' (restore-verify)'',
            p_StackPath := Join2 (DirOf (p_StackPath src)) newID, p_IsSystem := False,
            p_CreatedAt := zero_time, p_UpdatedAt := zero_time, p_Services := svcs,
            p_EnvVars := copyEnvVars (p_EnvVars src),
            p_SecretEnvKeys := append_to_nil (p_SecretEnvKeys src)\<rparr>))
      })"

text \<open>A clone is stored and started before anything is restored into it.\<close>

definition launch_clone :: "BackupService \<Rightarrow> Deployer \<Rightarrow> Project \<Rightarrow> Project result io" where
  "launch_clone B D clone = do {
     ex \<leftarrow> db_read (\<lambda>d. GetProject (bk_codec B) d (p_ID clone));
     case ex of
       Inr q \<Rightarrow> ret (Inl (''project '' @ p_ID clone @ '' already exists '' @ em_dash @ '' choose another --as id''))
     | Inl e \<Rightarrow> do {
     r \<leftarrow> rand_Read (bk_env B);
     now \<leftarrow> time_Now (bk_env B);
     created \<leftarrow> db_exec (CreateProject (bk_codec B) r now clone);
     case created of
       Inl err \<Rightarrow> ret (Inl (''create clone: '' @ err))
     | Inr u \<Rightarrow> do {
     started \<leftarrow> Start D clone;
     case started of
       Inl err \<Rightarrow> ret (Inl (''start clone: '' @ err))
     | Inr u \<Rightarrow> ret (Inr clone)
     }}}"

definition start_clone ::
    "BackupService \<Rightarrow> Deployer option \<Rightarrow> Project \<Rightarrow> string \<Rightarrow> Project result io" where
  "start_clone B dep p newID =
     (case dep of
        None \<Rightarrow> ret (Inl ''--as restore requires deployer'')
      | Some D \<Rightarrow> do {
          c \<leftarrow> cloneForRestore B p newID;
          case c of
            Inl err \<Rightarrow> ret (Inl err)
          | Inr clone \<Rightarrow> launch_clone B D clone
        })"

definition Abs :: "BackupService \<Rightarrow> string \<Rightarrow> string result" where
  "Abs B path =
     (if IsAbs path then Inr (Clean path)
      else case bk_cwd B of Inl err \<Rightarrow> Inl err | Inr wd \<Rightarrow> Inr (Join2 wd path))"

text \<open>The part of \<open>Restore\<close> under the lock: bring the file into the stack, run the command.\<close>

definition restore_locked ::
    "BackupService \<Rightarrow> Project \<Rightarrow> BackupSpec \<Rightarrow> string \<Rightarrow> error option outcome io" where
  "restore_locked B p b file = do {
     let hostDir = BackupHostDir p;
     d \<leftarrow> os_MkdirAll (bk_env B) hostDir;
     case d of
       Inl err \<Rightarrow> ret (Returned (Some (''ensure backup dir: '' @ err)))
     | Inr u \<Rightarrow>
     (case Abs B file of
       Inl err \<Rightarrow> ret (Returned (Some (''resolve file: '' @ err)))
     | Inr srcAbs \<Rightarrow> do {
     let dstName = BaseOf srcAbs;
     let dst = Join2 hostDir dstName;
     copied \<leftarrow> (if srcAbs \<noteq> dst then copyFile (bk_env B) srcAbs dst else ret (Inr ()));
     case copied of
       Inl err \<Rightarrow> ret (Returned (Some (''copy backup file into stack: '' @ err)))
     | Inr u \<Rightarrow> do {
     running \<leftarrow> IsServiceRunning B (p_StackPath p) (bs_Service b);
     case running of
       Inl err \<Rightarrow> ret (Returned (Some (''check service running: '' @ err)))
     | Inr up \<Rightarrow>
     if \<not> up then ret (Returned (Some (''service '' @ bs_Service b @ '' is not running '' @ em_dash @ '' start it before restore'')))
     else do {
     r \<leftarrow> Exec B \<lparr>eo_StackPath = p_StackPath p, eo_Service = bs_Service b, eo_User = bs_User b,
       eo_Env = [(''BBSIT_BACKUP_FILE'', Join2 (bs_OutputPath b) dstName)], eo_Shell = '''',
       eo_Command = bs_RestoreCommand b\<rparr>;
     case snd r of
       None \<Rightarrow> ret (Returned None)
     | Some err \<Rightarrow>
         (case fst r of None \<Rightarrow> ret Panic
          | Some res \<Rightarrow> ret (Returned (Some (''restore command failed: '' @ err))))
     }}})
   }"

definition restore_into ::
    "BackupService \<Rightarrow> Project \<Rightarrow> BackupSpec \<Rightarrow> string \<Rightarrow> (Project option \<times> error option) outcome io" where
  "restore_into B target b file = do {
     locked \<leftarrow> backup_TryLock (p_ID target);
     if \<not> locked
     then ret (Returned (Some target, Some (''project '' @ p_ID target @ '': backup or restore already in progress'')))
     else do {
       r \<leftarrow> restore_locked B target b file;
       backup_Unlock (p_ID target);
       ret (case r of Panic \<Rightarrow> Panic | Returned err \<Rightarrow> Returned (Some target, err))
     }
   }"

definition Restore ::
    "BackupService \<Rightarrow> Project \<Rightarrow> RestoreOptions \<Rightarrow> Deployer option \<Rightarrow> (Project option \<times> error option) outcome io" where
  "Restore B p opts dep =
     (case p_Backup p of
        None \<Rightarrow> ret (Returned (None, Some (''project '' @ p_ID p @ '' has no backup spec'')))
      | Some b \<Rightarrow>
          if bs_RestoreCommand b = ''''
          then ret (Returned (None, Some (''project '' @ p_ID p @ '' has no restore_command configured'')))
          else if ro_File opts = '''' then ret (Returned (None, Some ''backup file path required''))
          else do {
            t \<leftarrow> (if ro_AsProjectID opts \<noteq> '''' then start_clone B dep p (ro_AsProjectID opts)
                  else ret (Inr p));
            case t of
              Inl err \<Rightarrow> ret (Returned (None, Some err))
            | Inr target \<Rightarrow> restore_into B target b (ro_File opts)
          })"

section \<open>Handlers\<close>

text \<open>A reply with its status, its \<open>error\<close> field and the rest of its body.\<close>

datatype AdminBody =
    RunBody "BackupRun option" | FilesBody "BackupFile list" | RunsBody "BackupRun list"
  | RestoreBody "string option"

type_synonym admin_reply = "int \<times> error option \<times> AdminBody option"

definition admin_error :: "int \<Rightarrow> error \<Rightarrow> admin_reply outcome io" where
  "admin_error code msg = ret (Returned (code, Some msg, None))"

text \<open>The two checks every handler starts with.\<close>

definition with_backups ::
    "Server \<Rightarrow> BackupService option \<Rightarrow> string \<Rightarrow> (BackupService \<Rightarrow> Project \<Rightarrow> admin_reply outcome io) \<Rightarrow>
     admin_reply outcome io" where
  "with_backups S bk i k = do {
     r \<leftarrow> db_read (\<lambda>d. GetProject (srv_codec S) d i);
     case r of
       Inl err \<Rightarrow> admin_error 404 ''project not found''
     | Inr p \<Rightarrow>
         (case bk of
            None \<Rightarrow> admin_error 500 ''backup service not initialised''
          | Some B \<Rightarrow> k B p)
   }"

definition apiAdminBackup ::
    "Server \<Rightarrow> BackupService option \<Rightarrow> string \<Rightarrow> string \<Rightarrow> admin_reply outcome io" where
  "apiAdminBackup S bk i trigger = with_backups S bk i (\<lambda>B p.
     if p_Backup p = None then admin_error 400 ''project has no backup spec configured''
     else do {
       r \<leftarrow> Run B p (if trigger = '''' then ''manual'' else trigger);
       case r of
         Panic \<Rightarrow> ret Panic
       | Returned (run, None) \<Rightarrow> ret (Returned (200, None, Some (RunBody run)))
       | Returned (run, Some err) \<Rightarrow> ret (Returned (500, Some err, Some (RunBody run)))
     })"

definition apiAdminListBackups ::
    "Server \<Rightarrow> BackupService option \<Rightarrow> string \<Rightarrow> admin_reply outcome io" where
  "apiAdminListBackups S bk i = with_backups S bk i (\<lambda>B p. do {
     r \<leftarrow> List B p;
     case r of
       Inl err \<Rightarrow> admin_error 500 err
     | Inr files \<Rightarrow> ret (Returned (200, None, Some (FilesBody files)))
   })"

definition history_limit :: "string \<Rightarrow> int" where
  "history_limit l = (case Atoi l of Some n \<Rightarrow> if 0 < n then n else 50 | None \<Rightarrow> 50)"

definition apiAdminBackupHistory ::
    "Server \<Rightarrow> BackupService option \<Rightarrow> string \<Rightarrow> string \<Rightarrow> admin_reply outcome io" where
  "apiAdminBackupHistory S bk i limit = with_backups S bk i (\<lambda>B p. do {
     runs \<leftarrow> History i (history_limit limit);
     ret (Returned (200, None, Some (RunsBody runs)))
   })"

definition projectIDOrNil :: "Project option \<Rightarrow> string option" where
  "projectIDOrNil p = map_option p_ID p"

text \<open>\<open>req\<close> is the decoded body: the file and the id of the clone.\<close>

definition apiAdminRestore ::
    "Server \<Rightarrow> BackupService option \<Rightarrow> string \<Rightarrow> (string \<times> string) option \<Rightarrow> admin_reply outcome io" where
  "apiAdminRestore S bk i req = with_backups S bk i (\<lambda>B p.
     case p_Backup p of
       None \<Rightarrow> admin_error 400 ''project has no restore_command configured''
     | Some b \<Rightarrow>
         if bs_RestoreCommand b = '''' then admin_error 400 ''project has no restore_command configured''
         else (case req of
           None \<Rightarrow> admin_error 400 ''invalid JSON body''
         | Some (file, as_id) \<Rightarrow>
             if file = '''' then admin_error 400 ''file required''
             else do {
               let path = (if \<not> IsAbs file \<and> BaseOf file = file then Join2 (BackupHostDir p) file else file);
               r \<leftarrow> Restore B p \<lparr>ro_File = path, ro_AsProjectID = as_id\<rparr> (Some (srv_deployer S));
               case r of
                 Panic \<Rightarrow> ret Panic
               | Returned (target, Some msg) \<Rightarrow> ret (Returned (500, Some msg, Some (RestoreBody (projectIDOrNil target))))
               | Returned (None, None) \<Rightarrow> ret Panic
               | Returned (Some target, None) \<Rightarrow>
                   ret (Returned (200, None, Some (RestoreBody (projectIDOrNil (Some target)))))
             }))"

section \<open>Frame lemmas\<close>

lemma leaves_backup_locks [frame]:
  "leaves w_backup_locks io_tick" "leaves w_backup_locks (io_trace a)" "leaves w_backup_locks (fs_op e p g)"
  "leaves w_backup_locks (db_write f)" "leaves w_backup_locks (exec_run e argv d)"
  by (auto simp: leaves_def io_tick_def io_trace_def fs_op_def db_write_def exec_run_def io_gets_def Let_def
      split: option.splits sum.splits)

lemma leaves_backup_locks_db_exec [frame]: "leaves w_backup_locks (db_exec f)" "leaves w_fs (db_exec f)"
  by (auto simp: leaves_def db_exec_def split: prod.splits)

lemma leaves_backup_locks_os [frame]:
  "leaves w_backup_locks (os_Stat e p)" "leaves w_backup_locks (os_MkdirAll e p)"
  "leaves w_backup_locks (os_WriteFile e p d m)" "leaves w_backup_locks (time_Now e)"
  "leaves w_backup_locks (rand_Read e)" "leaves w_backup_locks (fileExists e p)"
  by (auto simp: os_Stat_def os_MkdirAll_def os_WriteFile_def time_Now_def rand_Read_def fileExists_def
      intro!: frame)

lemma leaves_Exec [frame]: "leaves own_state (Exec B opts)" "leaves w_backup_locks (Exec B opts)"
  by (auto simp: Exec_def Let_def intro!: frame)

lemma leaves_IsServiceRunning [frame]:
  "leaves own_state (IsServiceRunning B sp svc)" "leaves w_backup_locks (IsServiceRunning B sp svc)"
  by (auto simp: IsServiceRunning_def intro!: frame)

lemma leaves_ReadFile_locks [frame]: "leaves w_backup_locks (os_ReadFile e p)"
  by (auto simp: os_ReadFile_def intro!: frame)

lemma leaves_hashFile [frame]: "leaves own_state (hashFile B p)" "leaves w_backup_locks (hashFile B p)"
    "leaves w_fs (hashFile B p)"
  by (auto simp: hashFile_def intro!: frame)

lemma leaves_copyFile [frame]: "leaves own_state (copyFile e s d)" "leaves w_backup_locks (copyFile e s d)"
  unfolding copyFile_def by (intro frame)+

lemma leaves_stat_files [frame]: "leaves own_state (stat_files B ps)" "leaves w_backup_locks (stat_files B ps)"
    "leaves w_fs (stat_files B ps)"
  by (induction ps) (auto intro!: frame)

lemma leaves_newestMatch [frame]:
  "leaves own_state (newestMatch B d pat t)" "leaves w_backup_locks (newestMatch B d pat t)"
  "leaves w_fs (newestMatch B d pat t)"
  by (auto simp: newestMatch_def intro!: frame)

section \<open>The newest file\<close>

definition recent :: "int \<Rightarrow> BackupFile \<Rightarrow> bool" where
  "recent since f \<longleftrightarrow> since - 5 * 1000000000 \<le> bf_Modified f"

lemma newest_spec:
  "newest since best files = best \<and> (\<forall>f \<in> set files. recent since f \<longrightarrow> bf_Modified f \<le> snd best) \<or>
   (\<exists>f \<in> set files. newest since best files = (bf_Path f, bf_Modified f) \<and> recent since f \<and>
      snd best < bf_Modified f \<and> (\<forall>g \<in> set files. recent since g \<longrightarrow> bf_Modified g \<le> bf_Modified f))"
proof (induction files arbitrary: best)
  case (Cons f files)
  consider "\<not> recent since f" | "recent since f" "snd best < bf_Modified f"
    | "recent since f" "bf_Modified f \<le> snd best" by linarith
  then show ?case
  proof cases
    case 1
    then have "newest since best (f # files) = newest since best files" by (simp add: recent_def)
    with Cons.IH [of best] 1 show ?thesis by auto
  next
    case 2
    then have eq: "newest since best (f # files) = newest since (bf_Path f, bf_Modified f) files"
      by (simp add: recent_def)
    from Cons.IH [of "(bf_Path f, bf_Modified f)"] show ?thesis
    proof
      assume "newest since (bf_Path f, bf_Modified f) files = (bf_Path f, bf_Modified f) \<and>
        (\<forall>g \<in> set files. recent since g \<longrightarrow> bf_Modified g \<le> snd (bf_Path f, bf_Modified f))"
      with eq 2 show ?thesis by auto
    next
      assume "\<exists>g \<in> set files. newest since (bf_Path f, bf_Modified f) files = (bf_Path g, bf_Modified g) \<and>
        recent since g \<and> snd (bf_Path f, bf_Modified f) < bf_Modified g \<and>
        (\<forall>h \<in> set files. recent since h \<longrightarrow> bf_Modified h \<le> bf_Modified g)"
      then obtain g where g: "g \<in> set files" "newest since best (f # files) = (bf_Path g, bf_Modified g)"
        "recent since g" "bf_Modified f < bf_Modified g" "\<forall>h \<in> set files. recent since h \<longrightarrow> bf_Modified h \<le> bf_Modified g"
        using eq by auto
      with 2 have "snd best < bf_Modified g" "\<forall>h \<in> set (f # files). recent since h \<longrightarrow> bf_Modified h \<le> bf_Modified g" by auto
      with g show ?thesis by auto
    qed
  next
    case 3
    then have "newest since best (f # files) = newest since best files" by (simp add: recent_def)
    with Cons.IH [of best] 3 show ?thesis by fastforce
  qed
qed simp

lemma stat_files_paths:
  "wp (stat_files B ps) w (\<lambda>files w'. bf_Path ` set files \<subseteq> set ps \<and>
     list_all (\<lambda>f. fs_contents (w_fs w) (bf_Path f) \<noteq> None) files)"
proof (induction ps arbitrary: w)
  case (Cons p ps)
  show ?case
    by (simp, rule wp_mono [OF Cons.IH])
       (auto simp: fs_stat_def fs_contents_def Let_def split: option.splits stat_result.splits Node.splits if_splits)
qed simp

lemma newest_found:
  assumes "bf_Path ` set files \<subseteq> set ps \<and> list_all (\<lambda>f. P (bf_Path f)) files"
  shows "fst (newest since ('''', t) files) = '''' \<or>
    fst (newest since ('''', t) files) \<in> set ps \<and> P (fst (newest since ('''', t) files))"
proof (cases "newest since ('''', t) files = ('''', t)")
  case False
  with newest_spec [of since "('''', t)" files] obtain f where "f \<in> set files"
    "newest since ('''', t) files = (bf_Path f, bf_Modified f)" by blast
  with assms show ?thesis by (auto simp: list_all_iff)
qed simp

definition found_by :: "BackupService \<Rightarrow> fs \<Rightarrow> string \<Rightarrow> string \<Rightarrow> bool" where
  "found_by B f target file \<longleftrightarrow>
     (case Glob f target of Inl e \<Rightarrow> False | Inr ms \<Rightarrow> file \<in> set ms) \<and> fs_contents f file \<noteq> None"

lemma newestMatch_post:
  "wp (newestMatch B d pat since) w (\<lambda>r w'. \<forall>file. r = Inr file \<and> file \<noteq> '''' \<longrightarrow>
     found_by B (w_fs w) (Join2 d pat) file)"
proof (cases "Glob (w_fs w) (Join2 d pat)")
  case (Inr ms)
  show ?thesis
    unfolding newestMatch_def
    by (simp add: Inr, rule wp_mono [OF stat_files_paths], drule newest_found)
       (auto simp: found_by_def Inr)
qed (simp add: newestMatch_def)

section \<open>The audit record of a backup\<close>

definition run_effect :: "BackupRun \<Rightarrow> DB \<Rightarrow> DB" where
  "run_effect fin db =
     db\<lparr>db_backup_runs := db_backup_runs db @ [fin], db_backup_seq := Suc (db_backup_seq db)\<rparr>"

lemma settle_fresh:
  assumes "\<forall>r \<in> set rs. br_ID r \<le> n"
  shows "map (\<lambda>r. if br_ID r = Suc n then f r else r) rs = rs"
  using assms by (induction rs) auto

lemma Finish_effect:
  assumes "db_ok db" "br_ID fin = Suc (db_backup_seq db)"
  shows "FinishBackupRun now (br_ID fin) st f h k msg (run_effect fin db) =
    run_effect (fin\<lparr>br_Status := st, br_FilePath := f, br_SHA256 := h, br_Bytes := k,
      br_EndedAt := Some (rfc3339 now), br_Error := msg\<rparr>) db"
proof -
  have "\<forall>r \<in> set (db_backup_runs db). br_ID r \<le> db_backup_seq db"
    using assms(1) by (simp add: db_ok_defs)
  with assms(2) show ?thesis by (simp add: FinishBackupRun_def run_effect_def settle_fresh)
qed

text \<open>What the record says, given the error \<open>err\<close> that \<open>Run\<close> returns and the files it leaves.\<close>

definition backup_outcome ::
    "BackupService \<Rightarrow> Project \<Rightarrow> string \<Rightarrow> fs \<Rightarrow> error option \<Rightarrow> BackupRun \<Rightarrow> bool" where
  "backup_outcome B p trigger f err fin \<longleftrightarrow>
     br_ProjectID fin = p_ID p \<and> br_Trigger fin = trigger \<and> br_EndedAt fin \<noteq> None \<and>
     (case err of
        Some e \<Rightarrow> br_Status fin = BackupFailed \<and> br_SHA256 fin = ''''
      | None \<Rightarrow> br_Status fin = BackupSuccess \<and>
          found_by B f (Join2 (BackupHostDir p) (backup_pattern p)) (br_FilePath fin) \<and>
          (\<exists>c. fs_contents f (br_FilePath fin) = Some c \<and> br_SHA256 fin = hex_encode (bk_sha256 B c) \<and>
             br_Bytes fin = int (length c)))"

definition backup_post ::
    "BackupService \<Rightarrow> Project \<Rightarrow> string \<Rightarrow> World \<Rightarrow> (BackupRun option \<times> error option) outcome \<Rightarrow> World \<Rightarrow> bool" where
  "backup_post B p trigger w r w' \<longleftrightarrow>
     w_backup_locks w' = w_backup_locks w \<and> w_locks w' = w_locks w \<and>
     (case r of
        Panic \<Rightarrow> False
      | Returned (run, err) \<Rightarrow>
          (case run of
             None \<Rightarrow> err \<noteq> None \<and> w_db w' = w_db w
           | Some x \<Rightarrow>
               (\<exists>fin. w_db w' = run_effect fin (w_db w) \<and> br_ID fin = Suc (db_backup_seq (w_db w)) \<and>
                  backup_outcome B p trigger (w_fs w') err fin)))"

text \<open>A run in progress: its record is in the database, with the fields set so far.\<close>

definition open_backup :: "Project \<Rightarrow> string \<Rightarrow> World \<Rightarrow> BackupRun \<Rightarrow> World \<Rightarrow> bool" where
  "open_backup p trigger w run w1 \<longleftrightarrow>
     w_backup_locks w1 = w_backup_locks w \<and> w_locks w1 = w_locks w \<and>
     br_ID run = Suc (db_backup_seq (w_db w)) \<and>
     (\<exists>fin. w_db w1 = run_effect fin (w_db w) \<and> br_ID fin = br_ID run \<and> br_ProjectID fin = p_ID p \<and>
        br_Trigger fin = trigger)"

lemma open_backup_step:
  assumes "open_backup p trigger w run w1" "leaves own_state m" "leaves w_backup_locks m"
  shows "wp m w1 (\<lambda>a w2. open_backup p trigger w run w2)"
  by (rule wp_mono [OF wp_conj [OF wp_leaves [OF assms(2)] wp_leaves [OF assms(3)]]])
     (use assms(1) in \<open>auto simp: open_backup_def own_state_def\<close>)

text \<open>Finishing the open record settles it.\<close>

lemma wp_finish_run:
  assumes "db_ok (w_db w)" "open_backup p trigger w run w1"
    and "\<And>fin w2. w_db w2 = run_effect fin (w_db w) \<Longrightarrow> w_backup_locks w2 = w_backup_locks w \<Longrightarrow>
      w_locks w2 = w_locks w \<Longrightarrow> w_fs w2 = w_fs w1 \<Longrightarrow> br_ID fin = Suc (db_backup_seq (w_db w)) \<Longrightarrow>
      br_ProjectID fin = p_ID p \<Longrightarrow> br_Trigger fin = trigger \<Longrightarrow> br_EndedAt fin \<noteq> None \<Longrightarrow>
      br_Status fin = st \<Longrightarrow> br_FilePath fin = f \<Longrightarrow> br_SHA256 fin = h \<Longrightarrow> br_Bytes fin = k \<Longrightarrow> Q () w2"
  shows "wp (finish_run B (br_ID run) st f h k msg) w1 Q"
proof -
  obtain fin where fin: "w_db w1 = run_effect fin (w_db w)" "br_ID fin = br_ID run"
      "br_ProjectID fin = p_ID p" "br_Trigger fin = trigger"
    and id: "br_ID run = Suc (db_backup_seq (w_db w))"
    and locks: "w_backup_locks w1 = w_backup_locks w" "w_locks w1 = w_locks w"
    using assms(2) by (auto simp: open_backup_def)
  have "FinishBackupRun now (br_ID run) st f h k msg (w_db w1) =
      run_effect (fin\<lparr>br_Status := st, br_FilePath := f, br_SHA256 := h, br_Bytes := k,
        br_EndedAt := Some (rfc3339 now), br_Error := msg\<rparr>) (w_db w)" for now
    using Finish_effect [OF assms(1), of fin] fin id by simp
  then show ?thesis
    unfolding finish_run_def using fin id locks by (auto intro!: assms(3))
qed

section \<open>The contract of a backup\<close>

lemma hashFile_post:
  "wp (hashFile B path) w (\<lambda>r w'. w_fs w' = w_fs w \<and> (\<forall>h k. r = Inr (h, k) \<longrightarrow>
     (\<exists>c. fs_contents (w_fs w) path = Some c \<and> h = hex_encode (bk_sha256 B c) \<and> k = int (length c))))"
  unfolding hashFile_def wp_bind
  by (rule wp_mono [OF ReadFile_post]) (auto split: sum.splits)

lemma wp_failed_run:
  assumes "db_ok (w_db w)" "open_backup p trigger w run w1"
  shows "wp (do { finish_run B (br_ID run) BackupFailed f '''' 0 msg; ret (Returned (Some run, Some e)) }) w1
    (backup_post B p trigger w)"
  by (simp, rule wp_finish_run [OF assms]) (auto simp: backup_post_def backup_outcome_def)

lemma record_hashed_post:
  assumes "db_ok (w_db w)" "open_backup p trigger w run w1"
    and f: "found_by B (w_fs w1) (Join2 (BackupHostDir p) (backup_pattern p)) fl"
  shows "wp (record_hashed B fl run) w1 (backup_post B p trigger w)"
  unfolding record_hashed_def wp_bind [of "hashFile B fl"]
proof (rule wp_mono [OF wp_conj [OF hashFile_post open_backup_step [OF assms(2) leaves_hashFile(1,2)]]],
    erule conjE)
  fix h :: "(string \<times> int) result" and w2
  assume h: "w_fs w2 = w_fs w1 \<and> (\<forall>a k. h = Inr (a, k) \<longrightarrow>
        (\<exists>c. fs_contents (w_fs w1) fl = Some c \<and> a = hex_encode (bk_sha256 B c) \<and> k = int (length c)))"
    and o: "open_backup p trigger w run w2"
  show "wp (case h of
       Inl err \<Rightarrow> do { finish_run B (br_ID run) BackupFailed fl '''' 0 err;
         ret (Returned (Some run, Some (''hash backup file: '' @ err))) }
     | Inr (sha, nbytes) \<Rightarrow> do {
         finish_run B (br_ID run) BackupSuccess fl sha nbytes '''';
         end_time \<leftarrow> time_Now (bk_env B);
         ret (Returned (Some (run\<lparr>br_EndedAt := Some end_time, br_Status := BackupSuccess,
           br_FilePath := fl, br_SHA256 := sha, br_Bytes := nbytes\<rparr>), None)) }) w2 (backup_post B p trigger w)"
  proof (cases h)
    case (Inl err)
    then show ?thesis using wp_failed_run [OF assms(1) o] by (simp only: sum.case)
  next
    case (Inr r)
    then obtain a k where r: "h = Inr (a, k)" by (cases r) auto
    show ?thesis
      unfolding r
      by (simp, rule wp_finish_run [OF assms(1) o])
         (use h r f in \<open>auto simp: backup_post_def backup_outcome_def\<close>)
  qed
qed

lemma record_output_post:
  assumes "db_ok (w_db w)" "open_backup p trigger w run w1"
  shows "wp (record_output B p (BackupHostDir p) run) w1 (backup_post B p trigger w)"
  unfolding record_output_def wp_bind [of "newestMatch B d pat t" for d pat t]
proof (rule wp_mono [OF wp_conj [OF wp_leaves [OF leaves_newestMatch(3)]
      wp_conj [OF newestMatch_post open_backup_step [OF assms(2) leaves_newestMatch(1,2)]]]])
  fix m :: "string result" and w2
  let ?hd = "BackupHostDir p"
  assume m: "w_fs w2 = w_fs w1 \<and> (\<forall>fl. m = Inr fl \<and> fl \<noteq> '''' \<longrightarrow>
      found_by B (w_fs w1) (Join2 ?hd (backup_pattern p)) fl) \<and> open_backup p trigger w run w2"
  then have o: "open_backup p trigger w run w2" by blast
  show "wp (case m of
       Inl err \<Rightarrow> do {
         finish_run B (br_ID run) BackupFailed '''' '''' 0 err;
         ret (Returned (Some run, Some (''locate backup output: '' @ err))) }
     | Inr fl \<Rightarrow>
         if fl = '''' then do {
           let msg = ''no file matching '' @ Quote (backup_pattern p) @ '' in '' @ ?hd @ '' after backup command'';
           finish_run B (br_ID run) BackupFailed '''' '''' 0 msg;
           ret (Returned (Some run, Some msg)) }
         else record_hashed B fl run) w2 (backup_post B p trigger w)"
  proof (cases m)
    case (Inl err)
    then show ?thesis using wp_failed_run [OF assms(1) o] by (simp only: sum.case)
  next
    case (Inr fl)
    then show ?thesis
      using wp_failed_run [OF assms(1) o] record_hashed_post [OF assms(1) o, of B fl] m
      by (cases "fl = ''''") (simp_all only: sum.case Let_def if_True if_False simp_thms)
  qed
qed

text \<open>\<open>Exec\<close> panics its caller only without a command, stack path or service.\<close>

lemma Exec_result:
  assumes "eo_StackPath opts \<noteq> ''''" "eo_Service opts \<noteq> ''''" "eo_Command opts \<noteq> ''''"
  shows "wp (Exec B opts) w (\<lambda>r w'. fst r \<noteq> None)"
  using assms by (simp add: Exec_def Let_def)

lemma IsServiceRunning_up:
  "wp (IsServiceRunning B sp svc) w (\<lambda>r w'. r \<noteq> Inr up \<or> sp \<noteq> '''' \<and> svc \<noteq> '''')"
  by (auto simp: IsServiceRunning_def wp_bind)

lemma exec_backup_post:
  assumes "db_ok (w_db w)" "open_backup p trigger w run w1"
    and "p_StackPath p \<noteq> ''''" "bs_Service b \<noteq> ''''" "bs_BackupCommand b \<noteq> ''''"
  shows "wp (exec_backup B p b (BackupHostDir p) run) w1 (backup_post B p trigger w)"
  unfolding exec_backup_def wp_bind [of "Exec B opts" for opts]
proof (rule wp_mono [OF wp_conj [OF Exec_result open_backup_step [OF assms(2) leaves_Exec]]])
  fix r :: "ExecResult option \<times> error option" and w2
  assume r: "fst r \<noteq> None \<and> open_backup p trigger w run w2"
  then obtain res where res: "fst r = Some res" by blast
  show "wp (case snd r of
       Some execErr \<Rightarrow> do {
         finish_run B (br_ID run) BackupFailed '''' '''' 0 execErr;
         (case fst r of
            None \<Rightarrow> ret Panic
          | Some res \<Rightarrow> ret (Returned (Some run, Some (''backup command failed: '' @ execErr)))) }
     | None \<Rightarrow> record_output B p (BackupHostDir p) run) w2 (backup_post B p trigger w)"
  proof (cases "snd r")
    case None
    then show ?thesis using record_output_post [OF assms(1)] r by simp
  next
    case (Some e)
    then show ?thesis using wp_failed_run [OF assms(1)] r by (simp only: option.case res)
  qed
qed (use assms in simp_all)

text \<open>Nothing of the daemon's own state has changed yet.\<close>

definition untouched_run :: "World \<Rightarrow> World \<Rightarrow> bool" where
  "untouched_run w w1 \<longleftrightarrow> w_backup_locks w1 = w_backup_locks w \<and> own_state w1 = own_state w"

lemma untouched_run_step:
  assumes "untouched_run w w1" "leaves own_state m" "leaves w_backup_locks m"
  shows "wp m w1 (\<lambda>a. untouched_run w)"
  by (rule wp_mono [OF wp_conj [OF wp_leaves [OF assms(2)] wp_leaves [OF assms(3)]]])
     (use assms(1) in \<open>auto simp: untouched_run_def\<close>)

lemma not_started:
  "untouched_run w w1 \<Longrightarrow> backup_post B p trigger w (Returned (None, Some e)) w1"
  by (simp add: untouched_run_def backup_post_def own_state_def)

lemma insert_opens:
  assumes "untouched_run w w1"
  shows "wp (db_exec (InsertBackupRun (new_run p trigger now))) w1 (\<lambda>ins w2. case ins of
     Inl e \<Rightarrow> untouched_run w w2
   | Inr i \<Rightarrow> open_backup p trigger w ((new_run p trigger now)\<lparr>br_ID := i\<rparr>) w2)"
  using assms
  by (auto simp: InsertBackupRun_def new_run_def untouched_run_def own_state_def open_backup_def run_effect_def Let_def
      split: if_splits)

lemma run_locked_post:
  assumes "db_ok (w_db w)" "untouched_run w w1" "bs_BackupCommand b \<noteq> ''''"
  shows "wp (run_locked B p b trigger) w1 (backup_post B p trigger w)"
  unfolding run_locked_def Let_def wp_bind [of "os_MkdirAll e d" for e d]
proof (rule wp_mono [OF untouched_run_step [OF assms(2) leaves_os(1) leaves_backup_locks_os(2)]])
  fix d :: "unit result" and w2
  assume o: "untouched_run w w2"
  let ?up = "\<lambda>running. case running of
       Inl err \<Rightarrow> ret (Returned (None, Some (''check service running: '' @ err)))
     | Inr up \<Rightarrow>
     if \<not> up then ret (Returned (None, Some (''service '' @ bs_Service b @ '' is not running '' @ em_dash @ '' start the project before backup'')))
     else do {
     now \<leftarrow> time_Now (bk_env B);
     ins \<leftarrow> db_exec (InsertBackupRun (new_run p trigger now));
     case ins of
       Inl err \<Rightarrow> ret (Returned (None, Some (''insert backup run: '' @ err)))
     | Inr runID \<Rightarrow> exec_backup B p b (BackupHostDir p) ((new_run p trigger now)\<lparr>br_ID := runID\<rparr>) }"
  have "wp (IsServiceRunning B (p_StackPath p) (bs_Service b)) w2 (\<lambda>r w3. wp (?up r) w3 (backup_post B p trigger w))"
  proof (rule wp_mono [OF wp_conj [OF IsServiceRunning_up [of B _ _ _ True] untouched_run_step [OF o leaves_IsServiceRunning]]])
    fix r :: "bool result" and w3
    assume r: "(r \<noteq> Inr True \<or> p_StackPath p \<noteq> '''' \<and> bs_Service b \<noteq> '''') \<and> untouched_run w w3"
    consider e where "r = Inl e" | "r = Inr False" | "r = Inr True" by (cases r) auto
    then show "wp (?up r) w3 (backup_post B p trigger w)"
    proof cases
      case 3
      with r have names: "p_StackPath p \<noteq> ''''" "bs_Service b \<noteq> ''''" and w3: "untouched_run w w3" by auto
      have now: "wp (time_Now (bk_env B)) w3 (\<lambda>a. untouched_run w)" for now
        by (rule untouched_run_step [OF w3]) (intro frame)+
      show ?thesis
        unfolding 3
      proof (simp only: sum.case not_True_eq_False if_False, subst wp_bind, rule wp_mono [OF now])
        fix now w4
        assume w4: "untouched_run w w4"
        show "wp (do {
             ins \<leftarrow> db_exec (InsertBackupRun (new_run p trigger now));
             case ins of
               Inl err \<Rightarrow> ret (Returned (None, Some (''insert backup run: '' @ err)))
             | Inr runID \<Rightarrow> exec_backup B p b (BackupHostDir p) ((new_run p trigger now)\<lparr>br_ID := runID\<rparr>) })
           w4 (backup_post B p trigger w)"
        proof (subst wp_bind, rule wp_mono [OF insert_opens [OF w4]])
          fix ins :: "nat result" and w5
          assume i: "case ins of Inl e \<Rightarrow> untouched_run w w5
             | Inr i \<Rightarrow> open_backup p trigger w ((new_run p trigger now)\<lparr>br_ID := i\<rparr>) w5"
          show "wp (case ins of Inl err \<Rightarrow> ret (Returned (None, Some (''insert backup run: '' @ err)))
             | Inr runID \<Rightarrow> exec_backup B p b (BackupHostDir p) ((new_run p trigger now)\<lparr>br_ID := runID\<rparr>))
             w5 (backup_post B p trigger w)"
            using i by (cases ins) (simp_all add: not_started exec_backup_post [OF assms(1) _ names assms(3)])
        qed
      qed
    qed (use r in \<open>simp_all add: not_started\<close>)
  qed
  then show "wp (case d of Inl err \<Rightarrow> ret (Returned (None, Some (''ensure backup dir: '' @ err)))
     | Inr u \<Rightarrow> (do { running \<leftarrow> IsServiceRunning B (p_StackPath p) (bs_Service b); ?up running }))
     w2 (backup_post B p trigger w)"
    using o by (cases d) (simp_all only: sum.case wp_bind wp_ret not_started)
qed

lemma Run_post:
  assumes "db_ok (w_db w)" "p_ID p \<notin> set (w_backup_locks w)" "p_Backup p = Some b" "bs_BackupCommand b \<noteq> ''''"
  shows "wp (Run B p trigger) w (backup_post B p trigger w)"
proof -
  let ?w = "w\<lparr>w_backup_locks := p_ID p # w_backup_locks w\<rparr>"
  have "wp (run_locked B p b trigger) ?w (\<lambda>r w'. backup_post B p trigger w r
      (w'\<lparr>w_backup_locks := remove1 (p_ID p) (w_backup_locks w')\<rparr>))"
    by (rule wp_mono [OF run_locked_post [of ?w]])
       (use assms in \<open>auto simp: untouched_run_def backup_post_def split: outcome.splits option.splits\<close>)
  then show ?thesis
    using assms by (simp add: Run_def backup_TryLock_def backup_Unlock_def wp_def split: prod.splits)
qed

section \<open>A restore into a clone\<close>

text \<open>Everything the database stores about one project.\<close>

definition rows_of :: "string \<Rightarrow> DB \<Rightarrow> project_row option \<times> ProjectState result \<times> Deployment list \<times> BackupRun list" where
  "rows_of i db = (map_of (db_projects db) i, GetState db i, records_of db i,
     filter (\<lambda>r. br_ProjectID r = i) (db_backup_runs db))"

text \<open>The database is well-formed and what it stores about \<open>i\<close> is \<open>R\<close>.\<close>

abbreviation rows_kept
    :: "string \<Rightarrow> project_row option \<times> ProjectState result \<times> Deployment list \<times> BackupRun list \<Rightarrow> World \<Rightarrow> bool" where
  "rows_kept i R w \<equiv> db_ok (w_db w) \<and> rows_of i (w_db w) = R"

lemma keeps_own_rows: "leaves own_state m \<Longrightarrow> keeps (rows_kept i R) m"
  by (drule leaves_keeps [where P = "\<lambda>s. db_ok (fst s) \<and> rows_of i (fst s) = R"]) (simp add: own_state_def)

lemma keeps_rows_put:
  assumes "\<forall>st. s = Some st \<longrightarrow> st_ProjectID st \<noteq> i"
  shows "keeps (rows_kept i R) (put_state s)"
  using assms unfolding keeps_wp put_state_def
  by (cases s)
     (auto simp: rows_of_def records_of_def GetState_def map_of_sql_update UpdateState_def
        dest: db_ok_UpdateState)

lemma keeps_rows_create:
  assumes "p_ID p \<noteq> i"
  shows "keeps (rows_kept i R) (db_exec (CreateProject cd r now p))"
  unfolding keeps_wp
proof (intro allI impI, elim conjE)
  fix w :: World
  assume w: "db_ok (w_db w)" "rows_of i (w_db w) = R"
  have other: "map_of (sql_insert (p_ID p) r t) i = map_of t i" for r and t :: "'r table"
    using assms by (simp add: sql_insert_def map_add_def split: option.splits)
  have "rows_of i (snd (CreateProject cd r now p (w_db w))) = rows_of i (w_db w)"
    by (simp add: CreateProject_def rows_of_def records_of_def GetState_def other Let_def split: sum.splits)
  then show "wp (db_exec (CreateProject cd r now p)) w (\<lambda>a. rows_kept i R)"
    using w db_ok_CreateProject by simp
qed

lemma keeps_rows_Start:
  assumes "p_ID p \<noteq> i"
  shows "keeps (rows_kept i R) (Start D p)"
  unfolding keeps_wp
proof (intro allI impI, elim conjE)
  fix w :: World
  assume w: "db_ok (w_db w)" "rows_of i (w_db w) = R"
  have own: "\<forall>st. GetState (w_db w) (p_ID p) = Inr st \<longrightarrow> st_ProjectID st \<noteq> i"
    using w(1) assms by (auto simp: db_ok_defs GetState_def dest: rows_all_look split: option.splits)
  note rows = keeps_own_rows [OF leaves_emits(4)] keeps_own_rows [OF leaves_composeCmd(2)]
    keeps_own_rows [OF leaves_write_files(1)]
  show "wp (Start D p) w (\<lambda>a. rows_kept i R)"
    unfolding Start_def read_state_def
  proof (subst wp_bind, subst wp_db_read, rule keeps_wp [THEN iffD1, rule_format])
    show "rows_kept i R w" using w by simp
  next
  qed (use own in \<open>auto simp: start_failed_def Let_def intro!: wf_intros keeps_rows_put rows split: sum.splits\<close>)
qed

lemma leaves_clone_ports [frame]: "leaves own_state (clone_ports B pms)"
  by (induction pms) (auto intro!: frame)

lemma leaves_clone_services [frame]: "leaves own_state (clone_services B svcs)"
  by (induction svcs) (auto intro!: frame)

lemma leaves_cloneForRestore [frame]: "leaves own_state (cloneForRestore B p newID)"
  by (auto simp: cloneForRestore_def intro!: frame)

text \<open>The same services, published nowhere.\<close>

definition same_services :: "ServiceConfig list \<Rightarrow> ServiceConfig list \<Rightarrow> bool" where
  "same_services svcs svcs' \<longleftrightarrow> list_all (\<lambda>svc. svc_PublicHostnames svc = []) svcs' \<and>
     map svc_Name svcs' = map svc_Name svcs \<and>
     map (\<lambda>svc. map pm_ContainerPort (svc_Ports svc)) svcs' = map (\<lambda>svc. map pm_ContainerPort (svc_Ports svc)) svcs"

text \<open>What the clone keeps of its source and what is its own.\<close>

definition clone_of :: "Project \<Rightarrow> string \<Rightarrow> Project \<Rightarrow> bool" where
  "clone_of p newID q \<longleftrightarrow> newID \<noteq> p_ID p \<and> p_ID q = newID \<and>
     p_StackPath q = Join2 (DirOf (p_StackPath p)) newID \<and> \<not> p_IsSystem q \<and>
     same_services (p_Services p) (p_Services q) \<and>
     env_entries q = env_entries p \<and> p_Backup q = p_Backup p"

lemma clone_ports_post:
  "wp (clone_ports B pms) w (\<lambda>r w'. \<forall>pms'. r = Inr pms' \<longrightarrow> map pm_ContainerPort pms' = map pm_ContainerPort pms)"
proof (induction pms arbitrary: w)
  case (Cons pm pms)
  have "wp (clone_ports B pms) w1 (\<lambda>a w'. wp (case a of Inl err \<Rightarrow> ret (Inl err)
      | Inr pms' \<Rightarrow> ret (Inr (pm\<lparr>pm_HostPort := h\<rparr> # pms'))) w' (\<lambda>r w'. \<forall>qs. r = Inr qs \<longrightarrow>
        map pm_ContainerPort qs = pm_ContainerPort pm # map pm_ContainerPort pms))" for w1 h
    by (rule wp_mono [OF Cons.IH], rename_tac a w', case_tac a) simp_all
  then show ?case by (simp split: sum.split)
qed simp

lemma clone_services_post:
  "wp (clone_services B svcs) w (\<lambda>r w'. \<forall>svcs'. r = Inr svcs' \<longrightarrow> same_services svcs svcs')"
proof (induction svcs arbitrary: w)
  case Nil
  show ?case by (simp add: same_services_def)
next
  case (Cons svc svcs)
  have rest: "wp (clone_services B svcs) w2 (\<lambda>a w'. wp (case a of Inl err \<Rightarrow> ret (Inl err)
      | Inr svcs' \<Rightarrow> ret (Inr (svc\<lparr>svc_Ports := pms, svc_PublicHostnames := []\<rparr> # svcs'))) w'
        (\<lambda>r w'. \<forall>svcs'. r = Inr svcs' \<longrightarrow> same_services (svc # svcs) svcs'))"
    if "map pm_ContainerPort pms = map pm_ContainerPort (svc_Ports svc)" for w2 pms
    by (rule wp_mono [OF Cons.IH], rename_tac a w', case_tac a) (simp_all add: same_services_def that)
  show ?case
    unfolding clone_services.simps wp_bind
    by (rule wp_mono [OF clone_ports_post], rename_tac a w', case_tac a) (simp_all add: rest)
qed

lemma cloneForRestore_post:
  "wp (cloneForRestore B p newID) w (\<lambda>r w'. \<forall>q. r = Inr q \<longrightarrow> clone_of p newID q)"
proof -
  have "wp (clone_services B (p_Services p)) w (\<lambda>a w'. wp (ret (case a of
      Inl err \<Rightarrow> Inl err
    | Inr svcs \<Rightarrow> Inr (p\<lparr>p_ID := newID, p_DisplayName := p_DisplayName p @ '' (restore-verify)'',
        p_StackPath := Join2 (DirOf (p_StackPath p)) newID, p_IsSystem := False,
        p_CreatedAt := zero_time, p_UpdatedAt := zero_time, p_Services := svcs,
        p_EnvVars := copyEnvVars (p_EnvVars p),
        p_SecretEnvKeys := append_to_nil (p_SecretEnvKeys p)\<rparr>))) w'
      (\<lambda>r w'. \<forall>q. r = Inr q \<longrightarrow> clone_of p newID q))" if "newID \<noteq> p_ID p"
    by (rule wp_mono [OF clone_services_post], rename_tac a w', case_tac a)
       (simp_all add: clone_of_def same_services_def env_entries_def copyEnvVars_def that comp_def
        split: option.split)
  then show ?thesis by (simp add: cloneForRestore_def)
qed

lemma launch_clone_keeps:
  assumes "p_ID q \<noteq> i"
  shows "keeps (rows_kept i R) (launch_clone B D q)"
  unfolding launch_clone_def
  by (intro wf_intros keeps_rows_create keeps_rows_Start assms keeps_own_rows [OF leaves_time(1)]
      keeps_own_rows [OF leaves_rand(1)])

lemma launch_clone_returns: "returns (\<lambda>r. \<forall>q'. r = Inr q' \<longrightarrow> q' = q) (launch_clone B D q)"
  unfolding launch_clone_def by (intro returns_rules) auto

lemma start_clone_post:
  assumes "rows_kept (p_ID p) R w"
  shows "wp (start_clone B dep p newID) w (\<lambda>r w'. rows_kept (p_ID p) R w' \<and>
     (\<forall>q. r = Inr q \<longrightarrow> clone_of p newID q))"
proof (cases dep)
  case (Some D)
  have returned: "wp (launch_clone B D q) w1 (\<lambda>r w'. \<forall>q'. r = Inr q' \<longrightarrow> q' = q)" for q w1
    using launch_clone_returns [of q B D] by (auto simp: returns_def wp_def case_prod_beta)
  show ?thesis
    unfolding start_clone_def Some option.case
  proof (subst wp_bind, rule wp_mono [OF wp_conj [OF cloneForRestore_post
          keeps_wp [THEN iffD1, rule_format, OF keeps_own_rows [OF leaves_cloneForRestore] assms]]])
    fix r :: "Project result" and w1
    assume r: "(\<forall>q. r = Inr q \<longrightarrow> clone_of p newID q) \<and> rows_kept (p_ID p) R w1"
    show "wp (case r of Inl err \<Rightarrow> ret (Inl err) | Inr clone \<Rightarrow> launch_clone B D clone) w1
      (\<lambda>r w'. rows_kept (p_ID p) R w' \<and> (\<forall>q. r = Inr q \<longrightarrow> clone_of p newID q))"
    proof (cases r)
      case (Inr q)
      with r have q: "clone_of p newID q" "p_ID q \<noteq> p_ID p" by (auto simp: clone_of_def)
      show ?thesis
        unfolding Inr sum.case
        by (rule wp_mono [OF wp_conj [OF keeps_wp [THEN iffD1, rule_format, OF launch_clone_keeps [OF q(2)]] returned]])
           (use r q in auto)
    qed (use r in simp)
  qed
qed (use assms in \<open>simp add: start_clone_def\<close>)

lemma restore_locked_keeps: "keeps (rows_kept i R) (restore_locked B q b fl)"
proof -
  note own = keeps_own_rows [OF leaves_os(1)] keeps_own_rows [OF leaves_copyFile(1)]
    keeps_own_rows [OF leaves_IsServiceRunning(1)] keeps_own_rows [OF leaves_Exec(1)]
  show ?thesis unfolding restore_locked_def by (intro wf_intros own)
qed

lemma locks_keep: "keeps (rows_kept i R) (backup_TryLock q)" "keeps (rows_kept i R) (backup_Unlock q)"
  by (auto simp: keeps_def backup_TryLock_def backup_Unlock_def)

lemma restore_into_keeps: "keeps (rows_kept i R) (restore_into B q b fl)"
  unfolding restore_into_def by (intro wf_intros locks_keep restore_locked_keeps)

lemma restore_into_returns:
  "returns (\<lambda>r. \<forall>q err. r = Returned (Some q, err) \<longrightarrow> q = target) (restore_into B target b fl)"
  unfolding restore_into_def
proof (rule returns_bind)
  show "returns (\<lambda>r. \<forall>q err. r = Returned (Some q, err) \<longrightarrow> q = target)
      (if \<not> l then ret (Returned (Some target, Some (f l))) else do {
         r \<leftarrow> restore_locked B target b fl;
         backup_Unlock (p_ID target);
         ret (case r of Panic \<Rightarrow> Panic | Returned err \<Rightarrow> Returned (Some target, err)) })" for l f
    by (cases l) (auto intro!: returns_rules split: outcome.splits)
qed

lemma Restore_clone_keeps:
  assumes "db_ok (w_db w)" "ro_AsProjectID opts \<noteq> ''''"
  shows "wp (Restore B p opts dep) w (\<lambda>r w'. rows_kept (p_ID p) (rows_of (p_ID p) (w_db w)) w' \<and>
     (\<forall>q err. r = Returned (Some q, err) \<longrightarrow> clone_of p (ro_AsProjectID opts) q))"
proof -
  let ?R = "rows_of (p_ID p) (w_db w)"
  let ?Q = "\<lambda>r w'. rows_kept (p_ID p) ?R w' \<and>
     (\<forall>q err. r = Returned (Some q, err) \<longrightarrow> clone_of p (ro_AsProjectID opts) q)"
  have into: "wp (restore_into B q b fl) w1 ?Q" if "rows_kept (p_ID p) ?R w1" "clone_of p (ro_AsProjectID opts) q"
    for q b fl w1
  proof (rule wp_mono [OF wp_conj [OF keeps_wp [THEN iffD1, rule_format, OF restore_into_keeps that(1)]]])
    show "wp (restore_into B q b fl) w1 (\<lambda>r w'. \<forall>q' err. r = Returned (Some q', err) \<longrightarrow> q' = q)"
      using restore_into_returns [of q B b fl] by (simp add: returns_def wp_def case_prod_beta)
  qed (use that(2) in blast)
  have "wp (start_clone B dep p (ro_AsProjectID opts)) w (\<lambda>t w1. wp (case t of
      Inl err \<Rightarrow> ret (Returned (None, Some err))
    | Inr target \<Rightarrow> restore_into B target b (ro_File opts)) w1 ?Q)" for b
  proof (rule wp_mono [OF start_clone_post [where p = p and R = "?R"]])
    fix t :: "Project result" and w1
    assume t: "rows_kept (p_ID p) ?R w1 \<and> (\<forall>q. t = Inr q \<longrightarrow> clone_of p (ro_AsProjectID opts) q)"
    show "wp (case t of Inl err \<Rightarrow> ret (Returned (None, Some err))
      | Inr target \<Rightarrow> restore_into B target b (ro_File opts)) w1 ?Q"
      using t into [of w1] by (cases t) (simp_all only: sum.case wp_ret, simp_all)
  qed (use assms in simp)
  then show ?thesis
    using assms by (simp add: Restore_def split: option.split)
qed

section \<open>Properties\<close>

text \<open>
  Property C20. A backup that was not refused never panics, releases its lock, and either leaves the
  database alone and returns an error, or adds exactly one finished record to it: a failure with
  the error returned, or a success that names a file matching the project's output pattern, with
  the SHA-256 and the length of that file's contents.
\<close>

theorem backup_run_is_recorded:
  assumes "db_ok (w_db w)" "p_Backup p = Some b" "bs_BackupCommand b \<noteq> ''''"
    and "p_ID p \<notin> set (w_backup_locks w)" "run_state (Run B p trigger) w = (r, w')"
  shows "backup_post B p trigger w r w'"
  using Run_post [OF assms(1,4,2,3), of B trigger] assms(5) by (simp add: wp_def)


text \<open>
  Property C22. A restore into a clone leaves every row of its source as it was (its configuration,
  its state, its audit records), and what it restores into is a project with the new id, next to
  the source's stack, with the same services under new host ports and no public host name.
\<close>

theorem restore_as_spares_source:
  assumes "db_ok (w_db w)" "ro_AsProjectID opts \<noteq> ''''" "run_state (Restore B p opts dep) w = (r, w')"
  shows "rows_of (p_ID p) (w_db w') = rows_of (p_ID p) (w_db w) \<and>
    (\<forall>q err. r = Returned (Some q, err) \<longrightarrow> clone_of p (ro_AsProjectID opts) q)"
  using Restore_clone_keeps [OF assms(1,2), of B p dep] assms(3) by (simp add: wp_def)

text \<open>
  The files of the source are not spared in the same way: an id that is a longer spelling of the
  source's directory is a different id, and its clone has the source's stack path.
\<close>

lemma clone_shares_stack:
  assumes "clone_of p ''./app'' q" "p_StackPath p = ''/s/app''"
  shows "p_ID q \<noteq> p_ID p \<and> p_StackPath q = p_StackPath p"
proof -
  have "Join2 (DirOf ''/s/app'') ''./app'' = ''/s/app''" by code_simp
  with assms show ?thesis by (auto simp: clone_of_def)
qed

end
