(* ===== verification/Demo_Backup.thy ===== *)
theory Demo_Backup
  imports Demo_Web Backup
begin

text \<open>
  The concrete installation with backups: a project whose backup command has left a file, a
  runtime that says its service runs, and the properties of backup and restore on them.
\<close>

definition demo_spec :: BackupSpec where
  "demo_spec = \<lparr>bs_Service = ''web'', bs_BackupCommand = ''dump'', bs_RestoreCommand = ''load'',
     bs_OutputPath = ''/b'', bs_OutputPattern = ''*.gz'', bs_User = '''', bs_TimeoutSec = 0\<rparr>"

definition demo_backed :: Project where
  "demo_backed = demo_project\<lparr>p_Backup := Some demo_spec\<rparr>"

definition demo_backup :: BackupService where
  "demo_backup = \<lparr>bk_env = (demo_env True)\<lparr>env_exec := (\<lambda>t argv f. (demo_exec f)\<lparr>xo_Stdout := ''c1''\<rparr>)\<rparr>,
     bk_codec = demo_codec, bk_runtime = ''docker'', bk_mtime = (\<lambda>t p. 9000000000000),
     bk_sha256 = (\<lambda>c. take 2 c), bk_cwd = Inr ''/'', bk_port = (\<lambda>t. Inr (40000 + int t))\<rparr>"

definition demo_files :: fs where
  "demo_files = [(''/s'', DirNode), (''/s/app'', DirNode), (''/s/app/backups'', DirNode),
     (''/s/app/backups/a.gz'', FileNode ''data'' 416)]"

definition demo_backup_world :: World where
  "demo_backup_world = demo_world\<lparr>w_fs := demo_files\<rparr>"

definition demo_succeeds :: bool where
  "demo_succeeds = (case run_state (Run demo_backup demo_backed ''manual'') demo_backup_world of
     (Returned (Some run, None), w') \<Rightarrow> br_FilePath run = ''/s/app/backups/a.gz''
   | _ \<Rightarrow> False)"

lemma demo_backup_succeeds: demo_succeeds
  by code_simp

lemma demo_backed_fields: "p_Backup demo_backed = Some demo_spec" "bs_BackupCommand demo_spec \<noteq> ''''"
    "bs_RestoreCommand demo_spec \<noteq> ''''" "p_ID demo_backed = ''app''"
  by (simp_all add: demo_backed_def demo_spec_def demo_project_def)

lemma demo_backup_world_ok: "db_ok (w_db demo_backup_world)" "w_backup_locks demo_backup_world = []"
  using demo_db_ok by (simp_all add: demo_backup_world_def demo_world_def)

section \<open>Witnesses\<close>

lemma backup_run_is_recorded_witness:
  "\<exists>run w'. run_state (Run demo_backup demo_backed ''manual'') demo_backup_world = (Returned (Some run, None), w') \<and>
     br_FilePath run = ''/s/app/backups/a.gz'' \<and>
     backup_post demo_backup demo_backed ''manual'' demo_backup_world (Returned (Some run, None)) w'"
proof -
  obtain run w' where run: "run_state (Run demo_backup demo_backed ''manual'') demo_backup_world =
      (Returned (Some run, None), w')" "br_FilePath run = ''/s/app/backups/a.gz''"
    using demo_backup_succeeds unfolding demo_succeeds_def
    by (auto split: prod.splits outcome.splits option.splits)
  show ?thesis
    using backup_run_is_recorded [OF demo_backup_world_ok(1) demo_backed_fields(1,2) _ run(1)] run
      demo_backup_world_ok(2) by auto
qed


definition demo_restore :: "(Project option \<times> error option) outcome io" where
  "demo_restore = Restore demo_backup demo_backed
     \<lparr>ro_File = ''/s/app/backups/a.gz'', ro_AsProjectID = ''app-check''\<rparr> (Some (demo_deployer True))"

text \<open>The clone is stored, started and restored into; the row of the source is what it was.\<close>

definition demo_restores :: bool where
  "demo_restores = (case run_state demo_restore demo_backup_world of
     (Returned (Some q, None), w') \<Rightarrow> p_ID q = ''app-check''
   | _ \<Rightarrow> False)"

lemma demo_restore_succeeds: demo_restores
  by code_simp

lemma restore_as_spares_source_witness:
  "\<exists>q w'. run_state demo_restore demo_backup_world = (Returned (Some q, None), w') \<and>
     rows_of ''app'' (w_db w') = rows_of ''app'' (w_db demo_backup_world) \<and> clone_of demo_backed ''app-check'' q"
proof -
  obtain q w' where run: "run_state demo_restore demo_backup_world = (Returned (Some q, None), w')"
    using demo_restore_succeeds unfolding demo_restores_def
    by (auto split: prod.splits outcome.splits option.splits)
  show ?thesis
    using restore_as_spares_source [OF demo_backup_world_ok(1) _ run [unfolded demo_restore_def]] run
    by (simp add: demo_backed_fields)
qed

end
