(* ===== verification/Web_Tunnels.thy ===== *)
theory Web_Tunnels
  imports Web_Api
begin

text \<open>
  \<open>internal/web/tunnels.go\<close>: the handlers of tunnels. The JSON readers of a request body and of a
  pasted credentials file are arguments; a reply shows of a credential only whether it is there.
\<close>

section \<open>Requests and replies\<close>

record tunnelResponse =
  tr_ID :: string
  tr_Name :: string
  tr_CFTunnelID :: string
  tr_AccountTag :: string
  tr_Enabled :: bool
  tr_HasSecret :: bool
  tr_HasAPIToken :: bool
  tr_CreatedAt :: int
  tr_UpdatedAt :: int

text \<open>A time is shown with its seconds only.\<close>

definition toTunnelResponse :: "Tunnel \<Rightarrow> tunnelResponse" where
  "toTunnelResponse t =
     \<lparr>tr_ID = t_ID t, tr_Name = t_Name t, tr_CFTunnelID = t_CFTunnelID t, tr_AccountTag = t_AccountTag t,
      tr_Enabled = t_Enabled t, tr_HasSecret = (t_TunnelSecret t \<noteq> ''''), tr_HasAPIToken = (t_CFAPIToken t \<noteq> ''''),
      tr_CreatedAt = rfc3339 (t_CreatedAt t), tr_UpdatedAt = rfc3339 (t_UpdatedAt t)\<rparr>"

record tunnelInput =
  ti_ID :: string
  ti_Name :: string
  ti_Enabled :: "bool option"
  ti_Credentials :: string
  ti_CFTunnelID :: string
  ti_AccountTag :: string
  ti_TunnelSecret :: string
  ti_CFAPIToken :: string

datatype TunnelBody = TunnelList "tunnelResponse list" | OneTunnel tunnelResponse | RouteList "Route list" | TunnelOk

section \<open>The tunnel of a request\<close>

definition pasted_credentials ::
    "(string \<Rightarrow> TunnelCredentials result) \<Rightarrow> tunnelInput \<Rightarrow> Tunnel \<Rightarrow> Tunnel result" where
  "pasted_credentials read inp t =
     (let blob = TrimSpace (ti_Credentials inp) in
      if blob = '''' then Inr t
      else case read blob of
        Inl err \<Rightarrow> Inl (''parse credentials.json: '' @ err)
      | Inr c \<Rightarrow>
          if tc_TunnelID c = '''' \<or> tc_AccountTag c = '''' \<or> tc_TunnelSecret c = ''''
          then Inl ''credentials.json missing TunnelID, AccountTag, or TunnelSecret''
          else Inr (t\<lparr>t_CFTunnelID := tc_TunnelID c, t_AccountTag := tc_AccountTag c, t_TunnelSecret := tc_TunnelSecret c\<rparr>))"

definition input_tunnel :: "tunnelInput \<Rightarrow> Tunnel" where
  "input_tunnel inp =
     \<lparr>t_ID = ti_ID inp, t_Name = ti_Name inp, t_CFTunnelID = ti_CFTunnelID inp, t_AccountTag = ti_AccountTag inp,
      t_TunnelSecret = ti_TunnelSecret inp, t_CFAPIToken = TrimSpace (ti_CFAPIToken inp),
      t_Enabled = (case ti_Enabled inp of None \<Rightarrow> True | Some b \<Rightarrow> b), t_CreatedAt = zero_time, t_UpdatedAt = zero_time\<rparr>"

definition buildTunnel ::
    "(string \<Rightarrow> TunnelCredentials result) \<Rightarrow> tunnelInput \<Rightarrow> bool \<Rightarrow> Tunnel result" where
  "buildTunnel read inp isNew =
     (if isNew \<and> ti_ID inp = '''' then Inl ''tunnel ID is required''
      else if isNew \<and> \<not> isValidID (ti_ID inp) then Inl ''tunnel ID must be lowercase alphanumeric with hyphens only''
      else case pasted_credentials read inp (input_tunnel inp) of
        Inl err \<Rightarrow> Inl err
      | Inr t \<Rightarrow>
          if isNew \<and> (t_CFTunnelID t = '''' \<or> t_AccountTag t = '''' \<or> t_TunnelSecret t = '''')
          then Inl ''credentials are required: paste credentials.json or provide cf_tunnel_id, account_tag, tunnel_secret''
          else Inr t)"

text \<open>An update without a credential keeps the stored one.\<close>

definition merge_tunnel :: "Tunnel \<Rightarrow> Tunnel \<Rightarrow> Tunnel" where
  "merge_tunnel existing t =
     t\<lparr>t_TunnelSecret := (if t_TunnelSecret t = '''' then t_TunnelSecret existing else t_TunnelSecret t),
       t_CFTunnelID := (if t_CFTunnelID t = '''' then t_CFTunnelID existing else t_CFTunnelID t),
       t_AccountTag := (if t_AccountTag t = '''' then t_AccountTag existing else t_AccountTag t),
       t_CFAPIToken := (if t_CFAPIToken t = '''' then t_CFAPIToken existing else t_CFAPIToken t)\<rparr>"

section \<open>Handlers\<close>

definition reconcileTunnel :: "Server \<Rightarrow> string \<Rightarrow> Task list" where
  "reconcileTunnel S i = (case srv_tunnels S of None \<Rightarrow> [] | Some M \<Rightarrow> [TaskReconcileTunnel i])"

definition io_CreateTunnel :: "Server \<Rightarrow> Tunnel \<Rightarrow> unit result io" where
  "io_CreateTunnel S t = do {
     r1 \<leftarrow> rand_Read (srv_env S);
     r2 \<leftarrow> rand_Read (srv_env S);
     now \<leftarrow> time_Now (srv_env S);
     db_exec (CreateTunnel (srv_codec S) r1 r2 now t)
   }"

definition io_UpdateTunnel :: "Server \<Rightarrow> Tunnel \<Rightarrow> unit result io" where
  "io_UpdateTunnel S t = do {
     r1 \<leftarrow> rand_Read (srv_env S);
     r2 \<leftarrow> rand_Read (srv_env S);
     now \<leftarrow> time_Now (srv_env S);
     db_exec (UpdateTunnel (srv_codec S) r1 r2 now t)
   }"

definition apiListTunnels :: "Server \<Rightarrow> TunnelBody reply io" where
  "apiListTunnels S = do {
     r \<leftarrow> db_read (ListTunnels (srv_codec S));
     case r of
       Inl err \<Rightarrow> reply_error 500 err
     | Inr tunnels \<Rightarrow> reply_ok 200 (TunnelList (map toTunnelResponse tunnels)) []
   }"

definition with_tunnel :: "Server \<Rightarrow> string \<Rightarrow> (Tunnel \<Rightarrow> TunnelBody reply io) \<Rightarrow> TunnelBody reply io" where
  "with_tunnel S i k = do {
     r \<leftarrow> db_read (\<lambda>d. GetTunnel (srv_codec S) d i);
     case r of
       Inl err \<Rightarrow> reply_error 404 ''tunnel not found''
     | Inr t \<Rightarrow> k t
   }"

definition apiGetTunnel :: "Server \<Rightarrow> string \<Rightarrow> TunnelBody reply io" where
  "apiGetTunnel S i = with_tunnel S i (\<lambda>t. reply_ok 200 (OneTunnel (toTunnelResponse t)) [])"

definition apiCreateTunnel ::
    "Server \<Rightarrow> (string \<Rightarrow> TunnelCredentials result) \<Rightarrow> tunnelInput option \<Rightarrow> TunnelBody reply io" where
  "apiCreateTunnel S read body =
     (case body of
        None \<Rightarrow> reply_error 400 ''invalid JSON''
      | Some inp \<Rightarrow>
     case buildTunnel read inp True of
        Inl err \<Rightarrow> reply_error 400 err
      | Inr t \<Rightarrow> do {
          r \<leftarrow> io_CreateTunnel S t;
          case r of
            Inl err \<Rightarrow>
              if Contains err ''UNIQUE'' then reply_error 409 ''tunnel ID already exists''
              else reply_error 500 err
          | Inr u \<Rightarrow> reply_ok 201 (OneTunnel (toTunnelResponse t)) (reconcileTunnel S (t_ID t))
        })"

definition apiUpdateTunnel ::
    "Server \<Rightarrow> (string \<Rightarrow> TunnelCredentials result) \<Rightarrow> string \<Rightarrow> tunnelInput option \<Rightarrow> TunnelBody reply io" where
  "apiUpdateTunnel S read i body = with_tunnel S i (\<lambda>existing.
     case body of
       None \<Rightarrow> reply_error 400 ''invalid JSON''
     | Some inp \<Rightarrow>
     case buildTunnel read (inp\<lparr>ti_ID := i\<rparr>) False of
       Inl err \<Rightarrow> reply_error 400 err
     | Inr t \<Rightarrow> do {
         let merged = merge_tunnel existing t;
         r \<leftarrow> io_UpdateTunnel S merged;
         case r of
           Inl err \<Rightarrow> reply_error 500 err
         | Inr u \<Rightarrow> reply_ok 200 (OneTunnel (toTunnelResponse merged)) (reconcileTunnel S i)
       })"

definition apiListTunnelRoutes :: "Server \<Rightarrow> string \<Rightarrow> TunnelBody reply io" where
  "apiListTunnelRoutes S i = with_tunnel S i (\<lambda>t.
     case srv_tunnels S of
       None \<Rightarrow> reply_error 503 ''tunnel manager not initialised''
     | Some M \<Rightarrow> do {
         r \<leftarrow> RoutesFor M i;
         case r of Inl err \<Rightarrow> reply_error 500 err | Inr routes \<Rightarrow> reply_ok 200 (RouteList routes) []
       })"

definition apiSyncTunnel :: "Server \<Rightarrow> string \<Rightarrow> TunnelBody reply io" where
  "apiSyncTunnel S i = with_tunnel S i (\<lambda>t.
     case srv_tunnels S of
       None \<Rightarrow> reply_error 503 ''tunnel manager not initialised''
     | Some M \<Rightarrow> do {
         r \<leftarrow> ReconcileTunnel M i;
         ret (case fst r of
           Inl err \<Rightarrow> (500, Inl err, map TaskTunnel (snd r))
         | Inr u \<Rightarrow> (200, Inr TunnelOk, map TaskTunnel (snd r)))
       })"

definition apiDeleteTunnel :: "Server \<Rightarrow> string \<Rightarrow> TunnelBody reply io" where
  "apiDeleteTunnel S i = with_tunnel S i (\<lambda>t.
     case srv_tunnels S of
       Some M \<Rightarrow> do {
         r \<leftarrow> tm_DeleteTunnel M i;
         case r of Inl err \<Rightarrow> reply_error 500 err | Inr u \<Rightarrow> reply_ok 200 TunnelOk []
       }
     | None \<Rightarrow> do { r \<leftarrow> db_exec (db_DeleteTunnel i); reply_ok 200 TunnelOk [] })"

section \<open>The database stays well-formed\<close>

lemma io_tunnels_ok [wf_intros]: "keeps (\<lambda>w. db_ok (w_db w)) (io_CreateTunnel S t)"
    "keeps (\<lambda>w. db_ok (w_db w)) (io_UpdateTunnel S t)"
  unfolding io_CreateTunnel_def io_UpdateTunnel_def by (intro wf_intros; assumption)+

definition tunnel_handlers ::
    "Server \<Rightarrow> (string \<Rightarrow> TunnelCredentials result) \<Rightarrow> string \<Rightarrow> tunnelInput option \<Rightarrow> TunnelBody reply io list" where
  "tunnel_handlers S read i body =
     [apiListTunnels S, apiGetTunnel S i, apiCreateTunnel S read body, apiUpdateTunnel S read i body,
      apiListTunnelRoutes S i, apiSyncTunnel S i, apiDeleteTunnel S i]"

lemma tunnel_handlers_ok: "list_all (keeps (\<lambda>w. db_ok (w_db w))) (tunnel_handlers S read i body)"
  unfolding tunnel_handlers_def list.pred_inject(2)
  unfolding apiListTunnels_def apiGetTunnel_def apiCreateTunnel_def apiUpdateTunnel_def
    apiListTunnelRoutes_def apiSyncTunnel_def apiDeleteTunnel_def with_tunnel_def Let_def
  by (intro conjI list.pred_inject(1) wf_intros; assumption?)

text \<open>
  Every handler of tunnels, and every goroutine it starts, keeps the database well-formed.
\<close>

lemma tunnel_handlers_keep_db_ok:
  assumes "srv_scheduler S = scheduler_New (srv_deployer S) R (srv_codec S)"
    and "db_ok (w_db w)" "m \<in> set (tunnel_handlers S read i body)"
    and "run_state (do { rp \<leftarrow> m; io_each (run_task S) (snd (snd rp)) }) w = (u, w')"
  shows "db_ok (w_db w')"
proof -
  have "keeps (\<lambda>w. db_ok (w_db w)) m"
    using tunnel_handlers_ok assms(3) by (auto simp: list_all_iff)
  moreover have "keeps (\<lambda>w. db_ok (w_db w)) (io_each (run_task S) ts)" for ts
    by (induction ts) (auto intro!: wf_intros run_task_ok [OF assms(1)])
  ultimately have "keeps (\<lambda>w. db_ok (w_db w)) (do { rp \<leftarrow> m; io_each (run_task S) (snd (snd rp)) })"
    by (intro wf_intros)
  from keepsD [OF this assms(2,4)] show ?thesis .
qed

section \<open>Updates\<close>

lemma UpdateTunnel_reads_back:
  assumes "aead_ok cd" "rand_ok cd r1" "rand_ok cd r2" "map_of (db_tunnels db) (t_ID t) = Some old"
  shows "\<exists>db' created. UpdateTunnel cd r1 r2 now t db = (Inr (), db') \<and>
    GetTunnel cd db' (t_ID t) = Inr (t\<lparr>t_CreatedAt := created, t_UpdatedAt := rfc3339 now\<rparr>)"
proof -
  obtain s where s: "encryptOptionalTunnelSecret cd r1 (t_ID t) ''tunnel_secret'' (t_TunnelSecret t) = Inr s"
    using encryptOptional_rand_ok [OF assms(2)] by blast
  obtain k where k: "encryptOptionalTunnelSecret cd r2 (t_ID t) ''cf_api_token'' (t_CFAPIToken t) = Inr k"
    using encryptOptional_rand_ok [OF assms(3)] by blast
  show ?thesis
    using assms(4) s k scan_encrypted(1) [OF assms(1,2) s] scan_encrypted(1) [OF assms(1,3) k]
    by (intro exI [of _ "snd (UpdateTunnel cd r1 r2 now t db)"] exI [of _ "t_CreatedAt old"])
       (simp add: UpdateTunnel_def GetTunnel_def scanTunnel_def map_of_sql_update)
qed

text \<open>What an update without pasted credentials makes of the stored tunnel.\<close>

definition updated_tunnel :: "tunnelInput \<Rightarrow> Tunnel \<Rightarrow> Tunnel \<Rightarrow> bool" where
  "updated_tunnel inp t t' \<longleftrightarrow>
     t_ID t' = t_ID t \<and> t_Name t' = ti_Name inp \<and> t_Enabled t' = (ti_Enabled inp \<noteq> Some False) \<and>
     t_TunnelSecret t' = (if ti_TunnelSecret inp = '''' then t_TunnelSecret t else ti_TunnelSecret inp) \<and>
     t_CFTunnelID t' = (if ti_CFTunnelID inp = '''' then t_CFTunnelID t else ti_CFTunnelID inp) \<and>
     t_AccountTag t' = (if ti_AccountTag inp = '''' then t_AccountTag t else ti_AccountTag inp) \<and>
     t_CFAPIToken t' = (if TrimSpace (ti_CFAPIToken inp) = '''' then t_CFAPIToken t else TrimSpace (ti_CFAPIToken inp))"

text \<open>
  An update of a tunnel is stored: what is read back has the name and the switch of the
  request (a request without the switch turns the tunnel on) and each credential of the request,
  or the stored one where the request leaves it empty; the reply shows no credential, only which
  there are.
\<close>

theorem update_keeps_credentials:
  assumes "store_ok S" "db_ok (w_db w)" "GetTunnel (srv_codec S) (w_db w) i = Inr t"
    and "TrimSpace (ti_Credentials inp) = ''''"
    and "run_state (apiUpdateTunnel S read i (Some inp)) w = ((c, Inr b, tasks), w')"
  shows "\<exists>t' resp. GetTunnel (srv_codec S) (w_db w') i = Inr t' \<and> updated_tunnel inp t t' \<and> b = OneTunnel resp \<and>
    tr_HasSecret resp = (t_TunnelSecret t' \<noteq> '''') \<and> tr_HasAPIToken resp = (t_CFAPIToken t' \<noteq> '''')"
proof -
  obtain row where row: "map_of (db_tunnels (w_db w)) i = Some row" "scanTunnel (srv_codec S) row = Inr t"
    using assms(3) by (auto simp: GetTunnel_def split: option.splits)
  with assms(2) have "t_ID row = i" by (auto simp: db_ok_defs dest: rows_all_look)
  with row(2) have id: "t_ID t = i" by (auto simp: scanTunnel_def split: sum.splits)
  let ?t = "merge_tunnel t (input_tunnel (inp\<lparr>ti_ID := i\<rparr>))"
  have build: "buildTunnel read (inp\<lparr>ti_ID := i\<rparr>) False = Inr (input_tunnel (inp\<lparr>ti_ID := i\<rparr>))"
    using assms(4) by (simp add: buildTunnel_def pasted_credentials_def)
  have mid: "t_ID ?t = i" by (simp add: merge_tunnel_def input_tunnel_def)
  have upd: "updated_tunnel inp t (?t\<lparr>t_CreatedAt := x, t_UpdatedAt := y\<rparr>)" for x y
    using id by (auto simp: updated_tunnel_def merge_tunnel_def input_tunnel_def split: option.splits)
  let ?n = "w_tick w"
  obtain db' created where db': "UpdateTunnel (srv_codec S) (env_rand (srv_env S) ?n) (env_rand (srv_env S) (Suc ?n))
        (env_now (srv_env S) (Suc (Suc ?n))) ?t (w_db w) = (Inr (), db')"
      "GetTunnel (srv_codec S) db' i = Inr (?t\<lparr>t_CreatedAt := created,
        t_UpdatedAt := rfc3339 (env_now (srv_env S) (Suc (Suc ?n)))\<rparr>)"
    using UpdateTunnel_reads_back [where t = ?t] assms(1) row(1) unfolding store_ok_def mid by blast
  have "wp (apiUpdateTunnel S read i (Some inp)) w (\<lambda>rp w'. w_db w' = db' \<and> fst (snd rp) = Inr (OneTunnel (toTunnelResponse ?t)))"
    using db'(1) by (simp add: apiUpdateTunnel_def with_tunnel_def assms(3) build Let_def io_UpdateTunnel_def)
  with assms(5) have "w_db w' = db'" "b = OneTunnel (toTunnelResponse ?t)" by (simp_all add: wp_def)
  with db'(2) upd show ?thesis by (simp add: toTunnelResponse_def)
qed

end
