(* ===== verification/Demo_Tunnels.thy ===== *)
theory Demo_Tunnels
  imports Demo_Web Web_Tunnels
begin

text \<open>
  The concrete installation with a tunnel: a project that publishes a host name on it, and a
  Cloudflare API that has one zone and no records.
\<close>

definition demo_home :: Tunnel where
  "demo_home = \<lparr>t_ID = ''t1'', t_Name = ''home'', t_CFTunnelID = ''uuid'', t_AccountTag = ''acc'',
     t_TunnelSecret = ''s3cret'', t_CFAPIToken = ''tok'', t_Enabled = True, t_CreatedAt = 0, t_UpdatedAt = 0\<rparr>"

definition demo_published :: Project where
  "demo_published = demo_saved\<lparr>p_ID := ''blog'', p_Services := [demo_service\<lparr>svc_PublicHostnames :=
     [\<lparr>ph_TunnelID = ''t1'', ph_Hostname = ''blog.example.org'', ph_Port = 8080\<rparr>]\<rparr>]\<rparr>"

definition demo_tunnel_db :: DB where
  "demo_tunnel_db = snd (CreateProject demo_codec (Inr ''0123456789ab'') 7 demo_published
     (snd (CreateTunnel demo_codec (Inr ''0123456789ab'') (Inr ''0123456789ab'') 7 demo_home empty_db)))"

definition demo_tunnel_world :: World where
  "demo_tunnel_world = demo_world\<lparr>w_db := demo_tunnel_db\<rparr>"

definition demo_manager :: Manager where
  "demo_manager = \<lparr>tm_deployer = demo_deployer True, tm_codec = demo_codec, tm_api = cl_api demo_client,
     tm_stackRoot = ''/s'', tm_runtime = ''docker'', tm_marshal = (\<lambda>c. tc_TunnelSecret c)\<rparr>"

lemma demo_tunnel_files:
  "\<not> isl (fst (run_state (write_tunnel_files demo_manager ''/s/cf-tunnel-t1'' t ing) (demo_world\<lparr>w_db := d\<rparr>)))"
  by code_simp

text \<open>The tunnel and the projects as the database returns them.\<close>

definition demo_read_tunnel :: Tunnel where
  "demo_read_tunnel = demo_home\<lparr>t_CreatedAt := rfc3339 7, t_UpdatedAt := rfc3339 7\<rparr>"

lemma demo_get_tunnel: "GetTunnel demo_codec demo_tunnel_db ''t1'' = Inr demo_read_tunnel"
  by code_simp

lemma demo_no_system: "GetProject demo_codec demo_tunnel_db ''cf-tunnel-t1'' = Inl err_no_rows"
  by code_simp

definition demo_listed :: "Project list" where
  "demo_listed = (case ListProjects demo_codec demo_tunnel_db of Inl e \<Rightarrow> [] | Inr ps \<Rightarrow> ps)"

lemma demo_list: "ListProjects demo_codec demo_tunnel_db = Inr demo_listed"
proof -
  have "\<not> isl (ListProjects demo_codec demo_tunnel_db)" by code_simp
  then show ?thesis by (auto simp: demo_listed_def split: sum.splits)
qed

lemma demo_ingress: "map ie_Hostname (ingress_of ''t1'' demo_listed) = [''blog.example.org'']"
  by code_simp

lemma demo_tunnel_ok: "db_ok demo_tunnel_db"
  by (simp add: demo_tunnel_db_def db_ok_CreateProject db_ok_CreateTunnel db_ok_empty)

lemma demo_manager_fields: "tm_codec demo_manager = demo_codec" "tm_stackRoot demo_manager = ''/s''"
  by (simp_all add: demo_manager_def)

lemma demo_world_db: "w_db demo_tunnel_world = demo_tunnel_db"
  by (simp add: demo_tunnel_world_def)

lemma demo_reconcile_succeeds:
  "\<exists>tasks w'. run_state (ReconcileTunnel demo_manager ''t1'') demo_tunnel_world = ((Inr (), tasks), w')"
proof -
  have sp: "Join2 ''/s'' ''cf-tunnel-t1'' = ''/s/cf-tunnel-t1''" by code_simp
  have files: "wp (write_tunnel_files demo_manager ''/s/cf-tunnel-t1'' t ing) demo_tunnel_world
      (\<lambda>r w'. \<not> isl r \<and> w_db w' = demo_tunnel_db)" for t ing
    using demo_tunnel_files [of t ing demo_tunnel_db]
      leavesD [OF leaves_own_db [OF leaves_write_tunnel_files [of demo_manager "''/s/cf-tunnel-t1''" t ing]]]
    by (fastforce simp: wp_def demo_tunnel_world_def split: prod.splits)
  have created: "fst (CreateProject demo_codec (Inr ''0123456789ab'') now (buildSystemProject demo_read_tunnel sp a b) demo_tunnel_db) = Inr ()"
    for now sp a b
  proof -
    have new: "''cf-tunnel-t1'' \<notin> table_keys (db_projects demo_tunnel_db)" "''cf-tunnel-t1'' \<notin> table_keys (db_states demo_tunnel_db)"
      by code_simp+
    obtain v where "secret_encrypt demo_codec (Inr ''0123456789ab'') (projectEnvAAD ''cf-tunnel-t1'')
        (cd_marshal_env demo_codec (env_entries (buildSystemProject demo_read_tunnel sp a b))) = Inr v"
      using secret_encrypt_rand_ok [OF demo_rand] by blast
    with new show ?thesis
      by (simp add: CreateProject_def buildSystemProject_def SystemProjectID_def demo_read_tunnel_def demo_home_def Let_def)
  qed
  have t: "t_ID demo_read_tunnel = ''t1''" by (simp add: demo_read_tunnel_def demo_home_def)
  have rec: "wp (reconcile_project demo_manager ''/s/cf-tunnel-t1'' demo_read_tunnel ing c) w (\<lambda>(r, tasks) w'. r = Inr ())"
    if "w_db w = demo_tunnel_db" for w ing c
    using created that by (simp add: reconcile_project_def Let_def wp_time_Now wp_tm_projects t SystemProjectID_def
        demo_manager_def demo_no_system demo_deployer_def demo_env_def)
  have "wp (write_tunnel_files demo_manager ''/s/cf-tunnel-t1'' demo_read_tunnel ing) demo_tunnel_world (\<lambda>f w'.
      wp (case f of Inl err \<Rightarrow> ret (Inl err, [])
        | Inr c \<Rightarrow> reconcile_project demo_manager ''/s/cf-tunnel-t1'' demo_read_tunnel ing c) w' (\<lambda>(r, tasks) w'. r = Inr ()))" for ing
    by (rule wp_mono [OF files], rename_tac f w', case_tac f) (simp_all only: isl_def sum.case rec simp_thms, auto)
  then have "wp (ReconcileTunnel demo_manager ''t1'') demo_tunnel_world (\<lambda>(r, tasks) w'. r = Inr ())"
    using sp by (simp add: ReconcileTunnel_def collectIngressFor_def Let_def demo_manager_fields demo_world_db
        demo_get_tunnel demo_list t SystemProjectID_def)
  then show ?thesis by (auto simp: wp_def split: prod.splits)
qed

section \<open>Witnesses\<close>



text \<open>A request that changes the name and leaves the credentials empty.\<close>

definition demo_input :: tunnelInput where
  "demo_input = \<lparr>ti_ID = '''', ti_Name = ''office'', ti_Enabled = Some False, ti_Credentials = '''', ti_CFTunnelID = '''',
     ti_AccountTag = '''', ti_TunnelSecret = '''', ti_CFAPIToken = ''''\<rparr>"

lemma update_keeps_credentials_witness:
  "\<exists>t'. GetTunnel demo_codec (w_db (snd (run_state (apiUpdateTunnel demo_server (\<lambda>s. Inl '''') ''t1'' (Some demo_input)) demo_tunnel_world))) ''t1'' = Inr t' \<and>
     t_Name t' = ''office'' \<and> t_TunnelSecret t' = ''s3cret'' \<and> t_CFAPIToken t' = ''tok''"
proof -
  obtain rp w' where run: "run_state (apiUpdateTunnel demo_server (\<lambda>s. Inl '''') ''t1'' (Some demo_input)) demo_tunnel_world = (rp, w')"
    by fastforce
  have blank: "TrimSpace (ti_Credentials demo_input) = ''''" by code_simp
  have get: "GetTunnel (srv_codec demo_server) (w_db demo_tunnel_world) ''t1'' = Inr demo_read_tunnel"
    by (simp add: demo_server_def demo_tunnel_world_def demo_get_tunnel)
  have stored: "fst (UpdateTunnel demo_codec (Inr ''0123456789ab'') (Inr ''0123456789ab'') now t demo_tunnel_db) = Inr ()" for now t
  proof -
    obtain s k where "encryptOptionalTunnelSecret demo_codec (Inr ''0123456789ab'') (t_ID t) ''tunnel_secret'' (t_TunnelSecret t) = Inr s"
        "encryptOptionalTunnelSecret demo_codec (Inr ''0123456789ab'') (t_ID t) ''cf_api_token'' (t_CFAPIToken t) = Inr k"
      using encryptOptional_rand_ok [OF demo_rand] by meson
    then show ?thesis by (simp add: UpdateTunnel_def)
  qed
  have "wp (apiUpdateTunnel demo_server (\<lambda>s. Inl '''') ''t1'' (Some demo_input)) demo_tunnel_world (\<lambda>(c, r, tasks) w'. \<not> isl r)"
    using stored blank get by (simp add: apiUpdateTunnel_def with_tunnel_def buildTunnel_def pasted_credentials_def Let_def
        io_UpdateTunnel_def demo_server_env demo_world_db)
  with run obtain c b tasks where rp: "rp = (c, Inr b, tasks)"
    by (auto simp: wp_def split: prod.splits dest: not_isl)
  have "db_ok (w_db demo_tunnel_world)" by (simp add: demo_tunnel_world_def demo_tunnel_ok)
  from update_keeps_credentials [OF demo_store_ok this get blank run [unfolded rp]]
  obtain t' where t': "GetTunnel demo_codec (w_db w') ''t1'' = Inr t'" "updated_tunnel demo_input demo_read_tunnel t'"
    by (auto simp: demo_server_env)
  have "TrimSpace '''' = ''''" by code_simp
  then have "t_Name t' = ''office''" "t_TunnelSecret t' = ''s3cret''" "t_CFAPIToken t' = ''tok''"
    using t'(2) by (simp_all add: updated_tunnel_def demo_input_def demo_read_tunnel_def demo_home_def)
  with t'(1) run show ?thesis by simp
qed

end
