(* ===== verification/Web_Admin.thy ===== *)
theory Web_Admin
  imports Go_Glob Web_Api
begin

text \<open>
  \<open>internal/web/admin.go\<close> and the import handler of \<open>api.go\<close>: the handlers of the admin socket
  that wait for their action, the export of a project as YAML or as a bundle with its data, and
  the import of both. A bundle is the sequence of its tar entries; the gzip and tar readers, the
  YAML encoder and the modes of directories are fields of \<open>Archiver\<close>. Times in the headers and
  the log are left out.
\<close>

section \<open>Archives\<close>

datatype tar_type = TypeReg | TypeDir | TypeOther

text \<open>An entry with its readable data; reading on may fail.\<close>

record tar_entry =
  te_Name :: string
  te_Mode :: int
  te_Type :: tar_type
  te_Data :: string
  te_Fail :: "error option"

text \<open>What successive calls of \<open>tr.Next\<close> return.\<close>

datatype tar_stream = TarEOF | TarError error | TarEntry tar_entry tar_stream

record Archiver =
  ar_untar :: "string \<Rightarrow> tar_stream result"
  ar_yaml :: "Project \<Rightarrow> string result"
  ar_dir_mode :: "string \<Rightarrow> int"

text \<open>\<open>os.FileMode(m).Perm()\<close>.\<close>

definition Perm :: "int \<Rightarrow> int" where
  "Perm m = m mod 512"

definition hasParentRef :: "string \<Rightarrow> bool" where
  "hasParentRef rel = (let clean = Clean rel in clean = ''..'' \<or> HasPrefix clean ''../'')"

section \<open>Actions that wait\<close>

definition with_admin_project ::
    "Server \<Rightarrow> string \<Rightarrow> (Project \<Rightarrow> unit result io) \<Rightarrow> Body reply io" where
  "with_admin_project S i act = do {
     g \<leftarrow> db_read (\<lambda>d. GetProject (srv_codec S) d i);
     case g of
       Inl err \<Rightarrow> reply_error 404 ''project not found''
     | Inr p \<Rightarrow> do {
         r \<leftarrow> act p;
         case r of Inl err \<Rightarrow> reply_error 500 err | Inr u \<Rightarrow> reply_ok 200 OkFlag []
       }
   }"

definition apiAdminStart :: "Server \<Rightarrow> string \<Rightarrow> Body reply io" where
  "apiAdminStart S i = with_admin_project S i (Start (srv_deployer S))"

definition apiAdminStop :: "Server \<Rightarrow> string \<Rightarrow> Body reply io" where
  "apiAdminStop S i = with_admin_project S i (Stop (srv_deployer S))"

definition apiAdminRollback :: "Server \<Rightarrow> string \<Rightarrow> Body reply io" where
  "apiAdminRollback S i = with_admin_project S i (ManualRollback (srv_deployer S))"

definition apiAdminDeploy :: "Server \<Rightarrow> string \<Rightarrow> Body reply io" where
  "apiAdminDeploy S i = do {
     r \<leftarrow> TriggerManualReconcile (srv_scheduler S) i;
     case r of Inl err \<Rightarrow> reply_error 500 err | Inr u \<Rightarrow> reply_ok 200 OkFlag []
   }"

section \<open>Export\<close>

definition marshalProjectYAML :: "Archiver \<Rightarrow> Project \<Rightarrow> bool \<Rightarrow> string result" where
  "marshalProjectYAML A p exportSecrets =
     ar_yaml A (let clone = p\<lparr>p_StackPath := ''''\<rparr> in
       if exportSecrets then clone
       else clone\<lparr>p_EnvVars := redactedEnvVars (p_EnvVars p) (p_SecretEnvKeys p)\<rparr>)"

text \<open>The entries written so far, and the error that ended the writing.\<close>

type_synonym packing = "tar_entry list \<times> error option"

definition packed :: "tar_entry list \<Rightarrow> packing io \<Rightarrow> packing io" where
  "packed es m = do { r \<leftarrow> m; ret (es @ fst r, snd r) }"

fun pack_each :: "('a \<Rightarrow> packing io) \<Rightarrow> 'a list \<Rightarrow> packing io" where
  "pack_each f [] = ret ([], None)"
| "pack_each f (x # xs) = do {
     r \<leftarrow> f x;
     case snd r of
       Some err \<Rightarrow> ret r
     | None \<Rightarrow> packed (fst r) (pack_each f xs)
   }"

definition missing_error :: "string \<Rightarrow> error" where
  "missing_error path = ''stat '' @ path @ '': no such file or directory''"

definition addFileToTar :: "Env \<Rightarrow> string \<Rightarrow> string \<Rightarrow> packing io" where
  "addFileToTar e srcFile name = do {
     s \<leftarrow> os_Stat e srcFile;
     case s of
       StatMissing \<Rightarrow> ret ([], Some (missing_error srcFile))
     | StatError err \<Rightarrow> ret ([], Some err)
     | StatFound DirNode \<Rightarrow> ret ([], Some (''read '' @ srcFile @ '': is a directory''))
     | StatFound (FileNode c m) \<Rightarrow> do {
         r \<leftarrow> os_ReadFile e srcFile;
         ret (case r of
           Inl err \<Rightarrow> ([\<lparr>te_Name = name, te_Mode = Perm m, te_Type = TypeReg, te_Data = '''', te_Fail = Some err\<rparr>], Some err)
         | Inr data \<Rightarrow> ([\<lparr>te_Name = name, te_Mode = Perm m, te_Type = TypeReg, te_Data = data, te_Fail = None\<rparr>], None))
       }
   }"

definition entry_name :: "string \<Rightarrow> string \<Rightarrow> string \<Rightarrow> string" where
  "entry_name srcDir pfx path =
     (let rel = (case Rel srcDir path of Inl err \<Rightarrow> '''' | Inr r \<Rightarrow> r) in
      if rel \<noteq> ''.'' then Join2 pfx rel else pfx)"

text \<open>\<open>filepath.Walk\<close> with the function of \<open>addDirToTar\<close>; \<open>n\<close> bounds the depth.\<close>

fun walk_tar :: "nat \<Rightarrow> Env \<Rightarrow> Archiver \<Rightarrow> string \<Rightarrow> string \<Rightarrow> string \<Rightarrow> packing io" where
  "walk_tar 0 e A srcDir pfx path = ret ([], Some ''too deep'')"
| "walk_tar (Suc n) e A srcDir pfx path = do {
     s \<leftarrow> os_Stat e path;
     case s of
       StatMissing \<Rightarrow> ret ([], Some (missing_error path))
     | StatError err \<Rightarrow> ret ([], Some err)
     | StatFound (FileNode c m) \<Rightarrow> addFileToTar e path (entry_name srcDir pfx path)
     | StatFound DirNode \<Rightarrow> do {
         let dir = \<lparr>te_Name = entry_name srcDir pfx path @ ''/'', te_Mode = Perm (ar_dir_mode A path), te_Type = TypeDir,
           te_Data = '''', te_Fail = None\<rparr>;
         t \<leftarrow> io_tick;
         f \<leftarrow> io_gets w_fs;
         packed [dir]
           (case env_fs_error e t path of
              Some err \<Rightarrow> ret ([], Some err)
            | None \<Rightarrow> pack_each (\<lambda>name. walk_tar n e A srcDir pfx (Join2 path name)) (dir_names f path))
       }
   }"

definition addDirToTar :: "Env \<Rightarrow> Archiver \<Rightarrow> string \<Rightarrow> string \<Rightarrow> packing io" where
  "addDirToTar e A srcDir pfx = do {
     s \<leftarrow> os_Stat e srcDir;
     case s of
       StatMissing \<Rightarrow> ret ([], None)
     | StatError err \<Rightarrow> ret ([], Some err)
     | StatFound (FileNode c m) \<Rightarrow> addFileToTar e srcDir pfx
     | StatFound DirNode \<Rightarrow> do {
         f \<leftarrow> io_gets w_fs;
         walk_tar (Suc (length f)) e A srcDir pfx srcDir
       }
   }"

text \<open>The volumes below the stack path, each once, with the path below it.\<close>

definition volume_rel :: "Project \<Rightarrow> VolumeMount \<Rightarrow> (string \<times> string) option" where
  "volume_rel p v =
     (let hostPath = (if IsAbs (vm_HostPath v) then vm_HostPath v else Join2 (p_StackPath p) (vm_HostPath v)) in
      case Rel (p_StackPath p) hostPath of
        Inl err \<Rightarrow> None
      | Inr rel \<Rightarrow>
          if rel = '''' \<or> rel = ''.'' \<or> IsAbs rel \<or> hasParentRef rel then None else Some (hostPath, rel))"

fun pack_volumes :: "Env \<Rightarrow> Archiver \<Rightarrow> Project \<Rightarrow> string list \<Rightarrow> VolumeMount list \<Rightarrow> packing io" where
  "pack_volumes e A p seen [] = ret ([], None)"
| "pack_volumes e A p seen (v # vs) =
     (case volume_rel p v of
        None \<Rightarrow> pack_volumes e A p seen vs
      | Some (hostPath, rel) \<Rightarrow>
          if rel \<in> set seen then pack_volumes e A p seen vs
          else do {
            r \<leftarrow> addDirToTar e A hostPath rel;
            case snd r of
              Some err \<Rightarrow> ret (fst r, Some (''pack '' @ rel @ '': '' @ err))
            | None \<Rightarrow> packed (fst r) (pack_volumes e A p (rel # seen) vs)
          })"

definition writeTarFile :: "string \<Rightarrow> int \<Rightarrow> string \<Rightarrow> tar_entry" where
  "writeTarFile name mode data = \<lparr>te_Name = name, te_Mode = mode, te_Type = TypeReg, te_Data = data, te_Fail = None\<rparr>"

definition writeProjectTarball :: "Env \<Rightarrow> Archiver \<Rightarrow> Project \<Rightarrow> bool \<Rightarrow> packing io" where
  "writeProjectTarball e A p exportSecrets =
     (case marshalProjectYAML A p exportSecrets of
        Inl err \<Rightarrow> ret ([], Some err)
      | Inr yamlBytes \<Rightarrow>
          packed [writeTarFile ''project.yaml'' (if exportSecrets then 384 else 420) yamlBytes]
            (pack_volumes e A p [] (concat (map svc_Volumes (p_Services p)))))"

text \<open>What the client receives; the archive is closed properly after an error, which is only logged.\<close>

datatype Export = ExportYAML string | ExportBundle "tar_entry list"

definition exportProject :: "Server \<Rightarrow> Archiver \<Rightarrow> string \<Rightarrow> string \<Rightarrow> bool \<Rightarrow> Export reply io" where
  "exportProject S A i format exportSecrets = do {
     g \<leftarrow> db_read (\<lambda>d. GetProject (srv_codec S) d i);
     case g of
       Inl err \<Rightarrow> reply_error 404 ''project not found''
     | Inr p \<Rightarrow>
         if format = '''' \<or> format = ''yaml'' then
           (case marshalProjectYAML A p exportSecrets of
              Inl err \<Rightarrow> reply_error 500 err
            | Inr data \<Rightarrow> reply_ok 200 (ExportYAML data) [])
         else if format = ''tar.gz'' \<or> format = ''tgz'' then do {
           r \<leftarrow> writeProjectTarball (srv_env S) A p exportSecrets;
           reply_ok 200 (ExportBundle (fst r)) []
         }
         else reply_error 400 ''format must be yaml or tar.gz''
   }"

text \<open>The query parameter \<open>export_secrets\<close>, when the request has it.\<close>

definition apiExportProject :: "Server \<Rightarrow> Archiver \<Rightarrow> string \<Rightarrow> string \<Rightarrow> string option \<Rightarrow> Export reply io" where
  "apiExportProject S A i format secrets =
     (if secrets \<noteq> None then reply_error 403 ''secret export is only available over the admin socket''
      else exportProject S A i format False)"

definition apiAdminExportProject :: "Server \<Rightarrow> Archiver \<Rightarrow> string \<Rightarrow> string \<Rightarrow> string option \<Rightarrow> Export reply io" where
  "apiAdminExportProject S A i format secrets =
     (let raw = (case secrets of None \<Rightarrow> '''' | Some s \<Rightarrow> s) in
      if raw \<noteq> '''' \<and> raw \<noteq> ''true'' \<and> raw \<noteq> ''false''
      then reply_error 400 ''export_secrets must be true or false''
      else exportProject S A i format (raw = ''true''))"

section \<open>Import\<close>

text \<open>The parts of a multipart body: a form name and the data of each.\<close>

datatype parts = PartsEOF | PartsError error | Part string string parts

fun file_part :: "parts \<Rightarrow> string result" where
  "file_part PartsEOF = Inl ''missing file field''"
| "file_part (PartsError err) = Inl (''multipart: '' @ err)"
| "file_part (Part form data rest) = (if form = ''file'' then Inr data else file_part rest)"

text \<open>A request with its content type, its body and what its multipart reader gives.\<close>

record ImportRequest =
  ir_ContentType :: string
  ir_Body :: string
  ir_Parts :: "parts result"

definition importBodyReader :: "ImportRequest \<Rightarrow> string result" where
  "importBodyReader r =
     (if \<not> HasPrefix (ir_ContentType r) ''multipart/form-data'' then Inr (ir_Body r)
      else case ir_Parts r of Inl err \<Rightarrow> Inl (''multipart: '' @ err) | Inr ps \<Rightarrow> file_part ps)"

text \<open>The file is created and takes what can be read; an error of reading comes after that.\<close>

definition streamTarFile :: "Env \<Rightarrow> tar_entry \<Rightarrow> string \<Rightarrow> int \<Rightarrow> unit result io" where
  "streamTarFile e te dst mode = do {
     r \<leftarrow> os_WriteFile e dst (te_Data te) mode;
     ret (case r of Inl err \<Rightarrow> Inl err
       | Inr u \<Rightarrow> (case te_Fail te of Some err \<Rightarrow> Inl err | None \<Rightarrow> Inr ()))
   }"

definition tar_mode :: "tar_entry \<Rightarrow> int \<Rightarrow> int" where
  "tar_mode te d = (if Perm (te_Mode te) = 0 then d else Perm (te_Mode te))"

text \<open>One entry below the stack path: its error text, or nothing.\<close>

definition extract_entry :: "Env \<Rightarrow> string \<Rightarrow> string \<Rightarrow> tar_entry \<Rightarrow> error option io" where
  "extract_entry e stackPath name te = do {
     let dst = Join2 stackPath name;
     case te_Type te of
       TypeDir \<Rightarrow> do {
         r \<leftarrow> os_MkdirAll e dst;
         ret (case r of Inl err \<Rightarrow> Some (''mkdir '' @ name @ '': '' @ err) | Inr u \<Rightarrow> None)
       }
     | TypeReg \<Rightarrow> do {
         d \<leftarrow> os_MkdirAll e (DirOf dst);
         case d of
           Inl err \<Rightarrow> ret (Some err)
         | Inr u \<Rightarrow> do {
             r \<leftarrow> streamTarFile e te dst (tar_mode te 420);
             ret (case r of Inl err \<Rightarrow> Some (''write '' @ name @ '': '' @ err) | Inr u \<Rightarrow> None)
           }
       }
     | TypeOther \<Rightarrow> ret None
   }"

text \<open>The loop over the entries: the status and the text of the reply that ends it.\<close>

fun extract_entries :: "Env \<Rightarrow> string \<Rightarrow> tar_stream \<Rightarrow> (int \<times> error) option io" where
  "extract_entries e stackPath TarEOF = ret None"
| "extract_entries e stackPath (TarError err) = ret (Some (400, ''read tar: '' @ err))"
| "extract_entries e stackPath (TarEntry te rest) =
     (let name = Clean (te_Name te) in
      if name = '''' \<or> name = ''.'' then extract_entries e stackPath rest
      else if hasParentRef name \<or> IsAbs name then ret (Some (400, ''tar entry escapes root: '' @ te_Name te))
      else do {
        r \<leftarrow> extract_entry e stackPath name te;
        case r of
          Some msg \<Rightarrow> ret (Some (500, msg))
        | None \<Rightarrow> extract_entries e stackPath rest
      })"

definition importTarball :: "Server \<Rightarrow> Archiver \<Rightarrow> string \<Rightarrow> Body reply io" where
  "importTarball S A body =
     (case ar_untar A body of
        Inl err \<Rightarrow> reply_error 400 (''invalid gzip: '' @ err)
      | Inr TarEOF \<Rightarrow> reply_error 400 ''empty tarball''
      | Inr (TarError err) \<Rightarrow> reply_error 400 (''read tar: '' @ err)
      | Inr (TarEntry te rest) \<Rightarrow>
          if Clean (te_Name te) \<noteq> ''project.yaml''
          then reply_error 400 (''first tar entry must be project.yaml, got '' @ te_Name te)
          else (case te_Fail te of
            Some err \<Rightarrow> reply_error 400 (''read project.yaml: '' @ err)
          | None \<Rightarrow>
          (case srv_yaml S (te_Data te) of
            Inl err \<Rightarrow> reply_error 400 (''invalid project.yaml: '' @ err)
          | Inr p \<Rightarrow>
          (case validated S p True of
            Inl err \<Rightarrow> reply_error 400 err
          | Inr p \<Rightarrow> do {
              d \<leftarrow> os_MkdirAll (srv_env S) (p_StackPath p);
              case d of
                Inl err \<Rightarrow> reply_error 500 (''mkdir stack: '' @ err)
              | Inr u \<Rightarrow> do {
                  r \<leftarrow> extract_entries (srv_env S) (p_StackPath p) rest;
                  case r of
                    Some (code, msg) \<Rightarrow> reply_error code msg
                  | None \<Rightarrow> upsertProject S p
                }
            }))))"

definition apiImportProject :: "Server \<Rightarrow> Archiver \<Rightarrow> ImportRequest \<Rightarrow> Body reply io" where
  "apiImportProject S A req =
     (case importBodyReader req of
        Inl err \<Rightarrow> reply_error 400 err
      | Inr body \<Rightarrow> if is_gzip body then importTarball S A body else importYAML S body)"

section \<open>Lemmas\<close>

text \<open>Paths that are not at or below a directory, and the files among them.\<close>

definition outside :: "string \<Rightarrow> string \<Rightarrow> bool" where
  "outside dir q \<longleftrightarrow> \<not> (IsAbs q = IsAbs dir \<and> prefix (path_comps dir) (path_comps q))"

definition files_outside_kept :: "string \<Rightarrow> fs \<Rightarrow> fs \<Rightarrow> bool" where
  "files_outside_kept dir f f' \<longleftrightarrow>
     (\<forall>q c m. outside dir q \<longrightarrow> (map_of f' q = Some (FileNode c m)) = (map_of f q = Some (FileNode c m)))"

lemma files_outside_kept_refl [simp]: "files_outside_kept dir f f"
  by (simp add: files_outside_kept_def)

lemma mkdirs_no_new_file:
  "map_of (foldl (\<lambda>g d. if is_dir g d then g else AList.update d DirNode g) f ds) q = Some (FileNode c m) \<Longrightarrow>
   map_of f q = Some (FileNode c m)"
proof (induction ds arbitrary: f)
  case (Cons d ds)
  from Cons.IH [OF Cons.prems [unfolded foldl.simps]] show ?case
    by (auto split: if_splits)
qed simp

lemma MkdirAll_files:
  assumes "fs_MkdirAll p f = Inr f'"
  shows "(map_of f' q = Some (FileNode c m)) = (map_of f q = Some (FileNode c m))"
  using assms unfolding fs_MkdirAll_def
  by (auto simp: list_ex_iff list_all_iff split: if_splits intro!: is_file_mkdirs dest: mkdirs_no_new_file)

lemma WriteFile_files:
  assumes "fs_WriteFile p data mode f = Inr f'" "q \<noteq> Clean p"
  shows "map_of f' q = map_of f q"
  using assms by (auto simp: fs_WriteFile_def Let_def split: if_splits option.splits Node.splits)

lemma tar_name_below:
  assumes "name = Clean n" "name \<noteq> ''.''" "\<not> hasParentRef name" "\<not> IsAbs name"
  shows "below_path name"
  using assms by (auto simp: below_path_def hasParentRef_def)

lemma Join2_not_outside:
  assumes "dir \<noteq> ''''" "below_path name"
  shows "\<not> outside dir (Join2 dir name)" "Clean (Join2 dir name) = Join2 dir name"
proof -
  have "IsAbs (dir @ CHR ''/'' # name) = IsAbs dir" using assms(1) by (cases dir) (auto simp: IsAbs_def)
  then show "\<not> outside dir (Join2 dir name)"
    using Join2_comps(1) [OF assms] assms(1) by (simp add: outside_def) (simp add: Join2_def)
  show "Clean (Join2 dir name) = Join2 dir name" using assms(1) by (simp add: Join2_def)
qed

abbreviation kept_in :: "string \<Rightarrow> fs \<Rightarrow> World \<Rightarrow> bool" where
  "kept_in dir f \<equiv> \<lambda>w. files_outside_kept dir f (w_fs w)"

lemma kept_MkdirAll: "keeps (kept_in dir f) (os_MkdirAll e p)"
  unfolding os_MkdirAll_def keeps_wp
  by (intro allI impI wp_fs_op) (auto simp: files_outside_kept_def MkdirAll_files)

lemma kept_WriteFile:
  assumes "\<not> outside dir (Clean p)"
  shows "keeps (kept_in dir f) (os_WriteFile e p data mode)"
  unfolding os_WriteFile_def keeps_wp
proof (intro allI impI wp_fs_op)
  fix w f' and w' :: World
  assume k: "kept_in dir f w" and g: "fs_WriteFile p data mode (w_fs w) = Inr f'" "w_fs w' = f'"
  have "map_of f' q = map_of (w_fs w) q" if "outside dir q" for q
    using that assms by (intro WriteFile_files [OF g(1)]) auto
  with k g(2) show "kept_in dir f w'" by (simp add: files_outside_kept_def)
qed simp

lemma kept_extract_entry:
  assumes "dir \<noteq> ''''" "below_path name"
  shows "keeps (kept_in dir f) (extract_entry e dir name te)"
  unfolding extract_entry_def streamTarFile_def Let_def
  using Join2_not_outside [OF assms]
  by (cases "te_Type te") (auto intro!: wf_intros kept_MkdirAll kept_WriteFile split: sum.split)

lemma kept_extract_entries:
  assumes "dir \<noteq> ''''"
  shows "keeps (kept_in dir f) (extract_entries e dir rest)"
proof (induction rest)
  case (TarEntry te rest)
  then show ?case
    by (auto simp: Let_def intro!: wf_intros kept_extract_entry [OF assms] tar_name_below split: option.split)
qed (simp_all add: wf_intros)

lemma leaves_fs_io [frame]: "leaves w_fs (io_UpdateProject S p)" "leaves w_fs (io_CreateProject S p)"
    "leaves w_fs (project_updated S p)" "leaves w_fs (reply_ok c b tasks)" "leaves w_fs (reply_error c msg)"
  unfolding io_UpdateProject_def io_CreateProject_def project_updated_def reply_ok_def reply_error_def
  by (auto intro!: frame)

lemma leaves_fs_upsert: "leaves w_fs (upsertProject S p)"
  unfolding upsertProject_def by (auto intro!: frame split: sum.split)

lemma leaves_fs_importYAML: "leaves w_fs (importYAML S body)"
  unfolding importYAML_def by (auto intro!: frame leaves_fs_upsert split: sum.split)

text \<open>The names of the entries that are written, and a stream that can be read to its end.\<close>

fun tar_names :: "tar_stream \<Rightarrow> string list" where
  "tar_names TarEOF = []"
| "tar_names (TarError err) = []"
| "tar_names (TarEntry te rest) = te_Name te # tar_names rest"

definition name_inside :: "string \<Rightarrow> bool" where
  "name_inside n \<longleftrightarrow> Clean n = ''.'' \<or> below_path (Clean n)"

text \<open>The regular files among the entries, and when a directory holds the files of a list.\<close>

fun tar_files :: "tar_stream \<Rightarrow> (string \<times> string) list" where
  "tar_files TarEOF = []"
| "tar_files (TarError err) = []"
| "tar_files (TarEntry te rest) =
     (if te_Type te = TypeReg \<and> Clean (te_Name te) \<noteq> ''.'' then [(Clean (te_Name te), te_Data te)] else [])
       @ tar_files rest"

definition holds_files :: "string \<Rightarrow> (string \<times> string) list \<Rightarrow> fs \<Rightarrow> bool" where
  "holds_files dir L f \<longleftrightarrow> (\<forall>n d. map_of L n = Some d \<longrightarrow> below_path n \<and> (\<exists>m. file_at f (Join2 dir n) d m))"

lemma holds_files_Nil [simp]: "holds_files dir [] f"
  by (simp add: holds_files_def)

lemma Join2_inj:
  assumes "dir \<noteq> ''''" "below_path a" "below_path b" "Join2 dir a = Join2 dir b"
  shows "a = b"
proof -
  have "split_on CHR ''/'' a = split_on CHR ''/'' b"
    using Join2_comps(1) [OF assms(1,2)] Join2_comps(1) [OF assms(1,3)] assms(4) by simp
  then show ?thesis
    using below_path_comps [OF assms(2)] below_path_comps [OF assms(3)] by metis
qed

lemma holds_MkdirAll: "holds_files dir L (w_fs w) \<Longrightarrow> wp (os_MkdirAll e p) w (\<lambda>r w'. holds_files dir L (w_fs w'))"
  unfolding os_MkdirAll_def
  by (rule wp_fs_op) (simp_all add: holds_files_def, metis fs_MkdirAll_file)

lemma holds_WriteFile:
  assumes "holds_files dir L (w_fs w)" "dir \<noteq> ''''" "below_path name"
  shows "wp (os_WriteFile e (Join2 dir name) data mode) w
    (\<lambda>r w'. r = Inr () \<longrightarrow> holds_files dir ((name, data) # L) (w_fs w'))"
  unfolding os_WriteFile_def
proof (intro wp_fs_op impI)
  fix f' and w' :: World
  assume g: "fs_WriteFile (Join2 dir name) data mode (w_fs w) = Inr f'" "w_fs w' = f'"
  have "\<exists>m. file_at f' (Join2 dir n) d m" if "map_of L n = Some d" "n \<noteq> name" "below_path n" for n d
  proof -
    have "Clean (Join2 dir n) \<noteq> Clean (Join2 dir name)"
      using Join2_inj [OF assms(2) that(3) assms(3)] that(2)
        Join2_not_outside(2) [OF assms(2) that(3)] Join2_not_outside(2) [OF assms(2,3)] by auto
    from fs_WriteFile_other [OF g(1) this] show ?thesis
      using assms(1) that(1) by (auto simp: holds_files_def file_at_def)
  qed
  then show "holds_files dir ((name, data) # L) (w_fs w')"
    using fs_WriteFile_at [OF g(1)] assms(1,3) g(2) by (auto simp: holds_files_def)
qed simp

lemma holds_extract_entry:
  assumes "holds_files dir L (w_fs w)" "dir \<noteq> ''''" "below_path name"
  shows "wp (extract_entry e dir name te) w (\<lambda>r w'. r = None \<longrightarrow>
    holds_files dir ((if te_Type te = TypeReg then [(name, te_Data te)] else []) @ L) (w_fs w'))"
proof (cases "te_Type te")
  case TypeReg
  show ?thesis unfolding extract_entry_def Let_def TypeReg tar_type.case wp_bind streamTarFile_def
  proof (rule wp_mono [OF holds_MkdirAll [OF assms(1)]])
    fix r and w1 :: World
    assume "holds_files dir L (w_fs w1)"
    note wr = holds_WriteFile [OF this assms(2,3)]
    show "wp (case r of Inl err \<Rightarrow> ret (Some err)
      | Inr u \<Rightarrow> (os_WriteFile e (Join2 dir name) (te_Data te) (tar_mode te 420) \<bind> (\<lambda>r. ret (case r of Inl err \<Rightarrow> Inl err
          | Inr u \<Rightarrow> (case te_Fail te of Some err \<Rightarrow> Inl err | None \<Rightarrow> Inr ())))) \<bind>
          (\<lambda>r. ret (case r of Inl err \<Rightarrow> Some (''write '' @ name @ '': '' @ err) | Inr u \<Rightarrow> None))) w1
      (\<lambda>r w'. r = None \<longrightarrow> holds_files dir ((if TypeReg = TypeReg then [(name, te_Data te)] else []) @ L) (w_fs w'))"
    proof (cases r)
      case (Inr u)
      show ?thesis unfolding Inr sum.case wp_bind wp_ret
        by (rule wp_mono [OF wr]) (auto split: sum.splits option.splits)
    qed simp
  qed
qed (use holds_MkdirAll [OF assms(1)] assms(1) in \<open>auto simp: extract_entry_def intro: wp_mono\<close>)

lemma extract_entries_files:
  assumes "holds_files dir L (w_fs w)" "dir \<noteq> ''''"
  shows "wp (extract_entries e dir rest) w (\<lambda>r w'. r = None \<longrightarrow>
    list_all name_inside (tar_names rest) \<and> holds_files dir (rev (tar_files rest) @ L) (w_fs w'))"
  using assms(1)
proof (induction rest arbitrary: w L)
  case (TarEntry te rest)
  let ?n = "Clean (te_Name te)"
  have ne: "?n \<noteq> ''''" by (rule Clean_not_empty)
  consider (dot) "?n = ''.''" | (esc) "?n \<noteq> ''.''" "hasParentRef ?n \<or> IsAbs ?n"
    | (inside) "?n \<noteq> ''.''" "\<not> hasParentRef ?n" "\<not> IsAbs ?n" by blast
  then show ?case
  proof cases
    case dot
    then show ?thesis using TarEntry.IH [OF TarEntry.prems] by (simp add: name_inside_def)
  next
    case esc
    then show ?thesis using ne by (simp add: Let_def)
  next
    case inside
    then have b: "below_path ?n" by (intro tar_name_below) auto
    then have nm: "name_inside (te_Name te)" by (simp add: name_inside_def)
    have eq: "extract_entries e dir (TarEntry te rest) = extract_entry e dir ?n te \<bind>
        case_option (extract_entries e dir rest) (\<lambda>msg. ret (Some (500, msg)))"
      using inside ne by (auto simp: Let_def)
    show ?thesis unfolding eq wp_bind
    proof (rule wp_mono [OF holds_extract_entry [OF TarEntry.prems assms(2) b]])
      fix r :: "error option" and w1 :: World
      assume h: "r = None \<longrightarrow> holds_files dir ((if te_Type te = TypeReg then [(?n, te_Data te)] else []) @ L) (w_fs w1)"
      show "wp (case_option (extract_entries e dir rest) (\<lambda>msg. ret (Some (500, msg))) r) w1 (\<lambda>r w'. r = None \<longrightarrow>
        list_all name_inside (tar_names (TarEntry te rest)) \<and>
        holds_files dir (rev (tar_files (TarEntry te rest)) @ L) (w_fs w'))"
      proof (cases r)
        case None
        have "wp (extract_entries e dir rest) w1 (\<lambda>r w'. r = None \<longrightarrow>
          list_all name_inside (tar_names (TarEntry te rest)) \<and>
          holds_files dir (rev (tar_files (TarEntry te rest)) @ L) (w_fs w'))"
          by (rule wp_mono [OF TarEntry.IH [OF h [rule_format, OF None]]])
            (use nm inside(1) in \<open>simp split: if_splits\<close>)
        then show ?thesis by (simp only: None option.case)
      qed simp
    qed
  qed
qed auto

lemma extract_entries_code:
  "wp (extract_entries e dir rest) w (\<lambda>r w'. \<forall>c m. r = Some (c, m) \<longrightarrow> c \<noteq> 200)"
proof (induction rest arbitrary: w)
  case (TarEntry te rest)
  have step: "wp (extract_entry e dir n te \<bind> (\<lambda>r. case r of Some msg \<Rightarrow> ret (Some (500, msg))
      | None \<Rightarrow> extract_entries e dir rest)) w (\<lambda>r w'. \<forall>c m. r = Some (c, m) \<longrightarrow> c \<noteq> 200)" for n
    unfolding wp_bind
  proof (rule wp_mono [OF wp_True])
    fix r :: "error option" and w1 :: World
    show "wp (case r of Some msg \<Rightarrow> ret (Some (500, msg)) | None \<Rightarrow> extract_entries e dir rest) w1
      (\<lambda>r w'. \<forall>c m. r = Some (c, m) \<longrightarrow> c \<noteq> 200)"
      using TarEntry.IH by (cases r) simp_all
  qed
  show ?case using step TarEntry.IH by (simp add: Let_def)
qed auto

lemma validated_stack_path: "validated S p isNew = Inr p' \<Longrightarrow> p_StackPath p' \<noteq> ''''"
  using validated_ok [of "srv_stackRoot S" "srv_legacy S" p isNew p']
  by (auto simp: validated_def default_fields_def)

text \<open>An import that starts writing: its entries, its project and its directory.\<close>

definition bundle_of :: "Server \<Rightarrow> Archiver \<Rightarrow> ImportRequest \<Rightarrow> (Project \<times> tar_stream) option" where
  "bundle_of S A req = (case importBodyReader req of
     Inr body \<Rightarrow>
       if is_gzip body then
         (case ar_untar A body of
           Inr (TarEntry te rest) \<Rightarrow>
             (case srv_yaml S (te_Data te) of
               Inr p0 \<Rightarrow> (case validated S p0 True of Inr p \<Rightarrow> Some (p, rest) | Inl e \<Rightarrow> None)
             | Inl e \<Rightarrow> None)
         | r \<Rightarrow> None)
       else None
   | Inl e \<Rightarrow> None)"

definition unpack_bundle :: "Server \<Rightarrow> Project \<Rightarrow> tar_stream \<Rightarrow> Body reply io" where
  "unpack_bundle S p rest = do {
     d \<leftarrow> os_MkdirAll (srv_env S) (p_StackPath p);
     case d of
       Inl err \<Rightarrow> reply_error 500 (''mkdir stack: '' @ err)
     | Inr u \<Rightarrow> do {
         r \<leftarrow> extract_entries (srv_env S) (p_StackPath p) rest;
         case r of
           Some (code, msg) \<Rightarrow> reply_error code msg
         | None \<Rightarrow> upsertProject S p
       }
   }"

lemma import_cases:
  obtains "leaves w_fs (apiImportProject S A req)" "\<And>rp w w'. bundle_of S A req \<noteq> None \<Longrightarrow>
      run_state (apiImportProject S A req) w = (rp, w') \<Longrightarrow> fst rp \<noteq> 200"
  | p rest where "bundle_of S A req = Some (p, rest)" "p_StackPath p \<noteq> ''''"
      "apiImportProject S A req = unpack_bundle S p rest"
proof (cases "\<exists>p rest. bundle_of S A req = Some (p, rest) \<and> apiImportProject S A req = unpack_bundle S p rest")
  case True
  then obtain p rest where pr: "bundle_of S A req = Some (p, rest)"
    "apiImportProject S A req = unpack_bundle S p rest" by blast
  then have "p_StackPath p \<noteq> ''''"
    by (auto simp: bundle_of_def validated_stack_path split: sum.splits if_splits tar_stream.splits)
  with pr show thesis using that(2) by blast
next
  case False
  have "leaves w_fs (apiImportProject S A req)"
    using False unfolding apiImportProject_def importTarball_def bundle_of_def unpack_bundle_def
    by (auto split: sum.splits if_splits tar_stream.splits option.splits intro!: frame leaves_fs_importYAML)
  moreover have "fst rp \<noteq> 200" if "bundle_of S A req \<noteq> None" "run_state (apiImportProject S A req) w = (rp, w')" for rp w w'
    using False that unfolding apiImportProject_def importTarball_def bundle_of_def unpack_bundle_def
    by (auto simp: reply_error_def split: sum.splits if_splits tar_stream.splits option.splits)
  ultimately show thesis by (rule that(1))
qed

lemma unpack_keeps:
  assumes "p_StackPath p \<noteq> ''''"
  shows "keeps (kept_in (p_StackPath p) f) (unpack_bundle S p rest)"
  unfolding unpack_bundle_def
  by (auto intro!: wf_intros kept_MkdirAll kept_extract_entries [OF assms]
      leaves_keeps [where P = "files_outside_kept (p_StackPath p) f", OF leaves_fs_upsert]
      split: sum.split option.split)

text \<open>
  Property C27. An import writes nothing unless it is a bundle whose project is valid, and then every
  file outside of the project's stack path stays as it was, whatever names the entries of the
  archive have.
\<close>

theorem import_stays_in_stack:
  assumes "run_state (apiImportProject S A req) w = (rp, w')"
  shows "case bundle_of S A req of
      None \<Rightarrow> w_fs w' = w_fs w
    | Some (p, rest) \<Rightarrow> files_outside_kept (p_StackPath p) (w_fs w) (w_fs w')"
proof (cases rule: import_cases [of S A req])
  case 1
  then have "w_fs w' = w_fs w" using assms by (metis leaves_def snd_conv)
  then show ?thesis by (auto split: option.split)
next
  case (2 p rest)
  with unpack_keeps [OF 2(2), of "w_fs w" S rest] assms show ?thesis
    by (auto simp: keeps_def) (metis files_outside_kept_refl snd_conv)
qed

text \<open>
  Property C28. A bundle that is imported with status 200 has left every regular file of the archive
  below the stack path with its contents (of two entries with one name, the later one).
\<close>

theorem import_restores_files:
  assumes "bundle_of S A req = Some (p, rest)" "run_state (apiImportProject S A req) w = (rp, w')"
    "fst rp = 200"
  shows "list_all name_inside (tar_names rest) \<and>
    (\<forall>n d. map_of (rev (tar_files rest)) n = Some d \<longrightarrow>
       below_path n \<and> (\<exists>m. file_at (w_fs w') (Join2 (p_StackPath p) n) d m))"
proof (cases rule: import_cases [of S A req])
  case 1
  then show ?thesis using assms by auto
next
  case (2 p' rest')
  then have eq: "p' = p" "rest' = rest" using assms(1) by auto
  let ?Q = "\<lambda>w'. list_all name_inside (tar_names rest) \<and> holds_files (p_StackPath p) (rev (tar_files rest)) (w_fs w')"
  have up: "wp (upsertProject S p) w1 (\<lambda>r w'. fst r = 200 \<longrightarrow> ?Q w')" if "?Q w1" for w1
    by (rule wp_leavesI [OF leaves_fs_upsert]) (use that in simp)
  have "wp (extract_entries (srv_env S) (p_StackPath p) rest) w1 (\<lambda>r w'. r = None \<longrightarrow> ?Q w')" for w1
    using extract_entries_files [OF holds_files_Nil 2(2)] by (simp add: eq)
  then have ex: "wp (extract_entries (srv_env S) (p_StackPath p) rest) w1
      (\<lambda>r w'. (r = None \<longrightarrow> ?Q w') \<and> (\<forall>c m. r = Some (c, m) \<longrightarrow> c \<noteq> 200))" for w1
    using extract_entries_code by (rule wp_conj)
  have "wp (unpack_bundle S p rest) w (\<lambda>r w'. fst r = 200 \<longrightarrow> ?Q w')"
    unfolding unpack_bundle_def wp_bind
  proof (rule wp_mono [OF wp_True])
    fix d and w1 :: World
    show "wp (case d of Inl err \<Rightarrow> reply_error 500 (''mkdir stack: '' @ err) | Inr u \<Rightarrow>
      extract_entries (srv_env S) (p_StackPath p) rest \<bind>
        (\<lambda>r. case r of None \<Rightarrow> upsertProject S p | Some (code, msg) \<Rightarrow> reply_error code msg)) w1
      (\<lambda>r w'. fst r = 200 \<longrightarrow> ?Q w')"
    proof (cases d)
      case (Inr u)
      show ?thesis unfolding Inr sum.case wp_bind
      proof (rule wp_mono [OF ex])
        fix r :: "(int \<times> error) option" and w2 :: World
        assume "(r = None \<longrightarrow> ?Q w2) \<and> (\<forall>c m. r = Some (c, m) \<longrightarrow> c \<noteq> 200)"
        with up [of w2] show "wp (case r of None \<Rightarrow> upsertProject S p | Some (code, msg) \<Rightarrow> reply_error code msg) w2
          (\<lambda>r w'. fst r = 200 \<longrightarrow> ?Q w')" by (auto split: option.split)
      qed
    qed simp
  qed
  from wp_run [OF this, of rp w'] show ?thesis
    using assms(2,3) 2(3) by (simp add: eq holds_files_def)
qed

end
