(* ===== verification/Demo_Admin.thy ===== *)
theory Demo_Admin
  imports Demo_Web Web_Admin
begin

text \<open>
  The concrete server importing a bundle of three entries: the project, a directory and a file.
\<close>

definition demo_bundle_data :: tar_stream where
  "demo_bundle_data =
     TarEntry \<lparr>te_Name = ''data/'', te_Mode = 493, te_Type = TypeDir, te_Data = '''', te_Fail = None\<rparr>
       (TarEntry (writeTarFile ''data/./f'' 420 ''hi'') TarEOF)"

definition demo_archiver :: Archiver where
  "demo_archiver =
     \<lparr>ar_untar = (\<lambda>b. Inr (TarEntry (writeTarFile ''project.yaml'' 420 ''y'') demo_bundle_data)),
      ar_yaml = (\<lambda>p. Inr ''y''), ar_dir_mode = (\<lambda>p. 493)\<rparr>"

definition demo_import_server :: Server where
  "demo_import_server = demo_server\<lparr>srv_yaml := \<lambda>s. Inr demo_raw\<rparr>"

definition demo_import_request :: ImportRequest where
  "demo_import_request = \<lparr>ir_ContentType = ''multipart/form-data; boundary=b'', ir_Body = '''',
     ir_Parts = Inr (Part ''name'' ''x'' (Part ''file'' [CHR 0x1F, CHR 0x8B] PartsEOF))\<rparr>"

definition demo_import_world :: World where
  "demo_import_world = demo_world\<lparr>w_db := empty_db\<rparr>"

lemma demo_import_mkdir: "fst (run_state (os_MkdirAll (srv_env demo_import_server) ''/s/app'') demo_import_world) = Inr ()"
  by code_simp

lemma demo_extract: "fst (run_state (extract_entries (srv_env demo_import_server) ''/s/app'' demo_bundle_data)
    (snd (run_state (os_MkdirAll (srv_env demo_import_server) ''/s/app'') demo_import_world))) = None"
  by code_simp

definition demo_imported :: Project where
  "demo_imported = projr (validated demo_import_server demo_raw True)"

lemma demo_import_yaml: "srv_yaml demo_import_server s = Inr demo_raw"
  by (simp add: demo_import_server_def)

lemma demo_import_validated: "validated demo_import_server demo_raw True = Inr demo_imported"
proof -
  have "\<not> isl (validated demo_import_server demo_raw True)" by code_simp
  then show ?thesis by (simp add: demo_imported_def)
qed

lemma demo_imported_path: "p_StackPath demo_imported = ''/s/app''"
  using validated_ok [OF demo_import_validated [unfolded validated_def]]
  by (simp add: default_fields_def demo_import_server_def demo_server_def demo_raw_def zero_project_def)

lemma demo_imported_again: "validated demo_import_server demo_imported True = Inr demo_imported"
  using validated_ok [OF demo_import_validated [unfolded validated_def]]
  unfolding validated_def by (intro validate_id) auto

lemma demo_bundle: "bundle_of demo_import_server demo_archiver demo_import_request = Some (demo_imported, demo_bundle_data)"
  using demo_import_validated
  by (simp add: bundle_of_def importBodyReader_def demo_import_request_def is_gzip_def demo_archiver_def
      demo_import_server_def HasPrefix_def)

lemma demo_imported_env: "p_EnvVars demo_imported = None" "p_SecretEnvKeys demo_imported = None"
  by code_simp+

lemma demo_resolve: "\<exists>q. resolveProjectSecrets demo_imported None = Inr q \<and> p_ID q = ''app''"
proof -
  have "case resolveProjectSecrets demo_imported None of Inl e \<Rightarrow> False | Inr q \<Rightarrow> p_ID q = ''app''" by code_simp
  then show ?thesis by (auto split: sum.splits)
qed

lemma demo_upsert:
  assumes "w_db w = empty_db"
  shows "wp (upsertProject demo_import_server demo_imported) w (\<lambda>r w'. fst r = 200)"
proof -
  obtain q where q: "resolveProjectSecrets demo_imported None = Inr q" "p_ID q = ''app''" using demo_resolve by blast
  obtain s where s: "secret_encrypt demo_codec (Inr ''0123456789ab'') (projectEnvAAD (p_ID q))
      (cd_marshal_env demo_codec (env_entries q)) = Inr s"
    using secret_encrypt_rand_ok [OF demo_rand] by blast
  have srv: "srv_codec demo_import_server = demo_codec" "env_rand (srv_env demo_import_server) t = Inr ''0123456789ab''" for t
    by (simp_all add: demo_import_server_def demo_server_env)
  have none: "\<exists>e. GetProject demo_codec empty_db i = Inl e" for i
    by (simp add: GetProject_def empty_db_def)
  then obtain e where e: "GetProject demo_codec empty_db (p_ID demo_imported) = Inl e" by blast
  have c: "fst (CreateProject demo_codec (Inr ''0123456789ab'') now q empty_db) = Inr ()" for now
    by (simp add: CreateProject_def Let_def s empty_db_def table_keys_def)
  show ?thesis
    unfolding upsertProject_def demo_imported_again
    by (simp add: assms srv e q io_CreateProject_def c project_updated_def wp_leavesI [OF leaves_emit(1)])
qed

lemma demo_import: "\<exists>rp w'. fst rp = 200 \<and>
    run_state (apiImportProject demo_import_server demo_archiver demo_import_request) demo_import_world = (rp, w')"
proof -
  let ?e = "srv_env demo_import_server"
  define w1 where "w1 = snd (run_state (os_MkdirAll ?e ''/s/app'') demo_import_world)"
  define w2 where "w2 = snd (run_state (extract_entries ?e ''/s/app'' demo_bundle_data) w1)"
  have mk: "run_state (os_MkdirAll ?e ''/s/app'') demo_import_world = (Inr (), w1)"
    using demo_import_mkdir by (simp add: w1_def prod_eq_iff)
  have ex: "run_state (extract_entries ?e ''/s/app'' demo_bundle_data) w1 = (None, w2)"
    using demo_extract by (simp add: w2_def w1_def prod_eq_iff)
  have ev: "wp (os_MkdirAll ?e ''/s/app'') demo_import_world Q = Q (Inr ()) w1"
      "wp (extract_entries ?e ''/s/app'' demo_bundle_data) w1 Q' = Q' None w2" for Q Q'
    by (simp_all add: wp_def mk ex)
  have "w_db w2 = empty_db" unfolding w2_def w1_def by code_simp
  note up = demo_upsert [OF this]
  have "Clean ''project.yaml'' = ''project.yaml''" by code_simp
  then have "wp (apiImportProject demo_import_server demo_archiver demo_import_request) demo_import_world
      (\<lambda>r w'. fst r = 200)"
    using demo_import_validated up
    by (simp add: apiImportProject_def importBodyReader_def demo_import_request_def is_gzip_def demo_archiver_def
        importTarball_def writeTarFile_def demo_import_yaml HasPrefix_def demo_imported_path ev)
  then show ?thesis by (auto simp: wp_def split: prod.splits)
qed

section \<open>Witnesses\<close>

lemma import_stays_in_stack_witness:
  "\<exists>rp w'. run_state (apiImportProject demo_import_server demo_archiver demo_import_request) demo_import_world = (rp, w') \<and>
     files_outside_kept ''/s/app'' (w_fs demo_import_world) (w_fs w')"
proof -
  obtain rp w' where r: "run_state (apiImportProject demo_import_server demo_archiver demo_import_request)
      demo_import_world = (rp, w')" using demo_import by blast
  from import_stays_in_stack [OF r] show ?thesis
    using r by (cases rp) (auto simp: demo_bundle demo_imported_path)
qed

lemma import_restores_files_witness:
  "\<exists>rp w' m. run_state (apiImportProject demo_import_server demo_archiver demo_import_request) demo_import_world = (rp, w') \<and>
     file_at (w_fs w') (Join2 ''/s/app'' ''data/f'') ''hi'' m"
proof -
  obtain rp w' where r: "fst rp = 200"
      "run_state (apiImportProject demo_import_server demo_archiver demo_import_request) demo_import_world = (rp, w')"
    using demo_import by blast
  have "map_of (rev (tar_files demo_bundle_data)) ''data/f'' = Some ''hi''" by code_simp
  with import_restores_files [OF demo_bundle r(2,1)] r(2) show ?thesis
    unfolding demo_imported_path by blast
qed

end
