(* ===== verification/Go_File.thy ===== *)
theory Go_File
  imports World
begin

text \<open>
  Files that must not exist yet: \<open>os.OpenFile\<close> with \<open>O_CREATE|O_EXCL\<close>, writing to the open file and
  flushing it. The lemmas say that this never touches a file that was there before.
\<close>

definition fs_CreateExcl :: "string \<Rightarrow> int \<Rightarrow> fs \<Rightarrow> fs result" where
  "fs_CreateExcl path mode f =
     (let p = Clean path in
      if p = ''/'' \<or> map_of f p \<noteq> None then Inl (''open '' @ path @ '': file exists'')
      else if \<not> is_dir f (DirOf p) then Inl (''open '' @ path @ '': no such file or directory'')
      else Inr (AList.update p (FileNode '''' mode) f))"

definition os_CreateExcl :: "Env \<Rightarrow> string \<Rightarrow> int \<Rightarrow> unit result io" where
  "os_CreateExcl e path mode = fs_op e path (fs_CreateExcl path mode)"

text \<open>Appending to the file that is open at a path.\<close>

definition fs_Append :: "string \<Rightarrow> string \<Rightarrow> fs \<Rightarrow> fs result" where
  "fs_Append path data f =
     (case map_of f (Clean path) of
        Some (FileNode c m) \<Rightarrow> Inr (AList.update (Clean path) (FileNode (c @ data) m) f)
      | _ \<Rightarrow> Inl (''write '' @ path @ '': file already closed''))"

definition os_FileWrite :: "Env \<Rightarrow> string \<Rightarrow> string \<Rightarrow> unit result io" where
  "os_FileWrite e path data = fs_op e path (fs_Append path data)"

text \<open>\<open>Sync\<close> and \<open>Close\<close> may fail and do not change what is read.\<close>

definition os_FileSync :: "Env \<Rightarrow> string \<Rightarrow> unit result io" where
  "os_FileSync e path = fs_op e path Inr"

text \<open>\<open>os.IsNotExist\<close>, by the text of the error.\<close>

definition IsNotExist :: "error \<Rightarrow> bool" where
  "IsNotExist err \<longleftrightarrow> HasSuffix err ''no such file or directory''"

section \<open>Lemmas\<close>

text \<open>The contents of a file, whatever its mode.\<close>

definition contents_at :: "string \<Rightarrow> string \<Rightarrow> World \<Rightarrow> bool" where
  "contents_at q c w \<longleftrightarrow> (\<exists>m. file_at (w_fs w) q c m)"

lemma fs_Chmod_contents: "fs_Chmod p m f = Inr f' \<Longrightarrow> file_at f q c n \<Longrightarrow> \<exists>n'. file_at f' q c n'"
  by (cases "Clean q = Clean p") (auto simp: fs_Chmod_def file_at_def Let_def split: option.splits Node.splits)

lemma fs_CreateExcl_new: "fs_CreateExcl p m f = Inr f' \<Longrightarrow> map_of f (Clean p) = None \<and> f' = AList.update (Clean p) (FileNode '''' m) f"
  by (auto simp: fs_CreateExcl_def Let_def split: if_splits)

lemma fs_Append_at: "fs_Append p d f = Inr f' \<Longrightarrow> file_at f p c m \<Longrightarrow> file_at f' p (c @ d) m"
  by (auto simp: fs_Append_def file_at_def)

lemma fs_Append_other: "fs_Append p d f = Inr f' \<Longrightarrow> Clean q \<noteq> Clean p \<Longrightarrow> map_of f' (Clean q) = map_of f (Clean q)"
  by (auto simp: fs_Append_def split: option.splits Node.splits)

lemma keeps_contents_op:
  assumes "\<And>f f' m. g f = Inr f' \<Longrightarrow> file_at f q c m \<Longrightarrow> \<exists>m'. file_at f' q c m'"
  shows "keeps (contents_at q c) (fs_op e p g)"
  using assms unfolding keeps_wp by (intro allI impI wp_fs_op) (auto simp: contents_at_def)

lemma keeps_contents [wf_intros]:
  "keeps (contents_at q c) (os_MkdirAll e p)" "keeps (contents_at q c) (os_Chmod e p m)"
  "keeps (contents_at q c) (os_CreateExcl e p m)" "keeps (contents_at q c) (os_FileSync e p)"
proof -
  show "keeps (contents_at q c) (os_MkdirAll e p)"
    unfolding os_MkdirAll_def by (rule keeps_contents_op) (blast dest: fs_MkdirAll_file)
  show "keeps (contents_at q c) (os_Chmod e p m)"
    unfolding os_Chmod_def by (rule keeps_contents_op) (rule fs_Chmod_contents)
  show "keeps (contents_at q c) (os_CreateExcl e p m)"
    unfolding os_CreateExcl_def by (rule keeps_contents_op) (auto dest!: fs_CreateExcl_new simp: file_at_def)
  show "keeps (contents_at q c) (os_FileSync e p)"
    unfolding os_FileSync_def by (rule keeps_contents_op) auto
qed

lemma keeps_contents_leaves: "leaves w_fs m \<Longrightarrow> keeps (contents_at q c) m"
  unfolding contents_at_def by (rule leaves_keeps)

lemma keeps_contents_Append: "Clean q \<noteq> Clean p \<Longrightarrow> keeps (contents_at q c) (os_FileWrite e p d)"
  unfolding os_FileWrite_def by (rule keeps_contents_op) (auto simp: file_at_def fs_Append_other)

text \<open>Creating a file that must be new: where it succeeds, the path named no file before.\<close>

lemma wp_CreateExcl:
  assumes "\<And>err w'. w_fs w' = w_fs w \<Longrightarrow> Q (Inl err) w'"
    and "\<And>w'. map_of (w_fs w) (Clean p) = None \<Longrightarrow> w_fs w' = AList.update (Clean p) (FileNode '''' m) (w_fs w) \<Longrightarrow> Q (Inr ()) w'"
  shows "wp (os_CreateExcl e p m) w Q"
  unfolding os_CreateExcl_def using assms by (intro wp_fs_op) (auto dest!: fs_CreateExcl_new)

lemma leaves_Go_File [frame]: "leaves own_state (os_CreateExcl e p m)" "leaves own_state (os_FileWrite e p d)"
    "leaves own_state (os_FileSync e p)"
  by (auto simp: os_CreateExcl_def os_FileWrite_def os_FileSync_def intro!: frame)

end
