(* ===== verification/Migrations.thy ===== *)
theory Migrations
  imports Project_Rules Database_Inv
begin

text \<open>
  The migrations of \<open>internal/db/db.go\<close> that every start runs over the database: v3 and v4 turn old
  projects into services, v8 encrypts what is stored in plain text, v9 classifies the variables of
  old projects as secret. A \<open>Conn\<close> is the database after the schema statements, with the columns
  that only the migrations read. The statements that create tables and columns, and the engine, are
  not modelled; the checkpoints and \<open>VACUUM\<close> answer as \<open>Maintenance\<close> says.
\<close>

section \<open>Connections\<close>

text \<open>
  \<open>cn_services_empty\<close>, \<open>cn_current_empty\<close> and \<open>cn_from_empty\<close> tell of a project, a state row and a
  deployment whether the column of its services is the text \<open>[]\<close> and that of its digests \<open>{}\<close>; the
  old columns hold one digest each. \<open>cn_cleanup\<close> is the row of \<open>secret_migration_cleanup\<close>.
\<close>

record Conn =
  cn_db :: DB
  cn_services_empty :: "string \<Rightarrow> bool"
  cn_current_empty :: "string \<Rightarrow> bool"
  cn_state_digests :: "string \<Rightarrow> string \<times> string \<times> string"
  cn_from_empty :: "nat \<Rightarrow> bool"
  cn_deploy_digests :: "nat \<Rightarrow> string \<times> string"
  cn_cleanup :: "bool option"

text \<open>
  \<open>json.Valid\<close>, the map \<open>json.Unmarshal\<close> leaves in a nil map (its error is ignored), and the YAML
  reader of old compose texts.
\<close>

record Formats =
  fm_valid :: "string \<Rightarrow> bool"
  fm_read_env :: "string \<Rightarrow> smap"
  fm_compose :: "string \<Rightarrow> LegacyConfig option"

text \<open>The answers of the two checkpoints (busy, frames, checkpointed) and of \<open>VACUUM\<close>.\<close>

record Maintenance =
  mt_checkpoint :: "(int \<times> int \<times> int) result"
  mt_vacuum :: "unit result"
  mt_final :: "(int \<times> int \<times> int) result"

section \<open>v3: services and digest maps\<close>

definition marshalDigestMap :: "string \<Rightarrow> string \<Rightarrow> smap" where
  "marshalDigestMap serviceName digest = (if digest = '''' then [] else [(serviceName, digest)])"

definition v3_selected :: "Conn \<Rightarrow> string \<Rightarrow> Project \<Rightarrow> bool" where
  "v3_selected cn i p \<longleftrightarrow> cn_services_empty cn i \<and> p_RegistryImage p \<noteq> ''''"

definition v3_project :: "Conn \<Rightarrow> string \<times> project_row \<Rightarrow> string \<times> project_row" where
  "v3_project cn = (\<lambda>(i, r). let p = row_project r in
     (i, if v3_selected cn i p
         then r\<lparr>row_project := p\<lparr>p_Services := [zero_service\<lparr>svc_Name := i, svc_RegistryImage := p_RegistryImage p,
             svc_ImageTag := p_ImageTag p, svc_Polled := True, svc_Ports := p_Ports p, svc_Volumes := p_Volumes p,
             svc_ExtraOptions := p_ExtraOptions p\<rparr>]\<rparr>\<rparr>
         else r))"

definition v3_state :: "Conn \<Rightarrow> string \<times> ProjectState \<Rightarrow> string \<times> ProjectState" where
  "v3_state cn = (\<lambda>(i, s). case cn_state_digests cn i of (current, previous, desired) \<Rightarrow>
     (i, if cn_current_empty cn i \<and> current \<noteq> ''''
         then s\<lparr>st_CurrentDigests := marshalDigestMap i current, st_PreviousDigests := marshalDigestMap i previous,
                 st_DesiredDigests := marshalDigestMap i desired\<rparr>
         else s))"

definition v3_deployment :: "Conn \<Rightarrow> Deployment \<Rightarrow> Deployment" where
  "v3_deployment cn d = (case cn_deploy_digests cn (d_ID d) of (old, new) \<Rightarrow>
     if cn_from_empty cn (d_ID d) \<and> (old \<noteq> '''' \<or> new \<noteq> '''')
     then d\<lparr>d_FromDigests := marshalDigestMap (d_ProjectID d) old, d_ToDigests := marshalDigestMap (d_ProjectID d) new\<rparr>
     else d)"

text \<open>A digest that was empty is written as \<open>{}\<close> again.\<close>

definition migrateV3Data :: "Conn \<Rightarrow> Conn" where
  "migrateV3Data cn =
     cn\<lparr>cn_db := (cn_db cn)\<lparr>db_projects := map (v3_project cn) (db_projects (cn_db cn)),
          db_states := map (v3_state cn) (db_states (cn_db cn)),
          db_deployments := map (v3_deployment cn) (db_deployments (cn_db cn))\<rparr>,
        cn_services_empty := (\<lambda>i. cn_services_empty cn i \<and>
          (case map_of (db_projects (cn_db cn)) i of None \<Rightarrow> True | Some r \<Rightarrow> \<not> v3_selected cn i (row_project r))),
        cn_current_empty := (\<lambda>i. cn_current_empty cn i \<and> fst (cn_state_digests cn i) = ''''),
        cn_from_empty := (\<lambda>n. cn_from_empty cn n \<and> fst (cn_deploy_digests cn n) = '''')\<rparr>"

section \<open>v4: custom mode\<close>

definition v4_services :: "string \<Rightarrow> LegacyConfig \<Rightarrow> ServiceConfig list" where
  "v4_services i sc =
     (if lc_Services sc \<noteq> [] then lc_Services sc
      else if lc_RegistryImage sc \<noteq> '''' then
        [zero_service\<lparr>svc_Name := i, svc_RegistryImage := lc_RegistryImage sc,
           svc_ImageTag := (if lc_ImageTag sc = '''' then ''latest'' else lc_ImageTag sc),
           svc_Polled := True, svc_PullPolicy := lc_PullPolicy sc, svc_Ports := lc_Ports sc,
           svc_Volumes := lc_Volumes sc, svc_ExtraOptions := lc_ExtraOptions sc\<rparr>]
      else [])"

definition v4_env :: "Formats \<Rightarrow> string \<Rightarrow> LegacyConfig \<Rightarrow> smap" where
  "v4_env F stored sc = foldl (\<lambda>m (k, v). AList.update k v m) (fm_read_env F stored) (lc_EnvVars sc)"

definition v4_project :: "Formats \<Rightarrow> Codec \<Rightarrow> string \<times> project_row \<Rightarrow> string \<times> project_row" where
  "v4_project F cd = (\<lambda>(i, r). let p = row_project r in
     (i, if p_ConfigMode p = ConfigModeCustom \<and> p_CustomCompose p \<noteq> ''''
         then (case fm_compose F (p_CustomCompose p) of
             None \<Rightarrow> r
           | Some sc \<Rightarrow> r\<lparr>row_project := p\<lparr>p_ConfigMode := ConfigModeForm, p_Services := v4_services i sc,
                 p_CustomCompose := ''''\<rparr>,
               row_env_vars := cd_marshal_env cd (v4_env F (row_env_vars r) sc)\<rparr>)
         else r))"

text \<open>The column of the services is never the text \<open>[]\<close> afterwards: a nil slice is written as \<open>null\<close>.\<close>

definition v4_selected :: "Formats \<Rightarrow> Project \<Rightarrow> bool" where
  "v4_selected F p \<longleftrightarrow> p_ConfigMode p = ConfigModeCustom \<and> p_CustomCompose p \<noteq> '''' \<and> fm_compose F (p_CustomCompose p) \<noteq> None"

definition migrateV4CustomToForm :: "Formats \<Rightarrow> Codec \<Rightarrow> Conn \<Rightarrow> Conn" where
  "migrateV4CustomToForm F cd cn =
     cn\<lparr>cn_db := (cn_db cn)\<lparr>db_projects := map (v4_project F cd) (db_projects (cn_db cn))\<rparr>,
        cn_services_empty := (\<lambda>i. cn_services_empty cn i \<and>
          (case map_of (db_projects (cn_db cn)) i of None \<Rightarrow> True | Some r \<Rightarrow> \<not> v4_selected F (row_project r)))\<rparr>"

section \<open>v8: encryption\<close>

text \<open>The loop over the rows of a query: what \<open>f\<close> selects, or its first error.\<close>

fun collect :: "('r \<Rightarrow> 'a option result) \<Rightarrow> 'r list \<Rightarrow> 'a list result" where
  "collect f [] = Inr []"
| "collect f (r # rs) =
     (case f r of
        Inl e \<Rightarrow> Inl e
      | Inr a \<Rightarrow> (case collect f rs of Inl e \<Rightarrow> Inl e | Inr xs \<Rightarrow> Inr (case a of None \<Rightarrow> xs | Some x \<Rightarrow> x # xs)))"

definition plain_env_text :: "string \<Rightarrow> string" where
  "plain_env_text env = (if env = '''' \<or> env = ''null'' then ''{}'' else env)"

definition v8_project :: "Formats \<Rightarrow> Codec \<Rightarrow> string \<times> project_row \<Rightarrow> (string \<times> string) option result" where
  "v8_project F cd = (\<lambda>(i, r).
     if \<not> isEncryptedSecret (row_env_vars r) then Inr (Some (i, plain_env_text (row_env_vars r)))
     else case secret_decrypt cd (projectEnvAAD i) (row_env_vars r) of
       Inl e \<Rightarrow> Inl (''validate encrypted environment for project '' @ i @ '': '' @ e)
     | Inr plain \<Rightarrow>
         if fm_valid F plain then Inr None
         else Inl (''validate encrypted environment for project '' @ i @ '': decrypted value is not valid JSON''))"

definition v8_field :: "Codec \<Rightarrow> string \<Rightarrow> string \<Rightarrow> string \<Rightarrow> string \<Rightarrow> bool result" where
  "v8_field cd i field what stored =
     (if stored = '''' then Inr False
      else if isEncryptedSecret stored then
        (case secret_decrypt cd (tunnelSecretAAD i field) stored of
           Inl e \<Rightarrow> Inl (''validate encrypted tunnel '' @ what @ '' for '' @ i @ '': '' @ e)
         | Inr plain \<Rightarrow> Inr False)
      else Inr True)"

definition v8_tunnel :: "Codec \<Rightarrow> string \<times> Tunnel \<Rightarrow> (string \<times> string \<times> string) option result" where
  "v8_tunnel cd = (\<lambda>(i, t).
     case v8_field cd i ''tunnel_secret'' ''secret'' (t_TunnelSecret t) of
       Inl e \<Rightarrow> Inl e
     | Inr a \<Rightarrow>
         (case v8_field cd i ''cf_api_token'' ''API token'' (t_CFAPIToken t) of
            Inl e \<Rightarrow> Inl e
          | Inr b \<Rightarrow> Inr (if a \<or> b then Some (i, t_TunnelSecret t, t_CFAPIToken t) else None)))"

text \<open>The updates of the transaction; \<open>n\<close> counts the nonces drawn from \<open>rands\<close>.\<close>

fun v8_write_projects ::
    "Codec \<Rightarrow> (nat \<Rightarrow> string result) \<Rightarrow> (string \<times> string) list \<Rightarrow> nat \<times> DB \<Rightarrow> (nat \<times> DB) result" where
  "v8_write_projects cd rands [] s = Inr s"
| "v8_write_projects cd rands ((i, env) # items) (n, db) =
     (case secret_encrypt cd (rands n) (projectEnvAAD i) env of
        Inl e \<Rightarrow> Inl e
      | Inr v \<Rightarrow> v8_write_projects cd rands items
          (Suc n, db\<lparr>db_projects := sql_update i (\<lambda>r. r\<lparr>row_env_vars := v\<rparr>) (db_projects db)\<rparr>))"

definition v8_encrypt_field ::
    "Codec \<Rightarrow> (nat \<Rightarrow> string result) \<Rightarrow> string \<Rightarrow> string \<Rightarrow> string \<Rightarrow> nat \<Rightarrow> (nat \<times> string) result" where
  "v8_encrypt_field cd rands i field stored n =
     (if stored \<noteq> '''' \<and> \<not> isEncryptedSecret stored
      then (case secret_encrypt cd (rands n) (tunnelSecretAAD i field) stored of Inl e \<Rightarrow> Inl e | Inr v \<Rightarrow> Inr (Suc n, v))
      else Inr (n, stored))"

fun v8_write_tunnels ::
    "Codec \<Rightarrow> (nat \<Rightarrow> string result) \<Rightarrow> (string \<times> string \<times> string) list \<Rightarrow> nat \<times> DB \<Rightarrow> (nat \<times> DB) result" where
  "v8_write_tunnels cd rands [] s = Inr s"
| "v8_write_tunnels cd rands ((i, secret, token) # items) (n, db) =
     (case v8_encrypt_field cd rands i ''tunnel_secret'' secret n of
        Inl e \<Rightarrow> Inl e
      | Inr (n1, s) \<Rightarrow>
          (case v8_encrypt_field cd rands i ''cf_api_token'' token n1 of
             Inl e \<Rightarrow> Inl e
           | Inr (n2, t) \<Rightarrow> v8_write_tunnels cd rands items
               (n2, db\<lparr>db_tunnels := sql_update i (\<lambda>r. r\<lparr>t_TunnelSecret := s, t_CFAPIToken := t\<rparr>) (db_tunnels db)\<rparr>)))"

text \<open>An error rolls the transaction back; the flag of the clean-up is set in the same transaction.\<close>

definition migrateV8Secrets :: "Formats \<Rightarrow> Codec \<Rightarrow> (nat \<Rightarrow> string result) \<Rightarrow> Conn \<Rightarrow> bool result \<times> Conn" where
  "migrateV8Secrets F cd rands cn =
     (case collect (v8_project F cd) (db_projects (cn_db cn)) of
        Inl e \<Rightarrow> (Inl e, cn)
      | Inr projects \<Rightarrow>
          (case collect (v8_tunnel cd) (db_tunnels (cn_db cn)) of
             Inl e \<Rightarrow> (Inl e, cn)
           | Inr tunnels \<Rightarrow>
               if projects = [] \<and> tunnels = [] then (Inr False, cn)
               else case v8_write_projects cd rands projects (0, cn_db cn) of
                 Inl e \<Rightarrow> (Inl e, cn)
               | Inr s \<Rightarrow>
                   (case v8_write_tunnels cd rands tunnels s of
                      Inl e \<Rightarrow> (Inl e, cn)
                    | Inr (n, db) \<Rightarrow> (Inr True, cn\<lparr>cn_db := db, cn_cleanup := Some True\<rparr>))))"

section \<open>v9: classification\<close>

definition v9_project :: "Codec \<Rightarrow> string \<times> project_row \<Rightarrow> (string \<times> string list) option result" where
  "v9_project cd = (\<lambda>(i, r).
     if row_secret_env_keys r = SqlNull then
       (case decodeProjectEnv cd i (row_env_vars r) of
          Inl e \<Rightarrow> Inl (''decode legacy project '' @ i @ '' environment classification: '' @ e)
        | Inr envs \<Rightarrow> Inr (Some (i, sort (map fst envs))))
     else Inr None)"

fun v9_write :: "(string \<times> string list) list \<Rightarrow> DB \<Rightarrow> DB" where
  "v9_write [] db = db"
| "v9_write ((i, keys) # items) db =
     v9_write items (db\<lparr>db_projects := sql_update i (\<lambda>r. r\<lparr>row_secret_env_keys := JsonKeys keys\<rparr>) (db_projects db)\<rparr>)"

definition migrateV9SecretEnvKeys :: "Codec \<Rightarrow> Conn \<Rightarrow> unit result \<times> Conn" where
  "migrateV9SecretEnvKeys cd cn =
     (case collect (v9_project cd) (db_projects (cn_db cn)) of
        Inl e \<Rightarrow> (Inl e, cn)
      | Inr projects \<Rightarrow> (Inr (), cn\<lparr>cn_db := v9_write projects (cn_db cn)\<rparr>))"

section \<open>All of them\<close>

definition checkpointSecrets :: "(int \<times> int \<times> int) result \<Rightarrow> unit result" where
  "checkpointSecrets answer =
     (case answer of
        Inl e \<Rightarrow> Inl e
      | Inr (busy, logFrames, checkpointed) \<Rightarrow>
          if busy \<noteq> 0 then Inl (''database busy during checkpoint ('' @ Itoa checkpointed @ '' of '' @ Itoa logFrames
            @ '' frames checkpointed)'')
          else Inr ())"

definition clean_up :: "Maintenance \<Rightarrow> unit result" where
  "clean_up M =
     (case checkpointSecrets (mt_checkpoint M) of
        Inl e \<Rightarrow> Inl (''checkpoint encrypted secret migration: '' @ e)
      | Inr u \<Rightarrow>
          (case mt_vacuum M of
             Inl e \<Rightarrow> Inl (''vacuum encrypted secret migration: '' @ e)
           | Inr u \<Rightarrow>
               (case checkpointSecrets (mt_final M) of
                  Inl e \<Rightarrow> Inl (''final checkpoint encrypted secret migration: '' @ e)
                | Inr u \<Rightarrow> Inr ())))"

text \<open>\<open>INSERT OR IGNORE\<close> of the row of the clean-up.\<close>

definition start_cleanup :: "Conn \<Rightarrow> Conn" where
  "start_cleanup cn = cn\<lparr>cn_cleanup := (case cn_cleanup cn of None \<Rightarrow> Some True | Some b \<Rightarrow> Some b)\<rparr>"

definition migrate :: "Formats \<Rightarrow> Codec \<Rightarrow> (nat \<Rightarrow> string result) \<Rightarrow> Maintenance \<Rightarrow> Conn \<Rightarrow> unit result \<times> Conn" where
  "migrate F cd rands M cn =
     (case migrateV8Secrets F cd rands (start_cleanup (migrateV4CustomToForm F cd (migrateV3Data cn))) of
        (Inl e, cn) \<Rightarrow> (Inl e, cn)
      | (Inr changed, cn) \<Rightarrow>
          if cn_cleanup cn = Some True then
            (case clean_up M of
               Inl e \<Rightarrow> (Inl e, cn)
             | Inr u \<Rightarrow> migrateV9SecretEnvKeys cd (cn\<lparr>cn_cleanup := Some False\<rparr>))
          else migrateV9SecretEnvKeys cd cn)"

section \<open>Lemmas\<close>

lemma collect_ok:
  "collect f rs = Inr ys \<Longrightarrow> (\<forall>r \<in> set rs. \<exists>a. f r = Inr a) \<and>
     ys = List.map_filter (\<lambda>r. case f r of Inl e \<Rightarrow> None | Inr a \<Rightarrow> a) rs"
  by (induction rs arbitrary: ys)
    (auto simp: List.map_filter_simps split: sum.splits option.splits)

lemma collect_all:
  assumes "\<And>r. r \<in> set rs \<Longrightarrow> f r = Inr None"
  shows "collect f rs = Inr []"
  using assms by (induction rs) auto

text \<open>A selection keyed as its table: what was selected of a row, and that keys stay distinct.\<close>

lemma collect_keyed:
  assumes "collect f t = Inr ys" "table_ok t" "\<And>i r a. f (i, r) = Inr (Some a) \<Longrightarrow> fst a = i"
  shows "distinct (map fst ys)" "fst ` set ys \<subseteq> table_keys t"
    and "map_of t i = Some r \<Longrightarrow> (\<exists>a. f (i, r) = Inr a \<and> map_of ys i = map_option snd a)"
proof -
  have "distinct (map fst ys) \<and> fst ` set ys \<subseteq> table_keys t \<and>
    (\<forall>i r. map_of t i = Some r \<longrightarrow> (\<exists>a. f (i, r) = Inr a \<and> map_of ys i = map_option snd a))"
    using assms(1,2)
  proof (induction t arbitrary: ys)
    case (Cons x t)
    obtain i r where x: "x = (i, r)" by (cases x)
    from Cons.prems(1) obtain a zs where a: "f (i, r) = Inr a" "collect f t = Inr zs"
      and ys: "ys = (case a of None \<Rightarrow> zs | Some b \<Rightarrow> b # zs)"
      by (auto simp: x split: sum.splits)
    have t: "table_ok t" "i \<notin> table_keys t" using Cons.prems(2) by (auto simp: x table_ok_def table_keys_def)
    note IH = Cons.IH [OF a(2) t(1)]
    have i: "map_of zs i = None" using IH t(2) by (auto simp: map_of_eq_None_iff)
    show ?case
    proof (cases a)
      case None
      then show ?thesis using IH ys a(1) i by (auto simp: x table_keys_def)
    next
      case (Some b)
      then have "fst b = i" using assms(3) a(1) by blast
      then show ?thesis using IH ys a(1) i t(2) Some by (cases b) (auto simp: x table_keys_def)
    qed
  qed auto
  then show "distinct (map fst ys)" "fst ` set ys \<subseteq> table_keys t"
    and "map_of t i = Some r \<Longrightarrow> (\<exists>a. f (i, r) = Inr a \<and> map_of ys i = map_option snd a)" by blast+
qed

text \<open>A table whose rows with a key in \<open>items\<close> were rewritten, each in a way that \<open>P\<close> allows.\<close>

definition rewrote :: "(string \<Rightarrow> 'x \<Rightarrow> ('r \<Rightarrow> 'r) \<Rightarrow> bool) \<Rightarrow> (string \<times> 'x) list \<Rightarrow> 'r table \<Rightarrow> 'r table \<Rightarrow> bool" where
  "rewrote P items t t' \<longleftrightarrow> map fst t' = map fst t \<and>
     (\<forall>i. case map_of items i of
        None \<Rightarrow> map_of t' i = map_of t i
      | Some x \<Rightarrow> \<exists>f. P i x f \<and> map_of t' i = map_option f (map_of t i))"

lemma rewrote_Nil [simp]: "rewrote P [] t t"
  by (simp add: rewrote_def)

lemma rewrote_Cons:
  assumes "rewrote P items (sql_update i f t) t'" "P i x f" "map_of items i = None"
  shows "rewrote P ((i, x) # items) t t'"
  using assms unfolding rewrote_def
  by (auto simp: map_of_sql_update split: option.splits) (metis option.distinct(1))+

lemma rewrote_look:
  assumes "rewrote P items t t'" "map_of t i = Some r"
  shows "case map_of items i of
      None \<Rightarrow> map_of t' i = Some r
    | Some x \<Rightarrow> \<exists>f. P i x f \<and> map_of t' i = Some (f r)"
  using assms by (auto simp: rewrote_def split: option.splits dest!: spec [of _ i])

definition encrypts :: "Codec \<Rightarrow> (nat \<Rightarrow> string result) \<Rightarrow> string \<Rightarrow> string \<Rightarrow> (project_row \<Rightarrow> project_row) \<Rightarrow> bool" where
  "encrypts cd rands i env f \<longleftrightarrow> (\<exists>k v. secret_encrypt cd (rands k) (projectEnvAAD i) env = Inr v \<and>
     f = (\<lambda>r. r\<lparr>row_env_vars := v\<rparr>))"

lemma v8_write_projects_ok:
  assumes "v8_write_projects cd rands items (n, db) = Inr (n', db')" "distinct (map fst items)"
  shows "(\<exists>t. db' = db\<lparr>db_projects := t\<rparr>) \<and> rewrote (encrypts cd rands) items (db_projects db) (db_projects db')"
  using assms
proof (induction items arbitrary: n db)
  case (Cons x items)
  obtain i env where x: "x = (i, env)" by (cases x)
  from Cons.prems(1) obtain v where v: "secret_encrypt cd (rands n) (projectEnvAAD i) env = Inr v"
    and rest: "v8_write_projects cd rands items
      (Suc n, db\<lparr>db_projects := sql_update i (\<lambda>r. r\<lparr>row_env_vars := v\<rparr>) (db_projects db)\<rparr>) = Inr (n', db')"
    by (auto simp: x split: sum.splits)
  have "distinct (map fst items)" "map_of items i = None"
    using Cons.prems(2) by (auto simp: x map_of_eq_None_iff)
  with Cons.IH [OF rest] v show ?case
    by (auto simp: x encrypts_def intro!: rewrote_Cons)
qed (simp, metis DB.surjective DB.update_convs(1))

definition encrypts_tunnel ::
    "Codec \<Rightarrow> (nat \<Rightarrow> string result) \<Rightarrow> string \<Rightarrow> string \<times> string \<Rightarrow> (Tunnel \<Rightarrow> Tunnel) \<Rightarrow> bool" where
  "encrypts_tunnel cd rands i x f \<longleftrightarrow> (\<exists>n n1 n2 s t.
     v8_encrypt_field cd rands i ''tunnel_secret'' (fst x) n = Inr (n1, s) \<and>
     v8_encrypt_field cd rands i ''cf_api_token'' (snd x) n1 = Inr (n2, t) \<and>
     f = (\<lambda>r. r\<lparr>t_TunnelSecret := s, t_CFAPIToken := t\<rparr>))"

lemma v8_write_tunnels_ok:
  assumes "v8_write_tunnels cd rands items (n, db) = Inr (n', db')" "distinct (map fst items)"
  shows "(\<exists>t. db' = db\<lparr>db_tunnels := t\<rparr>) \<and> rewrote (encrypts_tunnel cd rands) items (db_tunnels db) (db_tunnels db')"
  using assms
proof (induction items arbitrary: n db)
  case (Cons x items)
  obtain i secret token where x: "x = (i, secret, token)" by (cases x)
  from Cons.prems(1) obtain n1 s n2 t where v:
      "v8_encrypt_field cd rands i ''tunnel_secret'' secret n = Inr (n1, s)"
      "v8_encrypt_field cd rands i ''cf_api_token'' token n1 = Inr (n2, t)"
    and rest: "v8_write_tunnels cd rands items
      (n2, db\<lparr>db_tunnels := sql_update i (\<lambda>r. r\<lparr>t_TunnelSecret := s, t_CFAPIToken := t\<rparr>) (db_tunnels db)\<rparr>) = Inr (n', db')"
    by (auto simp: x split: sum.splits)
  have e: "encrypts_tunnel cd rands i (secret, token) (\<lambda>r. r\<lparr>t_TunnelSecret := s, t_CFAPIToken := t\<rparr>)"
    unfolding encrypts_tunnel_def fst_conv snd_conv by (intro exI conjI) (rule v(1), rule v(2), rule refl)
  have "distinct (map fst items)" "map_of items i = None"
    using Cons.prems(2) by (auto simp: x map_of_eq_None_iff)
  with Cons.IH [OF rest] e show ?case
    by (auto simp: x intro!: rewrote_Cons)
qed (simp, metis DB.surjective DB.update_convs(5))

section \<open>What the encryption keeps\<close>

text \<open>The text that a stored environment stands for, and that of a credential.\<close>

definition env_view :: "Codec \<Rightarrow> string \<Rightarrow> string \<Rightarrow> string result" where
  "env_view cd i stored =
     (if isEncryptedSecret stored then secret_decrypt cd (projectEnvAAD i) stored else Inr (plain_env_text stored))"

definition field_view :: "Codec \<Rightarrow> string \<Rightarrow> string \<Rightarrow> string \<Rightarrow> string result" where
  "field_view cd i field stored =
     (if stored \<noteq> '''' \<and> isEncryptedSecret stored then secret_decrypt cd (tunnelSecretAAD i field) stored else Inr stored)"

definition secret_stored :: "string \<Rightarrow> bool" where
  "secret_stored v \<longleftrightarrow> v = '''' \<or> isEncryptedSecret v"

lemma encrypt_field_view:
  assumes "aead_ok cd" "\<And>k. rand_ok cd (rands k)" "v8_encrypt_field cd rands i field stored n = Inr (n', v)"
  shows "secret_stored v \<and> field_view cd i field v = field_view cd i field stored"
proof (cases "stored \<noteq> '''' \<and> \<not> isEncryptedSecret stored")
  case True
  then obtain n0 where e: "secret_encrypt cd (rands n0) (tunnelSecretAAD i field) stored = Inr v"
    using assms(3) by (auto simp: v8_encrypt_field_def split: sum.splits)
  have "isEncryptedSecret v" using e by (rule secret_encrypt_isEncrypted)
  moreover have "v \<noteq> ''''" using calculation by (auto simp: isEncryptedSecret_def secretPrefix_def HasPrefix_def)
  ultimately show ?thesis
    using secret_decrypt_encrypt [OF assms(1,2) e] True by (simp add: secret_stored_def field_view_def)
next
  case False
  then show ?thesis using assms(3) by (auto simp: v8_encrypt_field_def secret_stored_def)
qed

text \<open>The result of the migration of one row.\<close>

definition project_sealed :: "Codec \<Rightarrow> string \<Rightarrow> project_row \<Rightarrow> project_row \<Rightarrow> bool" where
  "project_sealed cd i r r' \<longleftrightarrow> (\<exists>v. r' = r\<lparr>row_env_vars := v\<rparr> \<and> isEncryptedSecret v \<and>
     secret_decrypt cd (projectEnvAAD i) v = env_view cd i (row_env_vars r))"

definition tunnel_sealed :: "Codec \<Rightarrow> string \<Rightarrow> Tunnel \<Rightarrow> Tunnel \<Rightarrow> bool" where
  "tunnel_sealed cd i t t' \<longleftrightarrow> (\<exists>s k. t' = t\<lparr>t_TunnelSecret := s, t_CFAPIToken := k\<rparr> \<and>
     secret_stored s \<and> secret_stored k \<and>
     field_view cd i ''tunnel_secret'' s = field_view cd i ''tunnel_secret'' (t_TunnelSecret t) \<and>
     field_view cd i ''cf_api_token'' k = field_view cd i ''cf_api_token'' (t_CFAPIToken t))"

lemma v8_project_cases:
  assumes "v8_project F cd (i, r) = Inr a"
  obtains "\<not> isEncryptedSecret (row_env_vars r)" "a = Some (i, plain_env_text (row_env_vars r))"
  | plain where "isEncryptedSecret (row_env_vars r)" "secret_decrypt cd (projectEnvAAD i) (row_env_vars r) = Inr plain"
    "fm_valid F plain" "a = None"
  using assms by (auto simp: v8_project_def split: if_splits sum.splits)

lemma v8_field_False: "v8_field cd i field what stored = Inr False \<Longrightarrow> secret_stored stored"
  by (auto simp: v8_field_def secret_stored_def split: if_splits)

lemma migrateV8_seals:
  assumes "migrateV8Secrets F cd rands cn = (Inr changed, cn')"
    "aead_ok cd" "\<And>k. rand_ok cd (rands k)" "table_ok (db_projects (cn_db cn))" "table_ok (db_tunnels (cn_db cn))"
  shows "map fst (db_projects (cn_db cn')) = map fst (db_projects (cn_db cn))"
    and "map fst (db_tunnels (cn_db cn')) = map fst (db_tunnels (cn_db cn))"
    and "map_of (db_projects (cn_db cn)) i = Some r \<Longrightarrow>
      \<exists>r'. map_of (db_projects (cn_db cn')) i = Some r' \<and> project_sealed cd i r r'"
    and "map_of (db_tunnels (cn_db cn)) j = Some t \<Longrightarrow>
      \<exists>t'. map_of (db_tunnels (cn_db cn')) j = Some t' \<and> tunnel_sealed cd j t t'"
    and "changed \<Longrightarrow> cn_cleanup cn' = Some True"
proof -
  let ?p = "db_projects (cn_db cn)" and ?t = "db_tunnels (cn_db cn)"
  obtain ps ts where c: "collect (v8_project F cd) ?p = Inr ps" "collect (v8_tunnel cd) ?t = Inr ts"
    using assms(1) by (auto simp: migrateV8Secrets_def split: sum.splits)
  have kp: "fst a = i" if "v8_project F cd (i, r) = Inr (Some a)" for i r a
    using that by (auto elim!: v8_project_cases)
  have kt: "fst a = i" if "v8_tunnel cd (i, r) = Inr (Some a)" for i r a
    using that by (auto simp: v8_tunnel_def split: sum.splits if_splits)
  have P: "distinct (map fst ps)" "map_of ?p i = Some r \<Longrightarrow> \<exists>a. v8_project F cd (i, r) = Inr a \<and> map_of ps i = map_option snd a"
    for i r using collect_keyed [OF c(1) assms(4)] kp by blast+
  have T: "distinct (map fst ts)" "map_of ?t i = Some r \<Longrightarrow> \<exists>a. v8_tunnel cd (i, r) = Inr a \<and> map_of ts i = map_option snd a"
    for i r using collect_keyed [OF c(2) assms(5)] kt by blast+
  have R: "rewrote (encrypts cd rands) ps ?p (db_projects (cn_db cn')) \<and>
    rewrote (encrypts_tunnel cd rands) ts ?t (db_tunnels (cn_db cn')) \<and> (changed \<longrightarrow> cn_cleanup cn' = Some True)"
  proof (cases "ps = [] \<and> ts = []")
    case True
    then show ?thesis using assms(1) c by (simp add: migrateV8Secrets_def)
  next
    case False
    then obtain n d1 n2 d2 where w: "v8_write_projects cd rands ps (0, cn_db cn) = Inr (n, d1)"
      "v8_write_tunnels cd rands ts (n, d1) = Inr (n2, d2)" "cn' = cn\<lparr>cn_db := d2, cn_cleanup := Some True\<rparr>"
      using assms(1) c by (auto simp: migrateV8Secrets_def split: sum.splits)
    from v8_write_projects_ok [OF w(1) P(1)] v8_write_tunnels_ok [OF w(2) T(1)] w(3) show ?thesis by auto
  qed
  then show "map fst (db_projects (cn_db cn')) = map fst ?p" "map fst (db_tunnels (cn_db cn')) = map fst ?t"
    "changed \<Longrightarrow> cn_cleanup cn' = Some True" by (auto simp: rewrote_def)
  show "\<exists>r'. map_of (db_projects (cn_db cn')) i = Some r' \<and> project_sealed cd i r r'" if i: "map_of ?p i = Some r"
  proof -
    obtain a where a: "v8_project F cd (i, r) = Inr a" "map_of ps i = map_option snd a" using P(2) [OF i] by blast
    note look = rewrote_look [OF R [THEN conjunct1] i]
    from a(1) show ?thesis
    proof (cases rule: v8_project_cases)
      case 1
      with a(2) look obtain k v where "secret_encrypt cd (rands k) (projectEnvAAD i) (plain_env_text (row_env_vars r)) = Inr v"
        "map_of (db_projects (cn_db cn')) i = Some (r\<lparr>row_env_vars := v\<rparr>)" by (auto simp: encrypts_def)
      with secret_decrypt_encrypt [OF assms(2,3) this(1)] 1(1) secret_encrypt_isEncrypted show ?thesis
        by (auto simp: project_sealed_def env_view_def)
    next
      case (2 plain)
      with a(2) look have "map_of (db_projects (cn_db cn')) i = Some r" by simp
      moreover have "project_sealed cd i r r"
        using 2(1) unfolding project_sealed_def env_view_def by (intro exI [of _ "row_env_vars r"]) simp
      ultimately show ?thesis by blast
    qed
  qed
  show "\<exists>t'. map_of (db_tunnels (cn_db cn')) j = Some t' \<and> tunnel_sealed cd j t t'" if j: "map_of ?t j = Some t"
  proof -
    obtain a where a: "v8_tunnel cd (j, t) = Inr a" "map_of ts j = map_option snd a" using T(2) [OF j] by blast
    note look = rewrote_look [OF R [THEN conjunct2, THEN conjunct1] j]
    show ?thesis
    proof (cases a)
      case None
      then have "secret_stored (t_TunnelSecret t)" "secret_stored (t_CFAPIToken t)"
        using a(1) by (auto simp: v8_tunnel_def intro: v8_field_False split: sum.splits if_splits)
      then have "tunnel_sealed cd j t t"
        unfolding tunnel_sealed_def by (intro exI [of _ "t_TunnelSecret t"] exI [of _ "t_CFAPIToken t"]) simp
      with None a(2) look show ?thesis by auto
    next
      case (Some b)
      then have "snd b = (t_TunnelSecret t, t_CFAPIToken t)"
        using a(1) by (auto simp: v8_tunnel_def split: sum.splits if_splits)
      with Some a(2) look obtain n n1 n2 s k where e:
        "v8_encrypt_field cd rands j ''tunnel_secret'' (t_TunnelSecret t) n = Inr (n1, s)"
        "v8_encrypt_field cd rands j ''cf_api_token'' (t_CFAPIToken t) n1 = Inr (n2, k)"
        "map_of (db_tunnels (cn_db cn')) j = Some (t\<lparr>t_TunnelSecret := s, t_CFAPIToken := k\<rparr>)"
        by (auto simp: encrypts_tunnel_def)
      from encrypt_field_view [OF assms(2,3) e(1)] encrypt_field_view [OF assms(2,3) e(2)] e(3) show ?thesis
        unfolding tunnel_sealed_def by blast
    qed
  qed
qed

lemma v9_write_ok:
  assumes "distinct (map fst items)"
  shows "(\<exists>t. v9_write items db = db\<lparr>db_projects := t\<rparr>) \<and>
    rewrote (\<lambda>i keys f. f = (\<lambda>r. r\<lparr>row_secret_env_keys := JsonKeys keys\<rparr>)) items
      (db_projects db) (db_projects (v9_write items db))"
  using assms
proof (induction items arbitrary: db)
  case (Cons x items)
  obtain i keys where x: "x = (i, keys)" by (cases x)
  have "distinct (map fst items)" "map_of items i = None"
    using Cons.prems by (auto simp: x map_of_eq_None_iff)
  with Cons.IH [of "db\<lparr>db_projects := sql_update i (\<lambda>r. r\<lparr>row_secret_env_keys := JsonKeys keys\<rparr>) (db_projects db)\<rparr>"]
  show ?case by (auto simp: x intro!: rewrote_Cons)
qed (simp, metis DB.surjective DB.update_convs(1))

text \<open>The classification of one row.\<close>

definition project_classified :: "Codec \<Rightarrow> string \<Rightarrow> project_row \<Rightarrow> project_row \<Rightarrow> bool" where
  "project_classified cd i r r' \<longleftrightarrow>
     (if row_secret_env_keys r = SqlNull
      then \<exists>envs. decodeProjectEnv cd i (row_env_vars r) = Inr envs \<and>
        r' = r\<lparr>row_secret_env_keys := JsonKeys (sort (map fst envs))\<rparr>
      else r' = r)"

lemma migrateV9_classifies:
  assumes "migrateV9SecretEnvKeys cd cn = (Inr (), cn')" "table_ok (db_projects (cn_db cn))"
  shows "\<exists>t. cn' = cn\<lparr>cn_db := (cn_db cn)\<lparr>db_projects := t\<rparr>\<rparr> \<and> map fst t = map fst (db_projects (cn_db cn)) \<and>
    (\<forall>i r. map_of (db_projects (cn_db cn)) i = Some r \<longrightarrow>
       (\<exists>r'. map_of t i = Some r' \<and> project_classified cd i r r'))"
proof -
  let ?p = "db_projects (cn_db cn)"
  obtain ps where c: "collect (v9_project cd) ?p = Inr ps" and cn': "cn' = cn\<lparr>cn_db := v9_write ps (cn_db cn)\<rparr>"
    using assms(1) by (auto simp: migrateV9SecretEnvKeys_def split: sum.splits)
  have k: "fst a = i" if "v9_project cd (i, r) = Inr (Some a)" for i r a
    using that by (auto simp: v9_project_def split: sum.splits if_splits)
  have P: "distinct (map fst ps)" "map_of ?p i = Some r \<Longrightarrow> \<exists>a. v9_project cd (i, r) = Inr a \<and> map_of ps i = map_option snd a"
    for i r using collect_keyed [OF c assms(2)] k by blast+
  from v9_write_ok [OF P(1), of "cn_db cn"] obtain t where t: "v9_write ps (cn_db cn) = (cn_db cn)\<lparr>db_projects := t\<rparr>"
    "rewrote (\<lambda>i keys f. f = (\<lambda>r. r\<lparr>row_secret_env_keys := JsonKeys keys\<rparr>)) ps ?p t" by auto
  show ?thesis
  proof (intro exI [of _ t] conjI allI impI)
    show "map fst t = map fst ?p" using t(2) by (simp add: rewrote_def)
    fix i r assume i: "map_of ?p i = Some r"
    from rewrote_look [OF t(2) i] P(2) [OF i] show "\<exists>r'. map_of t i = Some r' \<and> project_classified cd i r r'"
      by (auto simp: project_classified_def v9_project_def split: if_splits sum.splits)
  qed (simp add: cn' t(1))
qed

section \<open>The whole migration\<close>

text \<open>What the keys of the schema promise of a database, encrypted or not.\<close>

definition schema_ok :: "DB \<Rightarrow> bool" where
  "schema_ok db \<longleftrightarrow>
     table_ok (db_projects db) \<and> rows_all (\<lambda>i r. p_ID (row_project r) = i) (db_projects db) \<and>
     states_ok db \<and> deployments_ok db \<and> backup_runs_ok db \<and>
     table_ok (db_tunnels db) \<and> rows_all (\<lambda>i t. t_ID t = i) (db_tunnels db)"

text \<open>The database before anything is encrypted.\<close>

abbreviation form_data :: "Formats \<Rightarrow> Codec \<Rightarrow> Conn \<Rightarrow> Conn" where
  "form_data F cd cn \<equiv> migrateV4CustomToForm F cd (migrateV3Data cn)"

lemma fst_v3_v4 [simp]: "fst (v3_project cn x) = fst x" "fst (v4_project F cd x) = fst x"
  by (auto simp: v3_project_def v4_project_def Let_def split: prod.splits)

lemma form_data_keys: "table_ok (db_projects (cn_db (form_data F cd cn))) = table_ok (db_projects (cn_db cn))"
    "db_tunnels (cn_db (form_data F cd cn)) = db_tunnels (cn_db cn)"
    "map fst (db_projects (cn_db (form_data F cd cn))) = map fst (db_projects (cn_db cn))"
  by (simp_all add: migrateV4CustomToForm_def migrateV3Data_def table_ok_def comp_def)

lemma rows_all_map:
  assumes "\<And>x. fst (f x) = fst x" "\<And>i r. P i r \<Longrightarrow> P i (snd (f (i, r)))" "rows_all P t"
  shows "rows_all P (map f t)"
  using assms(3)
proof (induction t)
  case (Cons x t)
  obtain a b r where x: "x = (a, b)" "f (a, b) = (a, r)" using assms(1) [of "(a, b)" for a b] by (metis prod.collapse fst_conv)
  then show ?case using Cons assms(2) [of a b] by (simp add: rows_all_def)
qed simp

lemma schema_ok_form_data:
  assumes "schema_ok (cn_db cn)"
  shows "schema_ok (cn_db (form_data F cd cn))"
proof -
  have p: "p_ID (row_project (snd (v4_project F cd (v3_project cn (i, r))))) = p_ID (row_project r)" for i r
    by (auto simp: v3_project_def v4_project_def Let_def split: option.split)
  have s: "fst (v3_state cn x) = fst x" for x
    by (cases x; cases "cn_state_digests cn (fst x)") (simp add: v3_state_def)
  have s': "st_ProjectID (snd (v3_state cn (i, r))) = st_ProjectID r" for i r
    by (cases "cn_state_digests cn i") (simp add: v3_state_def)
  have d: "d_ID (v3_deployment cn x) = d_ID x" "d_ProjectID (v3_deployment cn x) = d_ProjectID x" for x
    by (cases "cn_deploy_digests cn (d_ID x)"; simp add: v3_deployment_def)+
  let ?b = "cn_db (form_data F cd cn)"
  have keys: "table_keys (db_projects ?b) = table_keys (db_projects (cn_db cn))"
    unfolding table_keys_def set_map [symmetric] form_data_keys(3) by (rule refl)
  have ps: "db_projects ?b = map (\<lambda>x. v4_project F cd (v3_project cn x)) (db_projects (cn_db cn))"
    by (simp add: migrateV4CustomToForm_def migrateV3Data_def comp_def)
  have st: "db_states ?b = map (v3_state cn) (db_states (cn_db cn))"
    by (simp add: migrateV4CustomToForm_def migrateV3Data_def)
  have "rows_all (\<lambda>i r. p_ID (row_project r) = i) (db_projects ?b)"
    unfolding ps using assms by (intro rows_all_map) (simp_all add: p schema_ok_def)
  moreover have "rows_all (\<lambda>i s. st_ProjectID s = i) (db_states ?b)"
    unfolding st using assms by (intro rows_all_map) (simp_all add: s s' schema_ok_def states_ok_def)
  moreover have "map fst (db_states ?b) = map fst (db_states (cn_db cn))" by (simp add: st s comp_def)
  ultimately have "states_ok ?b" "rows_all (\<lambda>i r. p_ID (row_project r) = i) (db_projects ?b)"
    using assms keys by (simp_all add: schema_ok_def states_ok_def table_ok_def table_keys_def flip: set_map)
  moreover have "deployments_ok ?b" "backup_runs_ok ?b"
    using assms d keys unfolding schema_ok_def deployments_ok_def backup_runs_ok_def
    by (simp_all add: migrateV4CustomToForm_def migrateV3Data_def comp_def)
  ultimately show ?thesis using assms by (simp add: schema_ok_def form_data_keys(1,2))
qed

lemma migrate_steps:
  assumes "migrate F cd rands M cn = (Inr (), cn')"
  obtains changed c8 c9 where "migrateV8Secrets F cd rands (start_cleanup (form_data F cd cn)) = (Inr changed, c8)"
    "c9 = c8\<lparr>cn_cleanup := Some False\<rparr>" "cn_cleanup c8 = Some True \<Longrightarrow> clean_up M = Inr ()"
    "migrateV9SecretEnvKeys cd c9 = (Inr (), cn')"
proof -
  obtain changed c8 where v8: "migrateV8Secrets F cd rands (start_cleanup (form_data F cd cn)) = (Inr changed, c8)"
    using assms by (auto simp: migrate_def split: prod.splits sum.splits)
  have some: "cn_cleanup c8 \<noteq> None"
    using v8 by (auto simp: migrateV8Secrets_def start_cleanup_def split: sum.splits if_splits option.splits prod.splits)
  show thesis
  proof (cases "cn_cleanup c8 = Some True")
    case True
    then show thesis using assms v8 by (intro that [OF v8 refl]) (auto simp: migrate_def split: sum.splits)
  next
    case False
    then have "c8\<lparr>cn_cleanup := Some False\<rparr> = c8" using some by (cases "cn_cleanup c8") auto
    then show thesis using False assms v8 by (intro that [OF v8 refl]) (auto simp: migrate_def)
  qed
qed

lemma migration_result:
  assumes "migrate F cd rands M cn = (Inr (), cn')" "aead_ok cd" "\<forall>k. rand_ok cd (rands k)" "schema_ok (cn_db cn)"
  shows "cn_cleanup cn' = Some False \<and>
    map fst (db_projects (cn_db cn')) = map fst (db_projects (cn_db cn)) \<and>
    map fst (db_tunnels (cn_db cn')) = map fst (db_tunnels (cn_db cn)) \<and>
    (\<forall>i r. map_of (db_projects (cn_db (form_data F cd cn))) i = Some r \<longrightarrow>
       (\<exists>r1 r'. project_sealed cd i r r1 \<and> project_classified cd i r1 r' \<and>
          map_of (db_projects (cn_db cn')) i = Some r')) \<and>
    (\<forall>i t. map_of (db_tunnels (cn_db cn)) i = Some t \<longrightarrow>
       (\<exists>t'. tunnel_sealed cd i t t' \<and> map_of (db_tunnels (cn_db cn')) i = Some t'))"
proof -
  let ?b = "form_data F cd cn"
  obtain changed c8 c9 where s: "migrateV8Secrets F cd rands (start_cleanup ?b) = (Inr changed, c8)"
    "c9 = c8\<lparr>cn_cleanup := Some False\<rparr>" "migrateV9SecretEnvKeys cd c9 = (Inr (), cn')"
    using migrate_steps [OF assms(1)] by metis
  have db: "cn_db (start_cleanup ?b) = cn_db ?b" "cn_db c9 = cn_db c8" by (simp_all add: start_cleanup_def s(2))
  have ok: "table_ok (db_projects (cn_db ?b))" "table_ok (db_tunnels (cn_db ?b))"
    using assms(4) by (simp_all add: form_data_keys schema_ok_def)
  have r: "\<And>k. rand_ok cd (rands k)" using assms(3) by blast
  note v8 = migrateV8_seals [OF s(1) assms(2) r, unfolded db, OF ok]
  have "table_ok (db_projects (cn_db c9))" using ok(1) v8(1) by (simp add: table_ok_def db)
  from migrateV9_classifies [OF s(3) this] obtain t where t: "cn' = c9\<lparr>cn_db := (cn_db c9)\<lparr>db_projects := t\<rparr>\<rparr>"
    "map fst t = map fst (db_projects (cn_db c9))"
    and cl: "\<And>i r. map_of (db_projects (cn_db c9)) i = Some r \<Longrightarrow> \<exists>r'. map_of t i = Some r' \<and> project_classified cd i r r'"
    by blast
  have keys: "map fst (db_projects (cn_db ?b)) = map fst (db_projects (cn_db cn))"
    by (simp add: migrateV4CustomToForm_def migrateV3Data_def comp_def)
  show ?thesis
  proof (intro conjI allI impI)
    fix i r assume "map_of (db_projects (cn_db ?b)) i = Some r"
    from v8(3) [OF this] cl show "\<exists>r1 r'. project_sealed cd i r r1 \<and> project_classified cd i r1 r' \<and>
        map_of (db_projects (cn_db cn')) i = Some r'" by (fastforce simp: t(1) db)
  next
    fix i u assume "map_of (db_tunnels (cn_db cn)) i = Some u"
    with v8(4) [of i u] show "\<exists>t'. tunnel_sealed cd i u t' \<and> map_of (db_tunnels (cn_db cn')) i = Some t'"
      by (auto simp: t(1) db form_data_keys)
  qed (use t v8(1,2) keys in \<open>simp_all add: s(2) db form_data_keys\<close>)
qed


section \<open>A second start\<close>

text \<open>\<open>json.Unmarshal\<close> checks the text first, and \<open>json.Marshal\<close> writes valid JSON.\<close>

definition formats_ok :: "Formats \<Rightarrow> Codec \<Rightarrow> bool" where
  "formats_ok F cd \<longleftrightarrow>
     (\<forall>s m. cd_unmarshal_env cd s = Some m \<longrightarrow> fm_valid F s) \<and> (\<forall>m. fm_valid F (cd_marshal_env cd m)) \<and>
     fm_valid F ''{}''"

text \<open>Plain environments that are not valid JSON belong to projects that were never classified.\<close>

definition plain_ok :: "Formats \<Rightarrow> DB \<Rightarrow> bool" where
  "plain_ok F db \<longleftrightarrow> list_all (\<lambda>(i, r). isEncryptedSecret (row_env_vars r) \<or> row_secret_env_keys r = SqlNull \<or>
     fm_valid F (plain_env_text (row_env_vars r))) (db_projects db)"

lemma map_fixpoint: "(\<And>x. x \<in> set xs \<Longrightarrow> f x = x) \<Longrightarrow> map f xs = xs"
  by (simp add: map_idI)

lemma v4_env_valid:
  "formats_ok F cd \<Longrightarrow> plain_ok F db \<Longrightarrow> (i, r) \<in> set (map (v4_project F cd) (db_projects db)) \<Longrightarrow>
   isEncryptedSecret (row_env_vars r) \<or> row_secret_env_keys r = SqlNull \<or>
     fm_valid F (plain_env_text (row_env_vars r)) \<or> fm_valid F (row_env_vars r)"
  unfolding plain_ok_def list_all_iff formats_ok_def
  by (auto simp: v4_project_def Let_def split: if_splits option.splits)

text \<open>What the first migration leaves for the second to read.\<close>

definition settled :: "Formats \<Rightarrow> Codec \<Rightarrow> DB \<Rightarrow> bool" where
  "settled F cd db \<longleftrightarrow>
     list_all (\<lambda>(i, r). row_secret_env_keys r \<noteq> SqlNull \<and> isEncryptedSecret (row_env_vars r) \<and>
       (\<exists>plain. secret_decrypt cd (projectEnvAAD i) (row_env_vars r) = Inr plain \<and> fm_valid F plain)) (db_projects db) \<and>
     list_all (\<lambda>(i, t). v8_field cd i ''tunnel_secret'' ''secret'' (t_TunnelSecret t) = Inr False \<and>
       v8_field cd i ''cf_api_token'' ''API token'' (t_CFAPIToken t) = Inr False) (db_tunnels db)"

lemma settled_v8: "settled F cd (cn_db cn) \<Longrightarrow> migrateV8Secrets F cd rands cn = (Inr False, cn)"
proof -
  assume s: "settled F cd (cn_db cn)"
  have "collect (v8_project F cd) (db_projects (cn_db cn)) = Inr []"
    using s by (intro collect_all) (auto simp: settled_def list_all_iff v8_project_def split: sum.split)
  moreover have "collect (v8_tunnel cd) (db_tunnels (cn_db cn)) = Inr []"
    using s by (intro collect_all) (auto simp: settled_def list_all_iff v8_tunnel_def)
  ultimately show ?thesis by (simp add: migrateV8Secrets_def)
qed

lemma settled_v9: "settled F cd (cn_db cn) \<Longrightarrow> migrateV9SecretEnvKeys cd cn = (Inr (), cn)"
proof -
  assume s: "settled F cd (cn_db cn)"
  have "collect (v9_project cd) (db_projects (cn_db cn)) = Inr []"
    using s by (intro collect_all) (auto simp: settled_def list_all_iff v9_project_def)
  then show ?thesis by (simp add: migrateV9SecretEnvKeys_def)
qed

text \<open>Nothing is left for v3 and v4 to change.\<close>

definition forms_settled :: "Formats \<Rightarrow> Conn \<Rightarrow> bool" where
  "forms_settled F cn \<longleftrightarrow>
     list_all (\<lambda>(i, r). \<not> v3_selected cn i (row_project r) \<and> \<not> v4_selected F (row_project r)) (db_projects (cn_db cn)) \<and>
     (\<forall>i. cn_current_empty cn i \<longrightarrow> fst (cn_state_digests cn i) = '''') \<and>
     (\<forall>n. cn_from_empty cn n \<longrightarrow> fst (cn_deploy_digests cn n) = '''') \<and>
     list_all (\<lambda>d. v3_deployment cn d = d) (db_deployments (cn_db cn))"

lemma v4_unselected: "\<not> v4_selected F (row_project r) \<Longrightarrow> v4_project F cd (i, r) = (i, r)"
  by (auto simp: v4_project_def v4_selected_def Let_def split: option.splits)

lemma v3_unselected: "\<not> v3_selected cn i (row_project r) \<Longrightarrow> v3_project cn (i, r) = (i, r)"
  by (simp add: v3_project_def Let_def)

lemma v3_state_unselected:
  "(cn_current_empty cn i \<longrightarrow> fst (cn_state_digests cn i) = '''') \<Longrightarrow> v3_state cn (i, s) = (i, s)"
  by (cases "cn_state_digests cn i") (auto simp: v3_state_def)

lemma forms_settled_id:
  assumes "forms_settled F cn"
  shows "form_data F cd cn = cn"
proof -
  have p: "map (v3_project cn) (db_projects (cn_db cn)) = db_projects (cn_db cn)"
    "map (v4_project F cd) (db_projects (cn_db cn)) = db_projects (cn_db cn)"
    using assms by (auto intro!: map_fixpoint simp: forms_settled_def list_all_iff v3_unselected v4_unselected)
  have st: "map (v3_state cn) (db_states (cn_db cn)) = db_states (cn_db cn)"
    using assms by (auto intro!: map_fixpoint v3_state_unselected simp: forms_settled_def)
  have dp: "map (v3_deployment cn) (db_deployments (cn_db cn)) = db_deployments (cn_db cn)"
    using assms by (auto intro!: map_fixpoint simp: forms_settled_def list_all_iff)
  have look: "\<not> v3_selected cn i (row_project r) \<and> \<not> v4_selected F (row_project r)"
    if "map_of (db_projects (cn_db cn)) i = Some r" for i r
    using assms map_of_SomeD [OF that] by (auto simp: forms_settled_def list_all_iff)
  have "migrateV3Data cn = cn"
    using assms look by (auto simp: migrateV3Data_def p st dp forms_settled_def fun_eq_iff split: option.split intro!: Conn.equality)
  moreover have "migrateV4CustomToForm F cd cn = cn"
    using look by (auto simp: migrateV4CustomToForm_def p fun_eq_iff split: option.split intro!: Conn.equality)
  ultimately show ?thesis by simp
qed

lemma in_map_of: "table_ok t \<Longrightarrow> (i, r) \<in> set t \<Longrightarrow> map_of t i = Some r"
  by (simp add: table_ok_def)

lemma map_of_keyed:
  assumes "\<And>x. fst (f x) = fst x"
  shows "map_of (map f t) i = map_option (\<lambda>r. snd (f (i, r))) (map_of t i)"
proof (induction t)
  case (Cons x t)
  obtain a b where x: "x = (a, b)" by (cases x)
  have "f (a, b) = (a, snd (f (a, b)))" using assms [of "(a, b)"] by (simp add: prod_eq_iff)
  then have "map_of (map f (x # t)) i = (if i = a then Some (snd (f (a, b))) else map_of (map f t) i)"
    unfolding x by (metis fun_upd_apply list.simps(9) map_of.simps(2) prod.sel)
  then show ?case using Cons by (simp add: x)
qed simp

lemma v3_deployment_twice:
  assumes "\<And>n. cn_deploy_digests cn' n = cn_deploy_digests cn n"
    "\<And>n. cn_from_empty cn' n \<Longrightarrow> cn_from_empty cn n"
  shows "v3_deployment cn' (v3_deployment cn d) = v3_deployment cn d"
  using assms by (cases "cn_deploy_digests cn (d_ID d)") (auto simp: v3_deployment_def)

text \<open>What the later steps leave of the old columns.\<close>

lemma form_data_settled:
  assumes "table_ok (db_projects (cn_db cn))"
    and "cn_services_empty cn' = cn_services_empty (form_data F cd cn)"
      "cn_current_empty cn' = cn_current_empty (form_data F cd cn)"
      "cn_state_digests cn' = cn_state_digests (form_data F cd cn)"
      "cn_from_empty cn' = cn_from_empty (form_data F cd cn)"
      "cn_deploy_digests cn' = cn_deploy_digests (form_data F cd cn)"
      "db_deployments (cn_db cn') = db_deployments (cn_db (form_data F cd cn))"
    and "\<And>i r'. map_of (db_projects (cn_db cn')) i = Some r' \<Longrightarrow>
      \<exists>r. map_of (db_projects (cn_db (form_data F cd cn))) i = Some r \<and> row_project r' = row_project r"
    and "table_ok (db_projects (cn_db cn'))"
  shows "forms_settled F cn'"
proof -
  have row: "\<not> v3_selected cn' i (row_project r') \<and> \<not> v4_selected F (row_project r')"
    if h: "(i, r') \<in> set (db_projects (cn_db cn'))" for i r'
  proof -
    obtain r4 where r4: "map_of (db_projects (cn_db (form_data F cd cn))) i = Some r4" "row_project r' = row_project r4"
      using assms(8) in_map_of [OF assms(9) h] by blast
    then obtain r where r: "map_of (db_projects (cn_db cn)) i = Some r"
      "r4 = snd (v4_project F cd (v3_project cn (i, r)))"
      by (auto simp: migrateV4CustomToForm_def migrateV3Data_def map_of_keyed)
    show ?thesis
      using r r4(2) assms(2)
      by (auto simp: v3_selected_def v4_selected_def v4_project_def v3_project_def Let_def migrateV4CustomToForm_def
          migrateV3Data_def map_of_keyed split: option.splits if_splits)
  qed
  have dep: "v3_deployment cn' d = d" if "d \<in> set (db_deployments (cn_db cn'))" for d
    using that assms(5-7) by (auto simp: migrateV4CustomToForm_def migrateV3Data_def intro!: v3_deployment_twice)
  show ?thesis
    using row dep assms(3-6) by (auto simp: forms_settled_def list_all_iff migrateV4CustomToForm_def migrateV3Data_def)
qed

lemma v8_checked:
  assumes "migrateV8Secrets F cd rands cn = (Inr changed, cn')"
  shows "(i, r) \<in> set (db_projects (cn_db cn)) \<Longrightarrow> \<exists>a. v8_project F cd (i, r) = Inr a"
    and "(i, t) \<in> set (db_tunnels (cn_db cn)) \<Longrightarrow> \<exists>a. v8_tunnel cd (i, t) = Inr a"
  using assms collect_ok [of "v8_project F cd"] collect_ok [of "v8_tunnel cd"]
  by (fastforce simp: migrateV8Secrets_def split: sum.splits)+

lemma v8_field_sealed:
  assumes "v8_field cd i field what old = Inr b" "secret_stored v" "field_view cd i field v = field_view cd i field old"
  shows "v8_field cd i field what' v = Inr False"
proof -
  obtain plain where "field_view cd i field old = Inr plain"
    using assms(1) by (auto simp: v8_field_def field_view_def split: if_splits sum.splits)
  then show ?thesis
    using assms(2,3) by (auto simp: v8_field_def field_view_def secret_stored_def)
qed

lemma env_view_valid:
  assumes "v8_project F cd (i, r) = Inr a" "formats_ok F cd"
    and "isEncryptedSecret (row_env_vars r) \<or> fm_valid F (plain_env_text (row_env_vars r)) \<or> fm_valid F (row_env_vars r)"
  shows "\<exists>plain. env_view cd i (row_env_vars r) = Inr plain \<and> fm_valid F plain"
  using assms(1)
proof (cases rule: v8_project_cases)
  case 1
  then have "fm_valid F (plain_env_text (row_env_vars r))"
    using assms(2,3) by (auto simp: plain_env_text_def formats_ok_def)
  then show ?thesis using 1 by (simp add: env_view_def)
qed (auto simp: env_view_def)

lemma decode_valid: "decodeProjectEnv cd i v = Inr m \<Longrightarrow> formats_ok F cd \<Longrightarrow>
   \<exists>plain. secret_decrypt cd (projectEnvAAD i) v = Inr plain \<and> fm_valid F plain"
  by (auto simp: decodeProjectEnv_def formats_ok_def split: sum.splits option.splits)

text \<open>What the encryption and the classification do not touch.\<close>

lemma v8_leaves:
  assumes "migrateV8Secrets F cd rands cn = (Inr changed, cn')" "table_ok (db_projects (cn_db cn))"
    "table_ok (db_tunnels (cn_db cn))"
  shows "\<exists>p t c. cn' = cn\<lparr>cn_db := (cn_db cn)\<lparr>db_projects := p, db_tunnels := t\<rparr>, cn_cleanup := c\<rparr>"
proof -
  obtain ps ts where c: "collect (v8_project F cd) (db_projects (cn_db cn)) = Inr ps"
    "collect (v8_tunnel cd) (db_tunnels (cn_db cn)) = Inr ts"
    using assms(1) by (auto simp: migrateV8Secrets_def split: sum.splits)
  have k: "fst a = i" if "v8_project F cd (i, r) = Inr (Some a)" for i r a
    using that by (auto elim!: v8_project_cases)
  have k': "fst a = i" if "v8_tunnel cd (i, r) = Inr (Some a)" for i r a
    using that by (auto simp: v8_tunnel_def split: sum.splits if_splits)
  have d: "distinct (map fst ps)" "distinct (map fst ts)"
    using collect_keyed(1) [OF c(1) assms(2)] collect_keyed(1) [OF c(2) assms(3)] k k' by blast+
  show ?thesis
  proof (cases "ps = [] \<and> ts = []")
    case True
    then have "cn' = cn\<lparr>cn_db := (cn_db cn)\<lparr>db_projects := db_projects (cn_db cn), db_tunnels := db_tunnels (cn_db cn)\<rparr>,
        cn_cleanup := cn_cleanup cn\<rparr>"
      using assms(1) c by (simp add: migrateV8Secrets_def)
    then show ?thesis by blast
  next
    case False
    then obtain n d1 n2 d2 where w: "v8_write_projects cd rands ps (0, cn_db cn) = Inr (n, d1)"
      "v8_write_tunnels cd rands ts (n, d1) = Inr (n2, d2)" "cn' = cn\<lparr>cn_db := d2, cn_cleanup := Some True\<rparr>"
      using assms(1) c by (auto simp: migrateV8Secrets_def split: sum.splits)
    obtain p t where "d1 = (cn_db cn)\<lparr>db_projects := p\<rparr>" "d2 = d1\<lparr>db_tunnels := t\<rparr>"
      using v8_write_projects_ok [OF w(1) d(1)] v8_write_tunnels_ok [OF w(2) d(2)] by blast
    then have "cn' = cn\<lparr>cn_db := (cn_db cn)\<lparr>db_projects := p, db_tunnels := t\<rparr>, cn_cleanup := Some True\<rparr>"
      using w(3) by simp
    then show ?thesis by blast
  qed
qed

lemma key_in:
  assumes "fst ` A = fst ` B" "(i, x) \<in> A"
  obtains y where "(i, y) \<in> B"
proof -
  have "i \<in> fst ` B" using assms(2) by (force simp: assms(1) [symmetric])
  then show thesis using that by force
qed

lemma migrate_shape:
  assumes "migrate F cd rands M cn = (Inr (), cn')" "aead_ok cd" "\<forall>k. rand_ok cd (rands k)" "schema_ok (cn_db cn)"
  obtains p t where "cn' = (form_data F cd cn)\<lparr>cn_db := (cn_db (form_data F cd cn))\<lparr>db_projects := p, db_tunnels := t\<rparr>,
    cn_cleanup := Some False\<rparr>"
proof -
  let ?b = "form_data F cd cn"
  obtain changed c8 c9 where s: "migrateV8Secrets F cd rands (start_cleanup ?b) = (Inr changed, c8)"
    "c9 = c8\<lparr>cn_cleanup := Some False\<rparr>" "migrateV9SecretEnvKeys cd c9 = (Inr (), cn')"
    using migrate_steps [OF assms(1)] by metis
  have db: "cn_db (start_cleanup ?b) = cn_db ?b" by (simp add: start_cleanup_def)
  have ok: "table_ok (db_projects (cn_db ?b))" "table_ok (db_tunnels (cn_db ?b))"
    using assms(4) by (simp_all add: form_data_keys(1,2) schema_ok_def)
  obtain p t c where c8: "c8 = (start_cleanup ?b)\<lparr>cn_db := (cn_db ?b)\<lparr>db_projects := p, db_tunnels := t\<rparr>, cn_cleanup := c\<rparr>"
    using v8_leaves [OF s(1), unfolded db, OF ok] by blast
  have "map fst (db_projects (cn_db c9)) = map fst (db_projects (cn_db ?b))"
    using migrateV8_seals(1) [OF s(1) assms(2) _, unfolded db, OF _ ok] assms(3) by (simp add: s(2))
  then have "table_ok (db_projects (cn_db c9))" using ok(1) by (simp add: table_ok_def)
  from migrateV9_classifies [OF s(3) this] obtain u where
    "cn' = c9\<lparr>cn_db := (cn_db c9)\<lparr>db_projects := u\<rparr>\<rparr>" by blast
  then have "cn' = ?b\<lparr>cn_db := (cn_db ?b)\<lparr>db_projects := u, db_tunnels := t\<rparr>, cn_cleanup := Some False\<rparr>"
    using s(2) c8 by (simp add: start_cleanup_def)
  then show thesis by (rule that)
qed

text \<open>Each row after the migration, with the row it comes from.\<close>

lemma migrated_rows:
  assumes "migrate F cd rands M cn = (Inr (), cn')" "aead_ok cd" "\<forall>k. rand_ok cd (rands k)" "schema_ok (cn_db cn)"
  shows "(i, r') \<in> set (db_projects (cn_db cn')) \<Longrightarrow> \<exists>r r1. (i, r) \<in> set (db_projects (cn_db (form_data F cd cn))) \<and>
      project_sealed cd i r r1 \<and> project_classified cd i r1 r'"
    and "(i, t') \<in> set (db_tunnels (cn_db cn')) \<Longrightarrow> \<exists>t. (i, t) \<in> set (db_tunnels (cn_db cn)) \<and> tunnel_sealed cd i t t'"
proof -
  let ?b = "form_data F cd cn"
  note res = migration_result [OF assms]
  have ok: "table_ok (db_projects (cn_db cn))" "table_ok (db_tunnels (cn_db cn))"
    using assms(4) by (simp_all add: schema_ok_def)
  have m: "map fst (db_projects (cn_db cn')) = map fst (db_projects (cn_db ?b))"
      "map fst (db_tunnels (cn_db cn')) = map fst (db_tunnels (cn_db cn))"
    unfolding form_data_keys(3)
    by (rule res [THEN conjunct2, THEN conjunct1], rule res [THEN conjunct2, THEN conjunct2, THEN conjunct1])
  have keys: "fst ` set (db_projects (cn_db cn')) = fst ` set (db_projects (cn_db ?b))"
      "fst ` set (db_tunnels (cn_db cn')) = fst ` set (db_tunnels (cn_db cn))"
    unfolding set_map [symmetric] m by (rule refl)+
  have ok': "table_ok (db_projects (cn_db cn'))" "table_ok (db_tunnels (cn_db cn'))"
    using res ok by (simp_all add: table_ok_def)
  show "\<exists>r r1. (i, r) \<in> set (db_projects (cn_db ?b)) \<and> project_sealed cd i r r1 \<and> project_classified cd i r1 r'"
    if h: "(i, r') \<in> set (db_projects (cn_db cn'))"
  proof -
    obtain r where r: "(i, r) \<in> set (db_projects (cn_db ?b))" by (rule key_in [OF keys(1) h])
    then have "map_of (db_projects (cn_db ?b)) i = Some r" using ok(1) by (intro in_map_of) (simp_all add: form_data_keys)
    with res obtain r1 r2 where s: "project_sealed cd i r r1" "project_classified cd i r1 r2"
      "map_of (db_projects (cn_db cn')) i = Some r2" by blast
    with in_map_of [OF ok'(1) h] r show ?thesis by auto
  qed
  show "\<exists>t. (i, t) \<in> set (db_tunnels (cn_db cn)) \<and> tunnel_sealed cd i t t'" if h: "(i, t') \<in> set (db_tunnels (cn_db cn'))"
  proof -
    obtain t where t: "(i, t) \<in> set (db_tunnels (cn_db cn))" by (rule key_in [OF keys(2) h])
    from res in_map_of [OF ok(2) t] obtain t2 where "tunnel_sealed cd i t t2" "map_of (db_tunnels (cn_db cn')) i = Some t2"
      by blast
    with in_map_of [OF ok'(2) h] t show ?thesis by auto
  qed
qed

lemma migration_db_ok:
  assumes "migrate F cd rands M cn = (Inr (), cn')" "aead_ok cd" "\<forall>k. rand_ok cd (rands k)" "schema_ok (cn_db cn)"
  shows "db_ok (cn_db cn')"
proof -
  let ?b = "form_data F cd cn"
  obtain p t where c: "cn' = ?b\<lparr>cn_db := (cn_db ?b)\<lparr>db_projects := p, db_tunnels := t\<rparr>, cn_cleanup := Some False\<rparr>"
    using migrate_shape [OF assms] .
  have b: "schema_ok (cn_db ?b)" using assms(4) by (rule schema_ok_form_data)
  note res = migration_result [OF assms]
  have m: "map fst p = map fst (db_projects (cn_db ?b))" "map fst t = map fst (db_tunnels (cn_db cn))"
    using res [THEN conjunct2, THEN conjunct1] res [THEN conjunct2, THEN conjunct2, THEN conjunct1]
    unfolding form_data_keys(3) by (simp_all add: c)
  have keys: "table_keys p = table_keys (db_projects (cn_db ?b))"
    unfolding table_keys_def set_map [symmetric] m(1) by (rule refl)
  have P: "rows_all (\<lambda>i r. p_ID (row_project r) = i \<and> isEncryptedSecret (row_env_vars r)) p"
    using migrated_rows(1) [OF assms] b
    by (fastforce simp: c rows_all_def list_all_iff schema_ok_def project_sealed_def project_classified_def split: if_splits)
  have T: "rows_all (\<lambda>i t. t_ID t = i \<and> secret_stored (t_TunnelSecret t) \<and> secret_stored (t_CFAPIToken t)) t"
    using migrated_rows(2) [OF assms] assms(4)
    by (fastforce simp: c rows_all_def list_all_iff schema_ok_def tunnel_sealed_def)
  show ?thesis
    unfolding db_ok_def projects_ok_def tunnels_ok_def
    using b P T m assms(4) keys
    by (simp add: c schema_ok_def table_ok_def states_ok_def deployments_ok_def backup_runs_ok_def secret_stored_def)
qed

lemma migration_settled:
  assumes "migrate F cd rands M cn = (Inr (), cn')" "aead_ok cd" "\<forall>k. rand_ok cd (rands k)" "schema_ok (cn_db cn)"
    "formats_ok F cd" "plain_ok F (cn_db cn)"
  shows "settled F cd (cn_db cn')"
proof -
  let ?b = "form_data F cd cn"
  obtain changed c8 where v8: "migrateV8Secrets F cd rands (start_cleanup ?b) = (Inr changed, c8)"
    using migrate_steps [OF assms(1)] by metis
  have db: "cn_db (start_cleanup ?b) = cn_db ?b" by (simp add: start_cleanup_def)
  note checked = v8_checked [OF v8, unfolded db]
  note rows = migrated_rows [OF assms(1-4)]
  have P: "row_secret_env_keys r' \<noteq> SqlNull \<and> isEncryptedSecret (row_env_vars r') \<and>
      (\<exists>plain. secret_decrypt cd (projectEnvAAD i) (row_env_vars r') = Inr plain \<and> fm_valid F plain)"
    if h: "(i, r') \<in> set (db_projects (cn_db cn'))" for i r'
  proof -
    obtain r r1 where r: "(i, r) \<in> set (db_projects (cn_db ?b))"
      and s: "project_sealed cd i r r1" "project_classified cd i r1 r'" using rows(1) [OF h] by blast
    from s(1) obtain v where v: "r1 = r\<lparr>row_env_vars := v\<rparr>" "isEncryptedSecret v"
      "secret_decrypt cd (projectEnvAAD i) v = env_view cd i (row_env_vars r)" by (auto simp: project_sealed_def)
    obtain a where a: "v8_project F cd (i, r) = Inr a" using checked(1) [OF r] by blast
    show ?thesis
    proof (cases "row_secret_env_keys r = SqlNull")
      case True
      then obtain envs where "decodeProjectEnv cd i v = Inr envs" "r' = r1\<lparr>row_secret_env_keys := JsonKeys (sort (map fst envs))\<rparr>"
        using s(2) by (auto simp: project_classified_def v(1))
      then show ?thesis using decode_valid [OF _ assms(5)] v(1,2) by auto
    next
      case False
      have "(i, r) \<in> set (map (v4_project F cd) (db_projects (cn_db (migrateV3Data cn))))"
        using r by (simp add: migrateV4CustomToForm_def)
      moreover have "plain_ok F (cn_db (migrateV3Data cn))"
        using assms(6) by (fastforce simp: plain_ok_def migrateV3Data_def v3_project_def Let_def list_all_iff split: if_splits)
      ultimately have "isEncryptedSecret (row_env_vars r) \<or> fm_valid F (plain_env_text (row_env_vars r)) \<or> fm_valid F (row_env_vars r)"
        using v4_env_valid [OF assms(5)] False by blast
      from env_view_valid [OF a assms(5) this] show ?thesis
        using s(2) False v by (auto simp: project_classified_def)
    qed
  qed
  have T: "v8_field cd i ''tunnel_secret'' ''secret'' (t_TunnelSecret t') = Inr False \<and>
      v8_field cd i ''cf_api_token'' ''API token'' (t_CFAPIToken t') = Inr False"
    if h: "(i, t') \<in> set (db_tunnels (cn_db cn'))" for i t'
  proof -
    obtain t where t: "(i, t) \<in> set (db_tunnels (cn_db cn))" and s: "tunnel_sealed cd i t t'" using rows(2) [OF h] by blast
    obtain a where "v8_tunnel cd (i, t) = Inr a" using checked(2) t by (auto simp: form_data_keys)
    then obtain b1 b2 where "v8_field cd i ''tunnel_secret'' ''secret'' (t_TunnelSecret t) = Inr b1"
      "v8_field cd i ''cf_api_token'' ''API token'' (t_CFAPIToken t) = Inr b2"
      by (auto simp: v8_tunnel_def split: sum.splits)
    then show ?thesis using s unfolding tunnel_sealed_def by (auto intro: v8_field_sealed)
  qed
  show ?thesis unfolding settled_def list_all_iff using P T by blast
qed


text \<open>
  Property C30. A second start changes nothing: after a successful migration every further one succeeds
  without touching the database or drawing a nonce, whatever the checkpoints answer.
\<close>

theorem migrate_twice:
  assumes "migrate F cd rands M cn = (Inr (), cn')" "aead_ok cd" "\<forall>k. rand_ok cd (rands k)" "schema_ok (cn_db cn)"
    "formats_ok F cd" "plain_ok F (cn_db cn)"
  shows "migrate F cd rands' M' cn' = (Inr (), cn')"
proof -
  let ?b = "form_data F cd cn"
  obtain p t where c: "cn' = ?b\<lparr>cn_db := (cn_db ?b)\<lparr>db_projects := p, db_tunnels := t\<rparr>, cn_cleanup := Some False\<rparr>"
    using migrate_shape [OF assms(1-4)] .
  note res = migration_result [OF assms(1-4)]
  have ok: "table_ok (db_projects (cn_db cn))" using assms(4) by (simp add: schema_ok_def)
  have okc: "table_ok (db_projects (cn_db cn'))" using res ok by (simp add: table_ok_def)
  have "forms_settled F cn'"
  proof (rule form_data_settled [OF ok])
    fix i r' assume r': "map_of (db_projects (cn_db cn')) i = Some r'"
    then have "i \<in> set (map fst (db_projects (cn_db cn')))" by (force dest: map_of_SomeD)
    then have "i \<in> set (map fst (db_projects (cn_db ?b)))" unfolding form_data_keys(3) using res by metis
    then obtain r where r: "map_of (db_projects (cn_db ?b)) i = Some r" by (metis map_of_eq_None_iff not_None_eq set_map)
    with res r' obtain r1 where "project_sealed cd i r r1" "project_classified cd i r1 r'" by fastforce
    then have "row_project r' = row_project r" by (auto simp: project_sealed_def project_classified_def split: if_splits)
    with r show "\<exists>r. map_of (db_projects (cn_db ?b)) i = Some r \<and> row_project r' = row_project r" by blast
  qed (use okc in \<open>simp_all add: c\<close>)
  then have f: "form_data F cd cn' = cn'" by (rule forms_settled_id)
  have cl: "cn_cleanup cn' = Some False" using res by blast
  then have "start_cleanup cn' = cn'" by (simp add: start_cleanup_def)
  moreover have st: "settled F cd (cn_db cn')" by (rule migration_settled [OF assms])
  ultimately show ?thesis
    unfolding migrate_def f by (simp add: settled_v8 [OF st] settled_v9 [OF st] cl)
qed

section \<open>Custom mode on an encrypted database\<close>

text \<open>A ciphertext is not JSON; a map is written as an object.\<close>

definition ciphertext_unreadable :: "Formats \<Rightarrow> Codec \<Rightarrow> bool" where
  "ciphertext_unreadable F cd \<longleftrightarrow> (\<forall>s. isEncryptedSecret s \<longrightarrow> fm_read_env F s = []) \<and>
     (\<forall>m. \<not> isEncryptedSecret (cd_marshal_env cd m) \<and> cd_marshal_env cd m \<noteq> '''' \<and> cd_marshal_env cd m \<noteq> ''null'')"

lemma form_data_row:
  "map_of (db_projects (cn_db (form_data F cd cn))) i =
     map_option (\<lambda>r. snd (v4_project F cd (v3_project cn (i, r)))) (map_of (db_projects (cn_db cn)) i)"
  by (simp add: migrateV4CustomToForm_def migrateV3Data_def map_of_keyed)

text \<open>
  Property C31. The step to form mode runs at every start, and reads the environment column as JSON even
  where it is already encrypted: a project in custom mode with a compose text that parses loses the
  variables it was stored with, and keeps only those of the text.
\<close>

theorem custom_mode_loses_environment:
  assumes "migrate F cd rands M cn = (Inr (), cn')" "aead_ok cd" "\<forall>k. rand_ok cd (rands k)" "schema_ok (cn_db cn)"
    and "ciphertext_unreadable F cd"
    and "map_of (db_projects (cn_db cn)) i = Some r" "isEncryptedSecret (row_env_vars r)"
      "p_ConfigMode (row_project r) = ConfigModeCustom" "p_CustomCompose (row_project r) \<noteq> ''''"
      "fm_compose F (p_CustomCompose (row_project r)) = Some sc"
    and "env_codec_ok cd (v4_env F (row_env_vars r) sc)"
  shows "\<exists>r' m. map_of (db_projects (cn_db cn')) i = Some r' \<and> p_Services (row_project r') = v4_services i sc \<and>
    decodeProjectEnv cd i (row_env_vars r') = Inr m \<and>
    map_of m = map_of (foldl (\<lambda>m (k, v). AList.update k v m) [] (lc_EnvVars sc))"
proof -
  let ?env = "v4_env F (row_env_vars r) sc"
  obtain r3 where r3: "v3_project cn (i, r) = (i, r3)" "row_env_vars r3 = row_env_vars r"
    "p_ConfigMode (row_project r3) = ConfigModeCustom" "p_CustomCompose (row_project r3) = p_CustomCompose (row_project r)"
    using assms(8) by (auto simp: v3_project_def Let_def)
  define r4 where "r4 = snd (v4_project F cd (i, r3))"
  have r4: "row_env_vars r4 = cd_marshal_env cd ?env" "p_Services (row_project r4) = v4_services i sc"
    using assms(9,10) r3 by (simp_all add: r4_def v4_project_def Let_def)
  have "map_of (db_projects (cn_db (form_data F cd cn))) i = Some r4"
    by (simp add: form_data_row assms(6) r3(1) r4_def)
  then obtain r1 r' where s: "project_sealed cd i r4 r1" "project_classified cd i r1 r'"
    "map_of (db_projects (cn_db cn')) i = Some r'"
    using migration_result [OF assms(1-4)] by blast
  have "env_view cd i (cd_marshal_env cd ?env) = Inr (cd_marshal_env cd ?env)"
    using assms(5) by (simp add: ciphertext_unreadable_def env_view_def plain_env_text_def)
  then have d: "secret_decrypt cd (projectEnvAAD i) (row_env_vars r') = Inr (cd_marshal_env cd ?env)"
    "row_project r' = row_project r4"
    using s(1,2) r4(1) by (auto simp: project_sealed_def project_classified_def split: if_splits)
  obtain m where m: "cd_unmarshal_env cd (cd_marshal_env cd ?env) = Some m" "map_of m = map_of ?env"
    using assms(11) by (auto simp: env_codec_ok_def)
  have "?env = foldl (\<lambda>m (k, v). AList.update k v m) [] (lc_EnvVars sc)"
    using assms(5,7) by (simp add: v4_env_def ciphertext_unreadable_def)
  with m d s(3) r4(2) show ?thesis by (auto simp: decodeProjectEnv_def)
qed

end
