(* ===== verification/Db_Open.thy ===== *)
theory Db_Open
  imports Go_File Migrations
begin

text \<open>
  Opening the database (\<open>OpenWithKey\<close> of \<open>internal/db/db.go\<close>) and its master key
  (\<open>loadOrCreateSecretKey\<close> of \<open>internal/db/secrets.go\<close>). The database that the file holds, the
  answers of the engine and the cipher of a key are an \<open>Opener\<close>. Symbolic links, which the code
  refuses, are not modelled.
\<close>

record Opener =
  op_env :: Env
  op_key :: "nat \<Rightarrow> string result"
  op_cipher :: "string \<Rightarrow> Codec result"
  op_sql :: "error option"
  op_conn :: Conn
  op_formats :: Formats
  op_maintenance :: Maintenance

definition secretKeyBytes :: nat where
  "secretKeyBytes = 32"

section \<open>The key\<close>

text \<open>\<open>io.ReadFull\<close> of the random source into a buffer of a key's size.\<close>

definition random_key :: "Opener \<Rightarrow> string result io" where
  "random_key U = do { t \<leftarrow> io_tick; ret (op_key U t) }"

definition read_key :: "Env \<Rightarrow> string \<Rightarrow> string result io" where
  "read_key e path = do {
     c \<leftarrow> os_Chmod e path 384;
     case c of
       Inl err \<Rightarrow> ret (Inl (''chmod secret key: '' @ err))
     | Inr u \<Rightarrow> do {
         r \<leftarrow> os_ReadFile e path;
         ret (case r of
           Inl err \<Rightarrow> Inl (''read secret key: '' @ err)
         | Inr key \<Rightarrow>
             if length key \<noteq> secretKeyBytes
             then Inl (''secret key '' @ Quote path @ '' has '' @ nat_text (length key) @ '' bytes; want '' @ nat_text secretKeyBytes)
             else Inr key)
       }
   }"

definition store_key :: "Env \<Rightarrow> string \<Rightarrow> string \<Rightarrow> string result io" where
  "store_key e path key =
     check_err ''create secret key: '' (os_CreateExcl e path 384)
       (check_err ''write secret key: '' (os_FileWrite e path key)
         (check_err ''sync secret key: '' (os_FileSync e path)
           (check_err ''close secret key: '' (os_FileSync e path) (ret (Inr key)))))"

definition create_key :: "Opener \<Rightarrow> string \<Rightarrow> string result io" where
  "create_key U path = (let e = op_env U in
     check_err ''create secret key directory: '' (os_MkdirAll e (DirOf path)) (do {
       k \<leftarrow> random_key U;
       case k of
         Inl err \<Rightarrow> ret (Inl (''generate secret key: '' @ err))
       | Inr key \<Rightarrow> store_key e path key
     }))"

definition loadOrCreateSecretKey :: "Opener \<Rightarrow> string \<Rightarrow> string result io" where
  "loadOrCreateSecretKey U path =
     (if path = '''' then ret (Inl ''secret key path must not be empty'')
      else do {
        s \<leftarrow> os_Stat (op_env U) path;
        case s of
          StatFound DirNode \<Rightarrow> ret (Inl (''secret key path '' @ Quote path @ '' is not a regular file''))
        | StatFound (FileNode c m) \<Rightarrow> read_key (op_env U) path
        | StatError err \<Rightarrow> ret (Inl (''stat secret key: '' @ err))
        | StatMissing \<Rightarrow> create_key U path
      })"

definition loadSecretCipher :: "Opener \<Rightarrow> string \<Rightarrow> Codec result io" where
  "loadSecretCipher U path = do {
     k \<leftarrow> loadOrCreateSecretKey U path;
     ret (case k of
       Inl err \<Rightarrow> Inl err
     | Inr key \<Rightarrow> (case op_cipher U key of Inl err \<Rightarrow> Inl (''create secret cipher: '' @ err) | Inr cd \<Rightarrow> Inr cd))
   }"

section \<open>The database file\<close>

text \<open>The text of \<open>fileContainsEncryptedSecrets\<close>, on the file system.\<close>

definition file_has_secrets :: "Env \<Rightarrow> string \<Rightarrow> bool result io" where
  "file_has_secrets e path = do {
     r \<leftarrow> os_ReadFile e path;
     ret (case r of
       Inl err \<Rightarrow> if IsNotExist err then Inr (fileContainsEncryptedSecrets None) else Inl err
     | Inr data \<Rightarrow> Inr (fileContainsEncryptedSecrets (Some data)))
   }"

text \<open>A key that is missing must not be replaced while something encrypted is left.\<close>

fun refuse_lost_key :: "Env \<Rightarrow> string \<Rightarrow> string list \<Rightarrow> unit result io" where
  "refuse_lost_key e keyPath [] = ret (Inr ())"
| "refuse_lost_key e keyPath (dbFile # files) = do {
     r \<leftarrow> file_has_secrets e dbFile;
     case r of
       Inl err \<Rightarrow> ret (Inl (''check database for encrypted secrets: '' @ err))
     | Inr found \<Rightarrow>
         if found then ret (Inl (''secret key '' @ Quote keyPath @ '' is missing but '' @ Quote dbFile @
           '' contains encrypted values; restore the matching key''))
         else refuse_lost_key e keyPath files
   }"

definition private_file :: "Env \<Rightarrow> string \<Rightarrow> unit result io" where
  "private_file e path = do {
     s \<leftarrow> os_Stat e path;
     case s of
       StatFound n \<Rightarrow> check_err ''chmod database: '' (os_Chmod e path 384) (ret (Inr ()))
     | StatMissing \<Rightarrow>
         check_err ''create database: '' (os_CreateExcl e path 384)
           (check_err ''close new database: '' (os_FileSync e path) (ret (Inr ())))
     | StatError err \<Rightarrow> ret (Inl (''stat database: '' @ err))
   }"

definition chmod_private :: "Env \<Rightarrow> string \<Rightarrow> unit result io" where
  "chmod_private e path = do {
     r \<leftarrow> os_Chmod e path 384;
     ret (case r of
       Inl err \<Rightarrow> if IsNotExist err then Inr () else Inl (''chmod database file '' @ Quote path @ '': '' @ err)
     | Inr u \<Rightarrow> Inr ())
   }"

section \<open>Opening\<close>

definition open_sql :: "Opener \<Rightarrow> string \<Rightarrow> Codec \<Rightarrow> (Codec \<times> Conn) result io" where
  "open_sql U path cd =
     (case op_sql U of
        Some err \<Rightarrow> ret (Inl (''open db: '' @ err))
      | None \<Rightarrow> do {
          t \<leftarrow> io_tick;
          case migrate (op_formats U) cd (\<lambda>n. env_rand (op_env U) (t + n)) (op_maintenance U) (op_conn U) of
            (Inl err, cn) \<Rightarrow> ret (Inl (''migrate: '' @ err))
          | (Inr u, cn) \<Rightarrow>
              check_err '''' (io_for (chmod_private (op_env U)) [path, path @ ''-wal'', path @ ''-shm'']) (ret (Inr (cd, cn)))
        })"

definition OpenWithKey :: "Opener \<Rightarrow> string \<Rightarrow> string \<Rightarrow> (Codec \<times> Conn) result io" where
  "OpenWithKey U path keyPath = (let e = op_env U in do {
     s \<leftarrow> os_Stat e keyPath;
     case s of
       StatError err \<Rightarrow> ret (Inl (''stat secret key: '' @ err))
     | s \<Rightarrow>
         check_err '''' (if s = StatMissing then refuse_lost_key e keyPath [path, path @ ''-wal''] else ret (Inr ()))
           (do {
             c \<leftarrow> loadSecretCipher U keyPath;
             case c of
               Inl err \<Rightarrow> ret (Inl err)
             | Inr cd \<Rightarrow> check_err '''' (private_file e path) (open_sql U path cd)
           })
   })"

definition db_Open :: "Opener \<Rightarrow> string \<Rightarrow> (Codec \<times> Conn) result io" where
  "db_Open U path = OpenWithKey U path (path @ ''.key'')"

section \<open>Lemmas\<close>

text \<open>Nothing that a file held before is lost, whether the key is found, created or refused.\<close>

lemma store_key_keeps: "keeps (contents_at q c) (store_key e path key)"
  unfolding keeps_wp store_key_def
proof (intro allI impI, subst wp_check_err, rule wp_CreateExcl, goal_cases)
  case (2 w w2)
  have other: "Clean q \<noteq> Clean path" using 2(1,2) by (auto simp: contents_at_def file_at_def)
  have "contents_at q c w2" using 2 other by (auto simp: contents_at_def file_at_def)
  moreover have "keeps (contents_at q c) (check_err ''write secret key: '' (os_FileWrite e path key)
      (check_err ''sync secret key: '' (os_FileSync e path)
        (check_err ''close secret key: '' (os_FileSync e path) (ret (Inr key)))))"
    by (intro wf_intros keeps_contents_Append other)
  ultimately show ?case by (simp only: sum.case wp_keeps)
qed (simp add: contents_at_def)

lemma create_key_keeps: "keeps (contents_at q c) (create_key U path)"
  unfolding create_key_def random_key_def Let_def
  by (intro wf_intros keeps_contents_leaves [OF leaves_tick(4)] store_key_keeps)

lemma read_key_keeps: "keeps (contents_at q c) (read_key e path)"
  unfolding read_key_def by (intro wf_intros keeps_contents_leaves [OF leaves_ReadFile(2)])

lemma keeps_Node [wf_intros]: "keeps P a \<Longrightarrow> (\<And>c m. keeps P (b c m)) \<Longrightarrow> keeps P (case n of DirNode \<Rightarrow> a | FileNode c m \<Rightarrow> b c m)"
  by (cases n) simp_all

lemma load_key_keeps: "keeps (contents_at q c) (loadOrCreateSecretKey U path)"
  unfolding loadOrCreateSecretKey_def
  by (intro wf_intros keeps_contents_leaves [OF leaves_Stat(4)] read_key_keeps create_key_keeps)

lemma leaves_refuse: "leaves w_fs (refuse_lost_key e k files)"
  by (induction files) (auto simp: file_has_secrets_def intro!: frame)

lemma private_file_keeps: "keeps (contents_at q c) (private_file e path)"
  unfolding private_file_def by (intro wf_intros keeps_contents_leaves [OF leaves_Stat(4)])

lemma chmod_private_keeps [wf_intros]: "keeps (contents_at q c) (chmod_private e path)"
  unfolding chmod_private_def by (intro wf_intros)

lemma keeps_for [wf_intros]: "(\<And>x. keeps P (m x)) \<Longrightarrow> keeps P (io_for m xs)"
  by (induction xs) (auto intro!: wf_intros)

lemma open_sql_keeps: "keeps (contents_at q c) (open_sql U path cd)"
  unfolding open_sql_def by (intro wf_intros keeps_contents_leaves [OF leaves_tick(4)])

text \<open>
  Opening the database, however it ends, never changes the contents of a file that
  exists: neither the key nor the database is created over another file, only modes change.
\<close>

theorem open_preserves_files:
  assumes "run_state (OpenWithKey U path keyPath) w = (r, w')" "file_at (w_fs w) q c m"
  shows "\<exists>m'. file_at (w_fs w') q c m'"
proof -
  have "keeps (contents_at q c) (OpenWithKey U path keyPath)"
    unfolding OpenWithKey_def loadSecretCipher_def Let_def
    by (intro wf_intros keeps_contents_leaves [OF leaves_Stat(4)] keeps_contents_leaves [OF leaves_refuse] load_key_keeps
        private_file_keeps open_sql_keeps)
  from keepsD [OF this _ assms(1)] assms(2) show ?thesis by (auto simp: contents_at_def)
qed

section \<open>A lost key\<close>

lemma ReadFile_found:
  assumes "fs_stat (w_fs w) path = StatFound (FileNode c m)"
  shows "wp (os_ReadFile e path) w (\<lambda>r w'. w_fs w' = w_fs w \<and> (r = Inr c \<or> (\<exists>t err. r = Inl err \<and> env_fs_error e t path = Some err)))"
  using assms by (auto simp: os_ReadFile_def wp_def io_tick_def io_gets_def split: option.splits)


section \<open>A successful start\<close>

text \<open>The key file with the mode it must have.\<close>

abbreviation key_file :: "string \<Rightarrow> string \<Rightarrow> World \<Rightarrow> bool" where
  "key_file path key w \<equiv> file_at (w_fs w) path key 384"

lemma keeps_key_op:
  assumes "\<And>f f'. g f = Inr f' \<Longrightarrow> file_at f q c m \<Longrightarrow> file_at f' q c m"
  shows "keeps (\<lambda>w. file_at (w_fs w) q c m) (fs_op e p g)"
  using assms unfolding keeps_wp by (intro allI impI wp_fs_op) auto

lemma keeps_key [wf_intros]: "keeps (key_file q c) (os_Chmod e p 384)" "keeps (key_file q c) (os_CreateExcl e p n)"
    "keeps (key_file q c) (os_FileSync e p)"
proof -
  show "keeps (key_file q c) (os_Chmod e p 384)" unfolding os_Chmod_def
  proof (rule keeps_key_op)
    fix f f' assume "fs_Chmod p 384 f = Inr f'" "file_at f q c 384"
    then show "file_at f' q c 384"
      by (cases "Clean q = Clean p") (auto simp: file_at_def fs_Chmod_def Let_def split: option.splits Node.splits)
  qed
  show "keeps (key_file q c) (os_CreateExcl e p n)"
    unfolding os_CreateExcl_def by (rule keeps_key_op) (auto dest!: fs_CreateExcl_new simp: file_at_def)
  show "keeps (key_file q c) (os_FileSync e p)"
    unfolding os_FileSync_def by (rule keeps_key_op) auto
qed

lemma keeps_key_leaves: "leaves w_fs m \<Longrightarrow> keeps (key_file q c) m"
  by (rule leaves_keeps)

lemma stat_file_at: "fs_stat f path = StatFound (FileNode c m) \<Longrightarrow> file_at f path c m"
  by (auto simp: fs_stat_def file_at_def Let_def split: if_splits option.splits)

lemma read_key_post:
  assumes "file_at (w_fs w) path c m"
  shows "wp (read_key e path) w (\<lambda>r w'. \<forall>key. r = Inr key \<longrightarrow> length key = 32 \<and> key_file path key w')"
  unfolding read_key_def wp_bind os_Chmod_def
proof (rule wp_fs_op, goal_cases)
  case (2 f' w1)
  have "key_file path c w1" using fs_Chmod_at [OF 2(1) assms] 2(2) by simp
  then show ?case unfolding sum.case wp_bind
    by (intro wp_mono [OF ReadFile_post]) (auto simp: file_at_contents secretKeyBytes_def split: sum.splits if_splits)
qed simp

lemma store_key_post:
  "wp (store_key e path key) w (\<lambda>r w'. r = Inr key \<and> key_file path key w' \<or> isl r)"
  unfolding store_key_def
proof (subst wp_check_err, rule wp_CreateExcl, goal_cases)
  case (2 w1)
  have n: "file_at (w_fs w1) path '''' 384" using 2(2) by (simp add: file_at_def)
  show ?case unfolding sum.case wp_check_err os_FileWrite_def
  proof (rule wp_fs_op, goal_cases)
    case (2 f' w2)
    have k: "key_file path key w2" using fs_Append_at [OF 2(1) n] 2(2) by simp
    have "keeps (key_file path key) (check_err ''sync secret key: '' (os_FileSync e path)
        (check_err ''close secret key: '' (os_FileSync e path) (ret (Inr key))))"
      by (intro wf_intros)
    from wp_keeps [OF this k] show ?case
      unfolding sum.case wp_check_err
      by (elim wp_mono) (auto simp: wp_def split: sum.splits prod.splits)
  qed simp
qed simp

lemma load_key_post:
  assumes "\<forall>t k. op_key U t = Inr k \<longrightarrow> length k = 32"
  shows "wp (loadOrCreateSecretKey U path) w (\<lambda>r w'. \<forall>key. r = Inr key \<longrightarrow> length key = 32 \<and> key_file path key w')"
proof -
  let ?Q = "\<lambda>r w'. \<forall>key. r = Inr key \<longrightarrow> length key = 32 \<and> key_file path key w'"
  have create: "wp (create_key U path) w1 ?Q" for w1
    unfolding create_key_def Let_def wp_check_err
  proof (rule wp_mono [OF wp_True])
    fix r and w2 :: World
    have "wp (store_key (op_env U) path key) w3 ?Q" if "length key = 32" for key w3
      by (rule wp_mono [OF store_key_post]) (use that in auto)
    then show "case r of Inl err \<Rightarrow> ?Q (Inl (''create secret key directory: '' @ err)) w2
      | Inr u \<Rightarrow> wp (random_key U \<bind> case_sum (\<lambda>err. ret (Inl (''generate secret key: '' @ err))) (store_key (op_env U) path)) w2 ?Q"
      using assms by (auto simp: random_key_def wp_io_tick split: sum.splits)
  qed
  have st: "wp (os_Stat (op_env U) path) w (\<lambda>s w1. \<forall>c m. s = StatFound (FileNode c m) \<longrightarrow> file_at (w_fs w1) path c m)"
    by (auto simp: os_Stat_def wp_def io_tick_def io_gets_def stat_file_at split: option.splits)
  show ?thesis
  proof (cases "path = ''''")
    case False
    then show ?thesis
      unfolding loadOrCreateSecretKey_def
      by (simp, intro wp_mono [OF st]) (auto split: stat_result.split Node.split intro: create read_key_post)
  qed (simp add: loadOrCreateSecretKey_def)
qed

lemma keeps_Node_stat: "keeps (key_file q c) (private_file e path)" "keeps (key_file q c) (open_sql U path cd)"
  unfolding private_file_def open_sql_def chmod_private_def
  by (intro wf_intros keeps_key_leaves [OF leaves_Stat(4)] keeps_key_leaves [OF leaves_tick(4)])+

lemma open_sql_post:
  "wp (open_sql U path cd) w (\<lambda>r w'. \<forall>cd' cn. r = Inr (cd', cn) \<longrightarrow> cd' = cd \<and>
     (\<exists>rands. (\<forall>n. \<exists>t. rands n = env_rand (op_env U) t) \<and>
        migrate (op_formats U) cd rands (op_maintenance U) (op_conn U) = (Inr (), cn)))"
  unfolding open_sql_def
  by (auto simp: wp_io_tick wp_check_err intro!: wp_mono [OF wp_True] split: option.split prod.split sum.split)

text \<open>
  When the database opens, the key file holds exactly 32 bytes that only the owner may
  read, its cipher is the one in use, and the database satisfies the invariant that the operations
  of the package keep.
\<close>

lemma open_ready:
  assumes "run_state (OpenWithKey U path keyPath) w = (Inr (cd, cn), w')"
    and "\<forall>t k. op_key U t = Inr k \<longrightarrow> length k = 32"
    and "\<forall>key c. op_cipher U key = Inr c \<longrightarrow> aead_ok c \<and> (\<forall>t. rand_ok c (env_rand (op_env U) t))"
    and "schema_ok (cn_db (op_conn U))"
  shows "(\<exists>key. length key = 32 \<and> file_at (w_fs w') keyPath key 384 \<and> op_cipher U key = Inr cd) \<and> db_ok (cn_db cn)"
proof -
  let ?K = "\<lambda>cd w'. \<exists>key. length key = 32 \<and> key_file keyPath key w' \<and> op_cipher U key = Inr cd"
  let ?Q = "\<lambda>r w'. \<forall>cd' cn. r = Inr (cd', cn) \<longrightarrow> ?K cd' w' \<and>
     (\<exists>rands. (\<forall>n. \<exists>t. rands n = env_rand (op_env U) t) \<and>
        migrate (op_formats U) cd' rands (op_maintenance U) (op_conn U) = (Inr (), cn))"
  have rest: "wp (check_err '''' (private_file (op_env U) path) (open_sql U path c)) w1 ?Q" if k: "?K c w1" for c w1
  proof -
    obtain key where key: "length key = 32" "key_file keyPath key w1" "op_cipher U key = Inr c" using k by blast
    show ?thesis unfolding wp_check_err
    proof (rule wp_mono [OF wp_keeps [OF keeps_Node_stat(1) key(2)]])
      fix r and w2 :: World assume w2: "key_file keyPath key w2"
      show "case r of Inl err \<Rightarrow> ?Q (Inl ('''' @ err)) w2 | Inr u \<Rightarrow> wp (open_sql U path c) w2 ?Q"
      proof (cases r)
        case (Inr u)
        show ?thesis unfolding Inr sum.case
          by (rule wp_mono [OF wp_conj [OF wp_keeps [OF keeps_Node_stat(2) w2] open_sql_post]]) (use key(1,3) in blast)
      qed simp
    qed
  qed
  have load: "wp (loadSecretCipher U keyPath) w1 (\<lambda>c w2. \<forall>cd. c = Inr cd \<longrightarrow> ?K cd w2)" for w1
    unfolding loadSecretCipher_def wp_bind
    by (rule wp_mono [OF load_key_post [OF assms(2)]]) (auto split: sum.splits)
  have both: "wp (loadSecretCipher U keyPath \<bind> case_sum (\<lambda>err. ret (Inl err))
      (\<lambda>cd. check_err '''' (private_file (op_env U) path) (open_sql U path cd))) w1 ?Q" for w1
    unfolding wp_bind by (rule wp_mono [OF load]) (auto split: sum.split intro!: rest)
  have "wp (OpenWithKey U path keyPath) w ?Q"
    unfolding OpenWithKey_def Let_def wp_bind [of "os_Stat _ _"]
  proof (rule wp_mono [OF wp_True], goal_cases)
    case (1 s w1)
    have c: "wp (check_err '''' m (loadSecretCipher U keyPath \<bind> case_sum (\<lambda>err. ret (Inl err))
      (\<lambda>cd. check_err '''' (private_file (op_env U) path) (open_sql U path cd)))) w1 ?Q" for m
      unfolding wp_check_err
    proof (rule wp_mono [OF wp_True], goal_cases)
      case (1 x w2)
      then show ?case using both by (cases x) (simp_all del: wp_bind)
    qed
    show ?case using c [of "ret (Inr ())"] c [of "refuse_lost_key (op_env U) keyPath [path, path @ ''-wal'']"]
      by (cases s) (simp_all del: wp_bind)
  qed
  from wp_run [OF this assms(1)] obtain key rands where r: "length key = 32" "key_file keyPath key w'" "op_cipher U key = Inr cd"
    "\<forall>n. \<exists>t. rands n = env_rand (op_env U) t" "migrate (op_formats U) cd rands (op_maintenance U) (op_conn U) = (Inr (), cn)"
    by blast
  have a: "aead_ok cd" "\<forall>t. rand_ok cd (env_rand (op_env U) t)" using assms(3) r(3) by blast+
  have "\<forall>k. rand_ok cd (rands k)" using r(4) a(2) by metis
  from migration_db_ok [OF r(5) a(1) this assms(4)] r(1-3) show ?thesis by blast
qed

end
