(* ===== verification/Demo_Migrations.thy ===== *)
theory Demo_Migrations
  imports Demo_Store Db_Open
begin

text \<open>
  A database of an old version on which the migrations are run: a project that was never classified,
  one in custom mode whose environment is encrypted already, and a tunnel with a plain credential.
\<close>

definition demo_json :: Codec where
  "demo_json = demo_codec\<lparr>cd_marshal_env := \<lambda>m. CHR ''{'' # demo_marshal m,
     cd_unmarshal_env := \<lambda>s. if HasPrefix s ''{'' then Some (demo_unmarshal (length s) (tl s)) else None\<rparr>"

definition demo_compose :: LegacyConfig where
  "demo_compose = \<lparr>lc_RegistryImage = '''', lc_ImageTag = '''', lc_PullPolicy = '''', lc_Ports = [], lc_Volumes = [],
     lc_ExtraOptions = '''', lc_Services = [demo_service], lc_EnvVars = []\<rparr>"

definition demo_formats :: Formats where
  "demo_formats = \<lparr>fm_valid = (\<lambda>s. HasPrefix s ''{''),
     fm_read_env = (\<lambda>s. case cd_unmarshal_env demo_json s of None \<Rightarrow> [] | Some m \<Rightarrow> m),
     fm_compose = (\<lambda>s. Some demo_compose)\<rparr>"

definition demo_nonces :: "nat \<Rightarrow> string result" where
  "demo_nonces n = Inr ''0123456789ab''"

definition demo_sealed :: string where
  "demo_sealed = projr (secret_encrypt demo_json (demo_nonces 0) (projectEnvAAD ''c'') (cd_marshal_env demo_json [(''K'', ''v'')]))"

definition demo_old :: Conn where
  "demo_old =
     \<lparr>cn_db = empty_db\<lparr>db_projects :=
        [(''p'', \<lparr>row_project = zero_project\<lparr>p_ID := ''p'', p_RegistryImage := ''r''\<rparr>,
            row_env_vars = cd_marshal_env demo_json [(''Z'', ''1''), (''A'', ''2'')], row_secret_env_keys = SqlNull\<rparr>),
         (''c'', \<lparr>row_project = zero_project\<lparr>p_ID := ''c'', p_ConfigMode := ConfigModeCustom, p_CustomCompose := ''services:''\<rparr>,
            row_env_vars = demo_sealed, row_secret_env_keys = JsonKeys [''K'']\<rparr>)],
        db_states := [(''p'', initial_state ''p''), (''c'', initial_state ''c'')],
        db_tunnels := [(''t1'', demo_tunnel)]\<rparr>,
      cn_services_empty = (\<lambda>i. i = ''p''), cn_current_empty = (\<lambda>i. True), cn_state_digests = (\<lambda>i. (''sha256:1'', '''', '''')),
      cn_from_empty = (\<lambda>n. True), cn_deploy_digests = (\<lambda>n. ('''', '''')), cn_cleanup = None\<rparr>"

definition demo_maintenance :: Maintenance where
  "demo_maintenance = \<lparr>mt_checkpoint = Inr (0, 3, 3), mt_vacuum = Inr (), mt_final = Inr (0, 0, 0)\<rparr>"

lemma demo_migrates: "fst (migrate demo_formats demo_json demo_nonces demo_maintenance demo_old) = Inr ()"
  by code_simp

definition demo_migrated :: Conn where
  "demo_migrated = snd (migrate demo_formats demo_json demo_nonces demo_maintenance demo_old)"

lemma demo_migrate: "migrate demo_formats demo_json demo_nonces demo_maintenance demo_old = (Inr (), demo_migrated)"
  using demo_migrates by (simp add: demo_migrated_def prod_eq_iff)

lemma demo_json_ok: "aead_ok demo_json" "\<forall>k. rand_ok demo_json (demo_nonces k)"
  using demo_aead by (simp_all add: aead_ok_def demo_json_def demo_codec_def rand_ok_def demo_nonces_def)

lemma demo_json_env: "env_codec_ok demo_json m"
  using demo_unmarshal_marshal [OF le_SucI [OF demo_marshal_length]]
  by (simp add: env_codec_ok_def demo_json_def HasPrefix_def)

lemma demo_formats_ok: "formats_ok demo_formats demo_json" "ciphertext_unreadable demo_formats demo_json"
  by (auto simp: formats_ok_def ciphertext_unreadable_def demo_formats_def demo_json_def HasPrefix_iff
      isEncryptedSecret_def secretPrefix_def)

lemma demo_schema: "schema_ok (cn_db demo_old)"
  by (auto simp: schema_ok_def demo_old_def table_ok_def rows_all_def states_ok_def deployments_ok_def backup_runs_ok_def
      empty_db_def table_keys_def initial_state_def demo_tunnel_def)

lemma demo_plain: "plain_ok demo_formats (cn_db demo_old)"
  by (simp add: plain_ok_def demo_old_def) code_simp

section \<open>Witnesses\<close>


lemma migrate_twice_witness:
  "\<forall>M. migrate demo_formats demo_json (\<lambda>n. Inl ''no entropy'') M demo_migrated = (Inr (), demo_migrated)"
  using migrate_twice [OF demo_migrate demo_json_ok demo_schema demo_formats_ok(1) demo_plain] by blast

lemma custom_mode_loses_environment_witness:
  "(\<exists>r m. map_of (db_projects (cn_db demo_old)) ''c'' = Some r \<and>
      decodeProjectEnv demo_json ''c'' (row_env_vars r) = Inr m \<and> map_of m ''K'' = Some ''v'') \<and>
   (\<exists>r m. map_of (db_projects (cn_db demo_migrated)) ''c'' = Some r \<and>
      decodeProjectEnv demo_json ''c'' (row_env_vars r) = Inr m \<and> map_of m ''K'' = None)"
proof -
  have c: "map_of (db_projects (cn_db demo_old)) ''c'' = Some
      \<lparr>row_project = zero_project\<lparr>p_ID := ''c'', p_ConfigMode := ConfigModeCustom, p_CustomCompose := ''services:''\<rparr>,
       row_env_vars = demo_sealed, row_secret_env_keys = JsonKeys [''K'']\<rparr>"
    by (simp add: demo_old_def)
  have "isEncryptedSecret demo_sealed" by code_simp
  with custom_mode_loses_environment [OF demo_migrate demo_json_ok demo_schema demo_formats_ok(2) c, of demo_compose] demo_json_env
  have "\<exists>r m. map_of (db_projects (cn_db demo_migrated)) ''c'' = Some r \<and>
      decodeProjectEnv demo_json ''c'' (row_env_vars r) = Inr m \<and> map_of m ''K'' = None"
    by (auto simp: demo_formats_def demo_compose_def)
  moreover have "case decodeProjectEnv demo_json ''c'' demo_sealed of Inl e \<Rightarrow> False | Inr m \<Rightarrow> map_of m ''K'' = Some ''v''"
    by code_simp
  ultimately show ?thesis using c by (auto split: sum.splits)
qed

section \<open>Opening\<close>

definition demo_opener :: Opener where
  "demo_opener = \<lparr>op_env = dep_env (demo_deployer True), op_key = (\<lambda>t. Inr (replicate 32 CHR ''k'')),
     op_cipher = (\<lambda>k. Inr demo_json), op_sql = None, op_conn = demo_old, op_formats = demo_formats,
     op_maintenance = demo_maintenance\<rparr>"

definition demo_disk :: World where
  "demo_disk = demo_world\<lparr>w_fs := [(''/o'', DirNode), (''/o/notes'', FileNode ''x'' 420)]\<rparr>"

definition demo_disk_locked :: World where
  "demo_disk_locked = demo_world\<lparr>w_fs := [(''/o'', DirNode), (''/o/state.db'', FileNode (''..bbsit:secret:v1:AAAA'') 384)]\<rparr>"

lemma demo_opens: "\<not> isl (fst (run_state (OpenWithKey demo_opener ''/o/state.db'' ''/o/secret.key'') demo_disk))"
  by code_simp

lemma demo_opener_env: "env_fs_error (op_env demo_opener) t p = None" "env_rand (op_env demo_opener) t = Inr ''0123456789ab''"
  by (simp_all add: demo_opener_def demo_deployer_def demo_env_def)

lemma open_preserves_files_witness:
  "\<exists>r w'. run_state (OpenWithKey demo_opener ''/o/state.db'' ''/o/secret.key'') demo_disk = (r, w') \<and>
     (\<exists>m. file_at (w_fs w') ''/o/notes'' ''x'' m)"
proof -
  have f: "file_at (w_fs demo_disk) ''/o/notes'' ''x'' 420" by code_simp
  show ?thesis
    by (cases "run_state (OpenWithKey demo_opener ''/o/state.db'' ''/o/secret.key'') demo_disk")
      (auto dest: open_preserves_files [OF _ f])
qed


lemma open_ready_demo:
  "\<exists>cd cn w'. run_state (OpenWithKey demo_opener ''/o/state.db'' ''/o/secret.key'') demo_disk = (Inr (cd, cn), w') \<and>
     (\<exists>key. length key = 32 \<and> file_at (w_fs w') ''/o/secret.key'' key 384) \<and> db_ok (cn_db cn)"
proof -
  obtain x w' where x: "run_state (OpenWithKey demo_opener ''/o/state.db'' ''/o/secret.key'') demo_disk = (x, w')"
    by (cases "run_state (OpenWithKey demo_opener ''/o/state.db'' ''/o/secret.key'') demo_disk")
  have "\<not> isl x" using demo_opens x by simp
  then obtain cd cn where "x = Inr (cd, cn)" by (cases x) auto
  with x have r: "run_state (OpenWithKey demo_opener ''/o/state.db'' ''/o/secret.key'') demo_disk = (Inr (cd, cn), w')" by simp
  have "\<forall>t k. op_key demo_opener t = Inr k \<longrightarrow> length k = 32" by (auto simp: demo_opener_def)
  moreover have "\<forall>key c. op_cipher demo_opener key = Inr c \<longrightarrow> aead_ok c \<and> (\<forall>t. rand_ok c (env_rand (op_env demo_opener) t))"
    using demo_json_ok by (simp add: demo_opener_env(2)) (simp add: demo_opener_def demo_nonces_def)
  moreover have "schema_ok (cn_db (op_conn demo_opener))" using demo_schema by (simp add: demo_opener_def)
  ultimately have "(\<exists>key. length key = 32 \<and> file_at (w_fs w') ''/o/secret.key'' key 384 \<and> op_cipher demo_opener key = Inr cd) \<and>
      db_ok (cn_db cn)" by (rule open_ready [OF r])
  then show ?thesis using r by blast
qed

end
