(* ===== verification/Config.thy ===== *)
theory Config
  imports Go_File
begin

text \<open>
  \<open>internal/config/config.go\<close>: the configuration of the daemon. The YAML reader is a parameter that fills
  in a given configuration; what \<open>exec.LookPath\<close> answers is a parameter too. A configuration that was loaded
  is well-formed, which is \<open>config_ok\<close>.
\<close>

record Config =
  cfg_Listen :: string
  cfg_DBPath :: string
  cfg_SecretKeyPath :: string
  cfg_StackRoot :: string
  cfg_LogLevel :: string
  cfg_Runtime :: string
  cfg_AdminSocket :: string
  cfg_AdminGroup :: string

text \<open>\<open>yr_Config\<close> overlays a document on a configuration, \<open>yr_KeyPath\<close> is its \<open>secret_key_path\<close> where it has one.\<close>

record YamlReader =
  yr_Config :: "string \<Rightarrow> Config \<Rightarrow> Config result"
  yr_KeyPath :: "string \<Rightarrow> string option result"

definition ResolvedRuntime :: "(string \<Rightarrow> error option) \<Rightarrow> Config \<Rightarrow> string result" where
  "ResolvedRuntime lookPath c =
     (if cfg_Runtime c \<noteq> ''''
      then (case lookPath (cfg_Runtime c) of
          Some err \<Rightarrow> Inl (''configured runtime '' @ Quote (cfg_Runtime c) @ '' not found on PATH'')
        | None \<Rightarrow> Inr (cfg_Runtime c))
      else (case find (\<lambda>rt. lookPath rt = None) [''docker'', ''podman''] of
          Some rt \<Rightarrow> Inr rt
        | None \<Rightarrow> Inl ''no container runtime found: install docker or podman''))"

definition DefaultConfig :: Config where
  "DefaultConfig = \<lparr>cfg_Listen = ''0.0.0.0:9090'', cfg_DBPath = ''/opt/bbsit/state.db'',
     cfg_SecretKeyPath = ''/opt/bbsit/secret.key'', cfg_StackRoot = ''/opt/stacks'', cfg_LogLevel = ''info'', cfg_Runtime = '''',
     cfg_AdminSocket = ''/run/bbsit/admin.sock'', cfg_AdminGroup = ''''\<rparr>"

text \<open>\<open>Validate\<close> fills in the path of the key; the configuration it leaves is its result.\<close>

definition config_Validate :: "Env \<Rightarrow> Config \<Rightarrow> Config result io" where
  "config_Validate e c =
     (if cfg_DBPath c = '''' then ret (Inl ''bbsit config: db_path must not be empty'')
      else let c = (if cfg_SecretKeyPath c = '''' then c\<lparr>cfg_SecretKeyPath := cfg_DBPath c @ ''.key''\<rparr> else c) in
        if cfg_StackRoot c = '''' then ret (Inl ''bbsit config: stack_root must not be empty'')
        else if cfg_Listen c = '''' then ret (Inl ''bbsit config: listen must not be empty'')
        else check_err (''bbsit config: cannot create db_path directory '' @ Quote (DirOf (cfg_DBPath c)) @ '': '')
          (os_MkdirAll e (DirOf (cfg_DBPath c)))
          (check_err (''bbsit config: cannot create secret_key_path directory '' @ Quote (DirOf (cfg_SecretKeyPath c)) @ '': '')
            (os_MkdirAll e (DirOf (cfg_SecretKeyPath c)))
            (check_err (''bbsit config: cannot create stack_root directory '' @ Quote (cfg_StackRoot c) @ '': '')
              (os_MkdirAll e (cfg_StackRoot c)) (ret (Inr c)))))"

definition config_Load :: "YamlReader \<Rightarrow> Env \<Rightarrow> string \<Rightarrow> Config result io" where
  "config_Load Y e path = do {
     data \<leftarrow> os_ReadFile e path;
     case data of
       Inl err \<Rightarrow>
         if IsNotExist err then do {
           v \<leftarrow> config_Validate e DefaultConfig;
           ret (case v of
             Inl err \<Rightarrow> Inl (''no bbsit config found at '' @ path @ '' and defaults are invalid: '' @ err)
           | Inr c \<Rightarrow> Inr c)
         } else ret (Inl err)
     | Inr data \<Rightarrow> (case yr_Config Y data DefaultConfig of
         Inl err \<Rightarrow> ret (Inl err)
       | Inr c \<Rightarrow> (case yr_KeyPath Y data of
           Inl err \<Rightarrow> ret (Inl err)
         | Inr present \<Rightarrow>
             config_Validate e (case present of
               Some p \<Rightarrow> c
             | None \<Rightarrow> c\<lparr>cfg_SecretKeyPath := Join2 (DirOf (cfg_DBPath c)) ''secret.key''\<rparr>)))
   }"

section \<open>Well-formed configurations\<close>

definition config_ok :: "fs \<Rightarrow> Config \<Rightarrow> bool" where
  "config_ok f c \<longleftrightarrow> cfg_DBPath c \<noteq> '''' \<and> cfg_SecretKeyPath c \<noteq> '''' \<and> cfg_StackRoot c \<noteq> '''' \<and> cfg_Listen c \<noteq> '''' \<and>
     (\<forall>d \<in> {DirOf (cfg_DBPath c), DirOf (cfg_SecretKeyPath c), cfg_StackRoot c}. IsAbs d \<longrightarrow> is_dir f (Clean d))"

lemma mkdirs_dir:
  "is_dir f q \<or> q \<in> set ds \<Longrightarrow> is_dir (foldl (\<lambda>g d. if is_dir g d then g else AList.update d DirNode g) f ds) q"
proof (induction ds arbitrary: f)
  case (Cons d ds)
  let ?g = "if is_dir f d then f else AList.update d DirNode f"
  have "is_dir ?g q \<or> q \<in> set ds"
    using Cons.prems by (auto simp: is_dir_def)
  from Cons.IH[OF this] show ?case by simp
qed simp

lemma MkdirAll_dir:
  assumes "fs_MkdirAll p f = Inr f'" and "IsAbs p"
  shows "is_dir f' (Clean p)"
proof (cases "path_comps p = []")
  case True
  with assms(2) show ?thesis by (simp add: Clean_render render_path_def is_dir_def)
next
  case False
  then have "Clean p \<in> set (path_prefixes p)"
    by (auto simp: path_prefixes_def Let_def Clean_render Suc_le_eq intro!: image_eqI[of _ _ "length (path_comps p)"])
  with assms(1) show ?thesis
    by (auto simp: fs_MkdirAll_def split: if_splits intro!: mkdirs_dir)
qed

lemma MkdirAll_keeps_dir: "fs_MkdirAll p f = Inr f' \<Longrightarrow> is_dir f q \<Longrightarrow> is_dir f' q"
  by (auto simp: fs_MkdirAll_def split: if_splits intro!: mkdirs_dir)

lemma wp_MkdirAll:
  assumes "\<And>err w'. Q (Inl err) w'"
    and "\<And>w'. (IsAbs p \<longrightarrow> is_dir (w_fs w') (Clean p)) \<Longrightarrow> (\<forall>q. is_dir (w_fs w) q \<longrightarrow> is_dir (w_fs w') q) \<Longrightarrow> Q (Inr ()) w'"
  shows "wp (os_MkdirAll e p) w Q"
  unfolding os_MkdirAll_def
  by (rule wp_fs_op) (use assms MkdirAll_dir MkdirAll_keeps_dir in auto)

lemma Validate_ok: "wp (config_Validate e c) w (\<lambda>r w'. \<forall>c'. r = Inr c' \<longrightarrow> config_ok (w_fs w') c')"
  unfolding config_Validate_def Let_def
  by (auto simp: wp_check_err config_ok_def intro!: wp_MkdirAll)

text \<open>
  \<^bold>\<open>Property C35.\<close> A configuration that \<open>Load\<close> returns is well-formed, whatever the file holds and whether it
  exists: no required field is empty and the directories of the database, the key and the stacks exist.
\<close>

theorem loaded_config_ok:
  assumes "run_state (config_Load Y e path) w = (Inr c, w')"
  shows "config_ok (w_fs w') c"
proof -
  have "wp (config_Load Y e path) w (\<lambda>r w'. \<forall>c. r = Inr c \<longrightarrow> config_ok (w_fs w') c)"
    unfolding config_Load_def wp_bind
  proof (rule wp_mono [OF wp_True], goal_cases)
    case (1 data w1)
    have default: "wp (config_Validate e DefaultConfig) w1 (\<lambda>v w'. \<forall>c. (case v of
        Inl err \<Rightarrow> Inl (''no bbsit config found at '' @ path @ '' and defaults are invalid: '' @ err) | Inr c \<Rightarrow> Inr c) = Inr c \<longrightarrow>
        config_ok (w_fs w') c)"
      by (rule wp_mono [OF Validate_ok]) (auto split: sum.split)
    show ?case
      by (auto split: sum.split option.split intro: Validate_ok default)
  qed
  from wp_run [OF this assms] show ?thesis by simp
qed

end
