(* ===== verification/Daemon.thy ===== *)
theory Daemon
  imports Config Db_Open Compose
begin

text \<open>
  The start of the daemon (\<open>main\<close> of \<open>cmd/bbsit/main.go\<close>) and its admin socket (\<open>ServeAdminSocket\<close> of
  \<open>internal/web/admin.go\<close>): configuration, database, the sweep of what the last run left behind, the
  container runtime, and then the goroutines, which are started in the order of \<open>Started\<close>. A socket is a file
  of the file system whose contents are empty; its owner is not modelled.
\<close>

section \<open>The admin socket\<close>

text \<open>\<open>net.Listen\<close> creates the socket, under the usual umask with mode 0755; closing the listener removes it.\<close>

definition listen_unix :: "Env \<Rightarrow> string \<Rightarrow> unit result io" where
  "listen_unix e path = os_CreateExcl e path 493"

definition close_listener :: "Env \<Rightarrow> string \<Rightarrow> error \<Rightarrow> unit result io" where
  "close_listener e path err = do { r \<leftarrow> os_Remove e path; ret (Inl err) }"

definition os_Chown :: "Env \<Rightarrow> string \<Rightarrow> int \<Rightarrow> unit result io" where
  "os_Chown e path gid = fs_op e path Inr"

definition ServeAdminSocket :: "Env \<Rightarrow> (string \<Rightarrow> int result) \<Rightarrow> string \<Rightarrow> string \<Rightarrow> int \<Rightarrow> unit result io" where
  "ServeAdminSocket e lookupGroup path grp mode =
     (let mode = (if mode = 0 then 432 else mode) in
      check_err (''mkdir '' @ DirOf path @ '': '') (os_MkdirAll e (DirOf path)) (do {
        rm \<leftarrow> os_Remove e path;
        check_err (''listen unix '' @ path @ '': '') (listen_unix e path) (do {
          c \<leftarrow> os_Chmod e path mode;
          case c of
            Inl err \<Rightarrow> close_listener e path (''chmod '' @ path @ '': '' @ err)
          | Inr u \<Rightarrow>
              if grp = '''' then ret (Inr ())
              else (case lookupGroup grp of
                Inl err \<Rightarrow> close_listener e path (''lookup group '' @ grp @ '': '' @ err)
              | Inr gid \<Rightarrow> do {
                  ow \<leftarrow> os_Chown e path gid;
                  case ow of
                    Inl err \<Rightarrow> close_listener e path (''chown '' @ path @ '' to group '' @ grp @ '': '' @ err)
                  | Inr u \<Rightarrow> ret (Inr ())
                })
        })
      }))"

section \<open>Start\<close>

datatype LogLevel = LevelDebug | LevelInfo | LevelWarn | LevelError

definition log_level :: "Config \<Rightarrow> LogLevel" where
  "log_level c =
     (if cfg_LogLevel c = ''debug'' then LevelDebug
      else if cfg_LogLevel c = ''warn'' then LevelWarn
      else if cfg_LogLevel c = ''error'' then LevelError
      else LevelInfo)"

datatype Started = StartScheduler | StartTunnels | StartHttp | StartAdminSocket

text \<open>The daemon once it waits for a signal; \<open>dm_db\<close> is the database that its goroutines start with.\<close>

record DaemonRun =
  dm_config :: Config
  dm_level :: LogLevel
  dm_codec :: Codec
  dm_runtime :: string
  dm_db :: DB
  dm_started :: "Started list"

definition admin_socket :: "Env \<Rightarrow> (string \<Rightarrow> int result) \<Rightarrow> Config \<Rightarrow> Started list result io" where
  "admin_socket e lookupGroup c =
     (if cfg_AdminSocket c = '''' then ret (Inr [])
      else check_err ''admin socket: '' (ServeAdminSocket e lookupGroup (cfg_AdminSocket c) (cfg_AdminGroup c) 0)
        (ret (Inr [StartAdminSocket])))"

text \<open>The sweep of \<open>main\<close>: \<open>ResetStaleStates\<close>, then \<open>ResetStaleBackups\<close>.\<close>

definition sweep :: "Env \<Rightarrow> unit io" where
  "sweep e = do {
     now \<leftarrow> time_Now e;
     db_write (ResetStaleStates now);
     now \<leftarrow> time_Now e;
     db_write (ResetStaleBackups now)
   }"

definition daemon_start :: "YamlReader \<Rightarrow> Opener \<Rightarrow> (string \<Rightarrow> error option) \<Rightarrow> (string \<Rightarrow> int result) \<Rightarrow> string \<Rightarrow>
    DaemonRun result io" where
  "daemon_start Y U lookPath lookupGroup configPath = (let e = op_env U in do {
     c \<leftarrow> config_Load Y e configPath;
     case c of
       Inl err \<Rightarrow> ret (Inl (''bbsit config: '' @ err))
     | Inr cfg \<Rightarrow> do {
         d \<leftarrow> OpenWithKey U (cfg_DBPath cfg) (cfg_SecretKeyPath cfg);
         case d of
           Inl err \<Rightarrow> ret (Inl (''open database: '' @ err))
         | Inr (cd, cn) \<Rightarrow> do {
             db_write (\<lambda>old. cn_db cn);
             sweep e;
             case ResolvedRuntime lookPath cfg of
               Inl err \<Rightarrow> ret (Inl (''container runtime: '' @ err))
             | Inr rt \<Rightarrow> do {
                 db \<leftarrow> io_gets w_db;
                 s \<leftarrow> admin_socket e lookupGroup cfg;
                 ret (case s of
                   Inl err \<Rightarrow> Inl err
                 | Inr socket \<Rightarrow> Inr \<lparr>dm_config = cfg, dm_level = log_level cfg, dm_codec = cd, dm_runtime = rt, dm_db = db,
                     dm_started = [StartScheduler, StartTunnels, StartHttp] @ socket\<rparr>)
               }
           }
       }
   })"

section \<open>What the daemon starts with\<close>

text \<open>Nothing is in progress in a database.\<close>

definition settled_db :: "DB \<Rightarrow> bool" where
  "settled_db db \<longleftrightarrow> (\<forall>i s. GetState db i = Inr s \<longrightarrow> st_Status s \<noteq> StatusDeploying) \<and>
     list_all (\<lambda>d. d_Status d \<noteq> DeployInProgress) (db_deployments db) \<and>
     list_all (\<lambda>r. br_Status r \<noteq> BackupInProgress) (db_backup_runs db)"

lemma reset_settled_db: "settled_db (ResetStaleBackups n2 (ResetStaleStates n1 db))"
proof -

  have dep: "db_deployments (ResetStaleBackups n2 (ResetStaleStates n1 db)) = db_deployments (ResetStaleBackups n1 (ResetStaleStates n1 db))"
    and st: "GetState (ResetStaleBackups n2 (ResetStaleStates n1 db)) i = GetState (ResetStaleBackups n1 (ResetStaleStates n1 db)) i" for i
    by (simp_all add: ResetStaleBackups_def GetState_def)
  have "list_all (\<lambda>r. br_Status r \<noteq> BackupInProgress) (db_backup_runs (ResetStaleBackups n2 (ResetStaleStates n1 db)))"
    using backups.settled_reset [of n2 "ResetStaleStates n1 db"] unfolding backups.settled_def list_all_iff .
  moreover have "list_all (\<lambda>d. d_Status d \<noteq> DeployInProgress) (db_deployments (ResetStaleBackups n1 (ResetStaleStates n1 db)))"
    using restart_settled [of n1 db] by blast
  moreover have "st_Status s \<noteq> StatusDeploying" if "GetState (ResetStaleBackups n1 (ResetStaleStates n1 db)) i = Inr s" for i s
    using restart_settled [of n1 db i] that by (auto split: sum.splits if_splits)
  ultimately show ?thesis
    unfolding settled_db_def dep st by blast
qed

lemma wp_close [simp]: "wp (close_listener e p err) w (\<lambda>r w'. r = Inr () \<longrightarrow> Q r w')"
  by (simp add: close_listener_def)

lemma holds_steps [wf_intros]:
  "keeps (holds_file q c m) (os_CreateExcl e p n)" "keeps (holds_file q c m) (os_Chown e p g)"
  unfolding os_CreateExcl_def os_Chown_def
  by (rule keeps_file_op; auto dest!: fs_CreateExcl_new simp: file_at_def)+

lemma socket_keeps:
  assumes "Clean q \<noteq> Clean path"
  shows "keeps (holds_file q c m) (ServeAdminSocket e lookupGroup path grp mode)"
  unfolding ServeAdminSocket_def Let_def listen_unix_def close_listener_def
  by (intro wf_intros keeps_file_Remove keeps_file_Chmod assms)

lemma Chown_same: "wp (os_Chown e p g) w (\<lambda>r w'. w_fs w' = w_fs w)"
  unfolding os_Chown_def by (rule wp_fs_op) auto

text \<open>A socket that is served has the mode that was asked for.\<close>

lemma socket_served:
  "wp (ServeAdminSocket e lookupGroup path grp 0) w (\<lambda>r w'. r = Inr () \<longrightarrow> holds_file path '''' 432 w')"
  unfolding ServeAdminSocket_def Let_def listen_unix_def wp_check_err wp_bind
proof (rule wp_mono [OF wp_True], goal_cases)
  case (1 r w1)
  have chown: "wp (os_Chown e path g) w2 (\<lambda>ow w3. wp (case ow of
        Inl err \<Rightarrow> close_listener e path (f err) | Inr u \<Rightarrow> ret (Inr ())) w3
        (\<lambda>r w'. r = Inr () \<longrightarrow> holds_file path '''' 432 w'))" if "holds_file path '''' 432 w2" for g f w2
    by (rule wp_mono [OF Chown_same]) (use that in \<open>auto simp: holds_file_def split: sum.split\<close>)
  have chmod: "wp (os_Chmod e path 432) w2 (\<lambda>c w3. wp (case c of
        Inl err \<Rightarrow> close_listener e path (''chmod '' @ path @ '': '' @ err)
      | Inr u \<Rightarrow> if grp = '''' then ret (Inr ()) else (case lookupGroup grp of
          Inl err \<Rightarrow> close_listener e path (''lookup group '' @ grp @ '': '' @ err)
        | Inr gid \<Rightarrow> do { ow \<leftarrow> os_Chown e path gid; case ow of
            Inl err \<Rightarrow> close_listener e path (''chown '' @ path @ '' to group '' @ grp @ '': '' @ err) | Inr u \<Rightarrow> ret (Inr ()) })) w3
        (\<lambda>r w'. r = Inr () \<longrightarrow> holds_file path '''' 432 w'))" if "file_at (w_fs w2) path '''' 493" for w2
    unfolding os_Chmod_def
  proof (rule wp_fs_op, goal_cases)
    case (2 f' w3)
    have "holds_file path '''' 432 w3"
      using fs_Chmod_at [OF 2(1) that] 2(2) by (simp add: holds_file_def)
    with chown show ?case by (auto split: sum.split)
  qed simp
  show ?case
  proof (cases r)
    case (Inr u)
    show ?thesis unfolding Inr sum.case wp_bind wp_check_err
    proof (rule wp_mono [OF wp_True], goal_cases)
      case (1 x w2)
      show ?case
        by (rule wp_CreateExcl) (simp_all add: chmod file_at_def if_P del: wp_bind)
    qed
  qed simp
qed

text \<open>What holds of the daemon whatever it met on the way, as long as it got to wait for a signal.\<close>

definition daemon_ok :: "(string \<Rightarrow> error option) \<Rightarrow> (string \<Rightarrow> Codec result) \<Rightarrow> DaemonRun \<Rightarrow> World \<Rightarrow> bool" where
  "daemon_ok lookPath cipher D w \<longleftrightarrow>
     db_ok (dm_db D) \<and> settled_db (dm_db D) \<and> lookPath (dm_runtime D) = None \<and>
     (\<exists>key. length key = 32 \<and> file_at (w_fs w) (cfg_SecretKeyPath (dm_config D)) key 384 \<and> cipher key = Inr (dm_codec D)) \<and>
     (cfg_AdminSocket (dm_config D) \<noteq> '''' \<longrightarrow> file_at (w_fs w) (cfg_AdminSocket (dm_config D)) '''' 432)"

lemma ResolvedRuntime_found: "ResolvedRuntime lookPath c = Inr rt \<Longrightarrow> lookPath rt = None"
  by (auto simp: ResolvedRuntime_def split: if_splits option.splits)

lemma admin_socket_post:
  assumes "holds_file q key 384 w" and "cfg_AdminSocket c = '''' \<or> Clean q \<noteq> Clean (cfg_AdminSocket c)"
  shows "wp (admin_socket e lookupGroup c) w (\<lambda>s w'. \<forall>l. s = Inr l \<longrightarrow> holds_file q key 384 w' \<and>
    (cfg_AdminSocket c \<noteq> '''' \<longrightarrow> holds_file (cfg_AdminSocket c) '''' 432 w'))"
proof (cases "cfg_AdminSocket c = ''''")
  case False
  then have other: "Clean q \<noteq> Clean (cfg_AdminSocket c)"
    using assms(2) by blast
  show ?thesis
    unfolding admin_socket_def if_not_P [OF False] wp_check_err
    by (rule wp_mono [OF wp_conj [OF wp_keeps [OF socket_keeps [OF other] assms(1)] socket_served]])
      (auto split: sum.split)
qed (use assms in \<open>simp add: admin_socket_def\<close>)

lemma sweep_post:
  assumes "db_ok (w_db w)"
  shows "wp (sweep e) w (\<lambda>u w'. db_ok (w_db w') \<and> settled_db (w_db w') \<and> w_fs w' = w_fs w)"
  using assms by (auto simp: sweep_def time_Now_def wp_io_tick reset_settled_db intro!: wf_intros)


end
