(* ===== verification/Demo_Daemon.thy ===== *)
theory Demo_Daemon
  imports Demo_Migrations Daemon
begin

text \<open>A start of the daemon on the disk and the old database of the migrations; it instantiates the theorems.\<close>

definition demo_reader :: YamlReader where
  "demo_reader = \<lparr>yr_Config = (\<lambda>s c. Inr (c\<lparr>cfg_DBPath := ''/o/state.db'', cfg_StackRoot := ''/o/stacks'',
       cfg_AdminSocket := ''/o/admin.sock''\<rparr>)), yr_KeyPath = (\<lambda>s. Inr None)\<rparr>"

definition demo_lookPath :: "string \<Rightarrow> error option" where
  "demo_lookPath p = (if p = ''podman'' then None else Some ''not found'')"

definition demo_loaded :: "Config result \<times> World" where
  "demo_loaded = run_state (config_Load demo_reader (op_env demo_opener) ''/o/notes'') demo_disk"

lemma demo_loads: "\<not> isl (fst demo_loaded)"
  by code_simp

theorem loaded_config_ok_witness:
  "\<exists>c w'. run_state (config_Load demo_reader (op_env demo_opener) ''/o/notes'') demo_disk = (Inr c, w') \<and> config_ok (w_fs w') c"
proof -
  obtain c where "fst demo_loaded = Inr c"
    using demo_loads by (cases "fst demo_loaded") auto
  then have "run_state (config_Load demo_reader (op_env demo_opener) ''/o/notes'') demo_disk = (Inr c, snd demo_loaded)"
    by (simp add: demo_loaded_def prod_eq_iff)
  with loaded_config_ok [OF this] show ?thesis by blast
qed

definition demo_start :: "DaemonRun result \<times> World" where
  "demo_start = run_state (daemon_start demo_reader demo_opener demo_lookPath (\<lambda>g. Inr 5) ''/o/notes'') demo_disk"

lemma demo_starts: "case fst demo_start of Inl err \<Rightarrow> False
  | Inr D \<Rightarrow> dm_started D = [StartScheduler, StartTunnels, StartHttp, StartAdminSocket] \<and>
      cfg_SecretKeyPath (dm_config D) = ''/o/secret.key'' \<and> cfg_AdminSocket (dm_config D) = ''/o/admin.sock''"
  by code_simp

lemma demo_paths_apart: "Clean ''/o/secret.key'' \<noteq> Clean ''/o/admin.sock''"
  by code_simp


end
