(* ===== verification/Ctl.thy ===== *)
theory Ctl
  imports Go_File Backup
begin

text \<open>
  \<open>cmd/bbsit-ctl/main.go\<close>: the command line tool that talks to the daemon's admin socket. It is a
  process of its own, so it has a state of its own: the files, what it wrote to its two output streams and
  the requests it sent. The server, the transport, the JSON decoders, the alignment of tables, the zone of
  times and floating-point numbers are parameters.
\<close>

section \<open>State and surroundings\<close>

record HttpRequest =
  hr_Method :: string
  hr_Path :: string
  hr_ContentType :: string
  hr_Body :: string
  hr_BodyErr :: "error option"

text \<open>A response; the body comes in pieces and may end in an error.\<close>

record HttpResponse =
  hp_Status :: string
  hp_StatusCode :: int
  hp_ContentLength :: int
  hp_Chunks :: "string list"
  hp_Err :: "error option"

record Term =
  tm_fs :: fs
  tm_stdout :: string
  tm_stderr :: string
  tm_sent :: "HttpRequest list"
  tm_tick :: nat

type_synonym 'a ctl = "(Term, 'a) state"

record projectWithState =
  pws_ID :: string
  pws_DisplayName :: string
  pws_Status :: string
  pws_CurrentDigest :: string
  pws_CurrentDigests :: smap
  pws_LastDeployAt :: "int option"
  pws_LastError :: string

record deploymentRow =
  dr_ID :: int
  dr_Trigger :: string
  dr_Status :: string
  dr_FromDigest :: string
  dr_ToDigest :: string
  dr_StartedAt :: int
  dr_ErrorMessage :: string

record backupRun =
  brn_ID :: int
  brn_ProjectID :: string
  brn_Status :: string
  brn_FilePath :: string
  brn_Bytes :: int
  brn_SHA256 :: string
  brn_StartedAt :: int
  brn_EndedAt :: "int option"
  brn_Error :: string

record backupFile =
  bfl_Name :: string
  bfl_Path :: string
  bfl_Bytes :: int
  bfl_Modified :: int

text \<open>
  \<open>ct_Do socket n\<close> answers the \<open>n\<close>-th call; a decoder gets what could be read of a body and the error
  after it. \<open>ct_Object\<close> lists the members of a JSON object, with the text of those that are strings.
\<close>

record Ctl =
  ct_Do :: "string \<Rightarrow> nat \<Rightarrow> HttpRequest \<Rightarrow> HttpResponse result"
  ct_FsError :: "nat \<Rightarrow> string \<Rightarrow> error option"
  ct_StdoutError :: "nat \<Rightarrow> error option"
  ct_Now :: "nat \<Rightarrow> int"
  ct_Pick :: "nat \<Rightarrow> nat"
  ct_Upload :: "nat \<Rightarrow> string \<Rightarrow> string list"
  ct_Stdin :: string
  ct_Dir :: string
  ct_DirSize :: int
  ct_StdoutTty :: bool
  ct_StderrTty :: bool
  ct_Align :: "string \<Rightarrow> string"
  ct_Local :: "string \<Rightarrow> int \<Rightarrow> string"
  ct_Rate :: "int \<Rightarrow> int \<Rightarrow> int"
  ct_Percent :: "int \<Rightarrow> int \<Rightarrow> string"
  ct_Duration :: "int \<Rightarrow> string"
  ct_Strings :: "string \<Rightarrow> smap option"
  ct_Projects :: "string \<Rightarrow> error option \<Rightarrow> projectWithState list result"
  ct_Deployments :: "string \<Rightarrow> error option \<Rightarrow> deploymentRow list result"
  ct_Run :: "string \<Rightarrow> error option \<Rightarrow> backupRun result"
  ct_Files :: "string \<Rightarrow> error option \<Rightarrow> backupFile list result"
  ct_Object :: "string \<Rightarrow> error option \<Rightarrow> (string \<times> string option) list result"
  ct_Marshal :: "(string \<times> string) list \<Rightarrow> string"

abbreviation line_end :: string where
  "line_end \<equiv> [CHR 0x0A]"

definition print_out :: "string \<Rightarrow> unit ctl" where
  "print_out s = State (\<lambda>t. ((), t\<lparr>tm_stdout := tm_stdout t @ s\<rparr>))"

definition print_err :: "string \<Rightarrow> unit ctl" where
  "print_err s = State (\<lambda>t. ((), t\<lparr>tm_stderr := tm_stderr t @ s\<rparr>))"

definition ctl_tick :: "nat ctl" where
  "ctl_tick = State (\<lambda>t. (tm_tick t, t\<lparr>tm_tick := Suc (tm_tick t)\<rparr>))"

definition ctl_files :: "fs ctl" where
  "ctl_files = State (\<lambda>t. (tm_fs t, t))"

text \<open>\<open>x, err := m; if err != nil { return err }\<close>, then \<open>k x\<close>.\<close>

definition or_return :: "'a result ctl \<Rightarrow> ('a \<Rightarrow> 'b result ctl) \<Rightarrow> 'b result ctl" where
  "or_return m k = do {
     r \<leftarrow> m;
     case r of Inl err \<Rightarrow> State_Monad.return (Inl err) | Inr x \<Rightarrow> k x
   }"

abbreviation fail :: "error \<Rightarrow> 'a result ctl" where
  "fail err \<equiv> State_Monad.return (Inl err)"

abbreviation done_ok :: "unit result ctl" where
  "done_ok \<equiv> State_Monad.return (Inr ())"

text \<open>A path is relative to the working directory.\<close>

definition abs_path :: "Ctl \<Rightarrow> string \<Rightarrow> string" where
  "abs_path U p = (if p = '''' \<or> IsAbs p then p else ct_Dir U @ ''/'' @ p)"

definition ctl_fs :: "Ctl \<Rightarrow> string \<Rightarrow> (string \<Rightarrow> fs \<Rightarrow> fs result) \<Rightarrow> unit result ctl" where
  "ctl_fs U path f = do {
     n \<leftarrow> ctl_tick;
     case ct_FsError U n path of
       Some err \<Rightarrow> fail err
     | None \<Rightarrow> State (\<lambda>t. case f (abs_path U path) (tm_fs t) of
         Inl err \<Rightarrow> (Inl err, t)
       | Inr fs' \<Rightarrow> (Inr (), t\<lparr>tm_fs := fs'\<rparr>))
   }"

section \<open>Escaping\<close>

text \<open>\<open>url.PathEscape\<close>: the bytes that stay are those Go keeps in a path segment.\<close>

definition segment_char :: "char \<Rightarrow> bool" where
  "segment_char c \<longleftrightarrow> is_digit c \<or> (CHR ''a'' \<le> c \<and> c \<le> CHR ''z'') \<or> (CHR ''A'' \<le> c \<and> c \<le> CHR ''Z'') \<or>
     c \<in> set ''-_.~$&+:=@''"

definition upper_hex :: "nat \<Rightarrow> char" where
  "upper_hex n = ''0123456789ABCDEF'' ! n"

definition escape_char :: "char \<Rightarrow> string" where
  "escape_char c = (if segment_char c then [c] else [CHR ''%'', upper_hex (of_char c div 16), upper_hex (of_char c mod 16)])"

definition PathEscape :: "string \<Rightarrow> string" where
  "PathEscape s = concat (map escape_char s)"

section \<open>Sizes\<close>

text \<open>Rounding to a multiple, ties to even, and the conversion of an integer to \<open>float64\<close>.\<close>

definition round_div :: "int \<Rightarrow> int \<Rightarrow> int" where
  "round_div a b = (let q = a div b; r = 2 * (a mod b) in
     if r < b then q else if b < r then q + 1 else if even q then q else q + 1)"

fun bit_length :: "nat \<Rightarrow> nat" where
  "bit_length n = (if n = 0 then 0 else Suc (bit_length (n div 2)))"

declare bit_length.simps [simp del]

definition float64_of :: "int \<Rightarrow> int" where
  "float64_of n = (let b = bit_length (nat \<bar>n\<bar>) in if b \<le> 53 then n else round_div n (2 ^ (b - 53)) * 2 ^ (b - 53))"

text \<open>\<open>%.1f\<close> of a quotient by a power of two, which is exact.\<close>

definition one_decimal :: "int \<Rightarrow> int \<Rightarrow> string" where
  "one_decimal n d = (let t = round_div (10 * n) d in Itoa (t div 10) @ ''.'' @ Itoa (t mod 10))"

function human_loop :: "int \<Rightarrow> int \<Rightarrow> nat \<Rightarrow> int \<times> nat" where
  "human_loop x d e = (if x \<ge> 1024 then human_loop (x div 1024) (wrap64 (d * 1024)) (e + 1) else (d, e))"
  by pat_completeness auto

termination by (relation "measure (\<lambda>(x, d, e). nat x)") auto

declare human_loop.simps [simp del]

definition humanBytes :: "int \<Rightarrow> string" where
  "humanBytes n =
     (if n < 1024 then Itoa n @ '' B''
      else case human_loop (n div 1024) 1024 0 of (d, e) \<Rightarrow>
        one_decimal (float64_of n) d @ '' '' @ [''KMGTPE'' ! e] @ ''B'')"

section \<open>The client\<close>

definition ctl_do :: "Ctl \<Rightarrow> string \<Rightarrow> HttpRequest \<Rightarrow> HttpResponse result ctl" where
  "ctl_do U socket rq = do {
     n \<leftarrow> ctl_tick;
     State (\<lambda>t. ((), t\<lparr>tm_sent := tm_sent t @ [rq]\<rparr>));
     case ct_Do U socket n rq of
       Inr resp \<Rightarrow> State_Monad.return (Inr resp)
     | Inl err \<Rightarrow>
         if Contains err ''no such file or directory''
         then fail (''admin socket not found '' @ em_dash @ '' is bbsit running? (path: '' @ TrimPrefix err ''Get '' @
           ''; override with BBSIT_SOCKET)'')
         else if Contains err ''permission denied''
         then fail (''permission denied accessing admin socket '' @ em_dash @
           '' add your user to the admin_group from bbsit config'')
         else fail err
   }"

definition plain_request :: "string \<Rightarrow> string \<Rightarrow> HttpRequest" where
  "plain_request method path = \<lparr>hr_Method = method, hr_Path = path, hr_ContentType = '''', hr_Body = '''', hr_BodyErr = None\<rparr>"

definition apiError :: "Ctl \<Rightarrow> HttpResponse \<Rightarrow> error" where
  "apiError U resp =
     (let body = concat (hp_Chunks resp) in
      case ct_Strings U body of
        Some m \<Rightarrow> if smap_get m ''error'' \<noteq> '''' then hp_Status resp @ '': '' @ smap_get m ''error''
          else hp_Status resp @ '': '' @ TrimSpace body
      | None \<Rightarrow> hp_Status resp @ '': '' @ TrimSpace body)"

text \<open>A call whose error statuses are errors.\<close>

definition ctl_call :: "Ctl \<Rightarrow> string \<Rightarrow> HttpRequest \<Rightarrow> HttpResponse result ctl" where
  "ctl_call U socket rq = or_return (ctl_do U socket rq) (\<lambda>resp.
     if hp_StatusCode resp \<ge> 400 then fail (apiError U resp) else State_Monad.return (Inr resp))"

definition getJSON :: "Ctl \<Rightarrow> string \<Rightarrow> string \<Rightarrow> (string \<Rightarrow> error option \<Rightarrow> 'a result) \<Rightarrow> 'a result ctl" where
  "getJSON U socket path dec = or_return (ctl_call U socket (plain_request ''GET'' path))
     (\<lambda>resp. State_Monad.return (dec (concat (hp_Chunks resp)) (hp_Err resp)))"

definition ctl_post :: "Ctl \<Rightarrow> string \<Rightarrow> string \<Rightarrow> unit result ctl" where
  "ctl_post U socket path = or_return (ctl_call U socket (plain_request ''POST'' path)) (\<lambda>resp. done_ok)"

definition ctl_delete :: "Ctl \<Rightarrow> string \<Rightarrow> string \<Rightarrow> unit result ctl" where
  "ctl_delete U socket path = or_return (ctl_call U socket (plain_request ''DELETE'' path)) (\<lambda>resp. done_ok)"

section \<open>Progress\<close>

record progressMeter =
  pm_label :: string
  pm_total :: int
  pm_written :: int
  pm_start :: int
  pm_last :: int
  pm_tty :: bool

definition ctl_now :: "Ctl \<Rightarrow> int ctl" where
  "ctl_now U = do { n \<leftarrow> ctl_tick; State_Monad.return (ct_Now U n) }"

definition newProgressMeter :: "Ctl \<Rightarrow> string \<Rightarrow> int \<Rightarrow> progressMeter ctl" where
  "newProgressMeter U label tot = do {
     now \<leftarrow> ctl_now U;
     State_Monad.return \<lparr>pm_label = label, pm_total = tot, pm_written = 0, pm_start = now, pm_last = now - 1000000000,
       pm_tty = ct_StderrTty U\<rparr>
   }"

definition pm_tick :: "Ctl \<Rightarrow> bool \<Rightarrow> progressMeter \<Rightarrow> progressMeter ctl" where
  "pm_tick U force p = do {
     now \<leftarrow> ctl_now U;
     if \<not> force \<and> now - pm_last p < 1000000000 then State_Monad.return p
     else let p = p\<lparr>pm_last := now\<rparr>;
         elapsed = now - pm_start p;
         rate = (if elapsed < 50000000 then 0 else ct_Rate U (pm_written p) elapsed);
         line = (if pm_total p > 0
           then pm_label p @ '': '' @ humanBytes (pm_written p) @ '' / '' @ humanBytes (pm_total p) @ '' ('' @
             ct_Percent U (pm_written p) (pm_total p) @ ''%) at '' @ humanBytes rate @ ''/s''
           else pm_label p @ '': '' @ humanBytes (pm_written p) @ '' at '' @ humanBytes rate @ ''/s'')
       in do {
         print_err (if pm_tty p then [CHR 0x0D, CHR 0x1B] @ ''[K'' @ line else line @ line_end);
         State_Monad.return p
       }
   }"

definition pm_Write :: "Ctl \<Rightarrow> string \<Rightarrow> progressMeter \<Rightarrow> progressMeter ctl" where
  "pm_Write U b p = pm_tick U False (p\<lparr>pm_written := wrap64 (pm_written p + int (length b))\<rparr>)"

definition pm_Finish :: "Ctl \<Rightarrow> progressMeter \<Rightarrow> unit ctl" where
  "pm_Finish U p = do {
     p \<leftarrow> pm_tick U True p;
     now \<leftarrow> ctl_now U;
     print_err ((if pm_tty p then line_end else '''') @ pm_label p @ '': done '' @ em_dash @ '' '' @
       humanBytes (pm_written p) @ '' in '' @ ct_Duration U (now - pm_start p) @ line_end)
   }"

section \<open>Writing the response\<close>

text \<open>\<open>io.Copy\<close> of a body in pieces to a writer and, where there is one, to the meter after it.\<close>

fun meter_write :: "Ctl \<Rightarrow> string \<Rightarrow> progressMeter option \<Rightarrow> progressMeter option ctl" where
  "meter_write U b None = State_Monad.return None"
| "meter_write U b (Some p) = do { p \<leftarrow> pm_Write U b p; State_Monad.return (Some p) }"

fun copy_body :: "Ctl \<Rightarrow> (string \<Rightarrow> unit result ctl) \<Rightarrow> string list \<Rightarrow> error option \<Rightarrow> progressMeter option \<Rightarrow>
    (unit result \<times> progressMeter option) ctl" where
  "copy_body U wr [] err m = State_Monad.return (case err of None \<Rightarrow> Inr () | Some x \<Rightarrow> Inl x, m)"
| "copy_body U wr (b # bs) err m = do {
     r \<leftarrow> wr b;
     case r of
       Inl x \<Rightarrow> State_Monad.return (Inl x, m)
     | Inr u \<Rightarrow> do { m \<leftarrow> meter_write U b m; copy_body U wr bs err m }
   }"

definition write_out :: "Ctl \<Rightarrow> string \<Rightarrow> unit result ctl" where
  "write_out U s = do {
     n \<leftarrow> ctl_tick;
     case ct_StdoutError U n of Some err \<Rightarrow> fail err | None \<Rightarrow> do { print_out s; done_ok }
   }"

text \<open>The file must be new; the deferred call removes it unless everything was written, flushed and closed.\<close>

definition writeNewFile :: "Ctl \<Rightarrow> string \<Rightarrow> int \<Rightarrow> HttpResponse \<Rightarrow> progressMeter option \<Rightarrow>
    (unit result \<times> progressMeter option) ctl" where
  "writeNewFile U path mode resp meter = do {
     r \<leftarrow> ctl_fs U path (\<lambda>p. fs_CreateExcl p mode);
     case r of
       Inl err \<Rightarrow> State_Monad.return (Inl err, meter)
     | Inr u \<Rightarrow> do {
         cm \<leftarrow> copy_body U (\<lambda>b. ctl_fs U path (\<lambda>p. fs_Append p b)) (hp_Chunks resp) (hp_Err resp) meter;
         r \<leftarrow> (case fst cm of
             Inl err \<Rightarrow> fail err
           | Inr u \<Rightarrow> or_return (ctl_fs U path (\<lambda>p. Inr)) (\<lambda>u. ctl_fs U path (\<lambda>p. Inr)));
         (case r of Inl err \<Rightarrow> ctl_fs U path fs_Remove | Inr u \<Rightarrow> done_ok);
         State_Monad.return (r, snd cm)
       }
   }"

section \<open>Commands\<close>

definition project_path :: "string \<Rightarrow> string" where
  "project_path pid = ''/api/projects/'' @ PathEscape pid"

definition tab_row :: "string list \<Rightarrow> string" where
  "tab_row cells = strings_Join cells [CHR 0x09] @ line_end"

definition cut_text :: "nat \<Rightarrow> string \<Rightarrow> string" where
  "cut_text n s = (if n < length s then take n s else s)"

text \<open>An error for a table: shortened, or a dash.\<close>

definition error_cell :: "nat \<Rightarrow> string \<Rightarrow> string" where
  "error_cell n s = (let s = (if n < length s then take n s @ ellipsis else s) in if s = '''' then em_dash else s)"

text \<open>Which entry of a map comes first is not determined.\<close>

definition status_row :: "Ctl \<Rightarrow> projectWithState \<Rightarrow> string ctl" where
  "status_row U ps = do {
     n \<leftarrow> ctl_tick;
     let ds = pws_CurrentDigests ps;
       digest = (if pws_CurrentDigest ps = '''' \<and> ds \<noteq> [] then snd (ds ! (ct_Pick U n mod length ds)) else pws_CurrentDigest ps);
       lastDeploy = (case pws_LastDeployAt ps of None \<Rightarrow> em_dash | Some t \<Rightarrow> ct_Local U ''01-02 15:04'' t)
     in State_Monad.return (tab_row [pws_ID ps, pws_DisplayName ps, pws_Status ps, cut_text 19 digest, lastDeploy,
          error_cell 40 (pws_LastError ps)])
   }"

fun ctl_map :: "('a \<Rightarrow> string ctl) \<Rightarrow> 'a list \<Rightarrow> string ctl" where
  "ctl_map f [] = State_Monad.return ''''"
| "ctl_map f (x # xs) = do { s \<leftarrow> f x; s' \<leftarrow> ctl_map f xs; State_Monad.return (s @ s') }"

definition cmdStatus :: "Ctl \<Rightarrow> string \<Rightarrow> unit result ctl" where
  "cmdStatus U socket = or_return (getJSON U socket ''/api/projects'' (ct_Projects U)) (\<lambda>projects. do {
     rows \<leftarrow> ctl_map (status_row U) projects;
     write_out U (ct_Align U (tab_row [''ID'', ''NAME'', ''STATUS'', ''DIGEST'', ''LAST DEPLOY'', ''ERROR''] @ rows))
   })"

definition history_row :: "Ctl \<Rightarrow> deploymentRow \<Rightarrow> string" where
  "history_row U d = tab_row [Itoa (dr_ID d), dr_Trigger d, dr_Status d, cut_text 15 (dr_FromDigest d),
     cut_text 15 (dr_ToDigest d), ct_Local U ''01-02 15:04'' (dr_StartedAt d), error_cell 30 (dr_ErrorMessage d)]"

definition cmdHistory :: "Ctl \<Rightarrow> string \<Rightarrow> string list \<Rightarrow> unit result ctl" where
  "cmdHistory U socket args = (case args of
     [] \<Rightarrow> fail ''usage: bbsit-ctl history <project-id>''
   | pid # rest \<Rightarrow> or_return (getJSON U socket (project_path pid) (ct_Deployments U)) (\<lambda>ds.
       write_out U (ct_Align U (tab_row [''ID'', ''TRIGGER'', ''STATUS'', ''FROM'', ''TO'', ''STARTED'', ''ERROR''] @
         concat (map (history_row U) ds)))))"

definition cmdAction :: "Ctl \<Rightarrow> string \<Rightarrow> string \<Rightarrow> string list \<Rightarrow> unit result ctl" where
  "cmdAction U socket action args = (case args of
     [] \<Rightarrow> fail (''usage: bbsit-ctl '' @ action @ '' <project-id>'')
   | pid # rest \<Rightarrow> or_return (ctl_post U socket (project_path pid @ ''/'' @ action)) (\<lambda>u. do {
       print_out (action @ '': '' @ pid @ line_end); done_ok }))"

definition cmdDelete :: "Ctl \<Rightarrow> string \<Rightarrow> string list \<Rightarrow> unit result ctl" where
  "cmdDelete U socket args = (case args of
     [] \<Rightarrow> fail ''usage: bbsit-ctl delete <project-id>''
   | pid # rest \<Rightarrow> or_return (ctl_delete U socket (project_path pid)) (\<lambda>u. do {
       print_out (''deleted: '' @ pid @ line_end); done_ok }))"

text \<open>The options of \<open>export\<close> and \<open>pack\<close>: project, output and whether secrets are asked for.\<close>

definition arg_option :: "string \<Rightarrow> string \<Rightarrow> string result" where
  "arg_option pid a =
     (if HasPrefix a ''-'' then Inl (''unknown option: '' @ a)
      else if pid \<noteq> '''' then Inl (''unexpected argument: '' @ a)
      else Inr a)"

fun parse_output :: "(string \<Rightarrow> error) \<Rightarrow> string list \<Rightarrow> string \<Rightarrow> string \<Rightarrow> bool \<Rightarrow> (string \<times> string \<times> bool) result" where
  "parse_output needs [] pid out secrets = Inr (pid, out, secrets)"
| "parse_output needs [a] pid out secrets =
     (if a = ''-o'' \<or> a = ''--output'' then Inl (needs a)
      else if a = ''--export-secrets'' then Inr (pid, out, True)
      else case arg_option pid a of Inl err \<Rightarrow> Inl err | Inr pid \<Rightarrow> Inr (pid, out, secrets))"
| "parse_output needs (a # b # as) pid out secrets =
     (if a = ''-o'' \<or> a = ''--output'' then parse_output needs as pid b secrets
      else if a = ''--export-secrets'' then parse_output needs (b # as) pid out True
      else case arg_option pid a of Inl err \<Rightarrow> Inl err | Inr pid \<Rightarrow> parse_output needs (b # as) pid out secrets)"

definition secrets_need_file :: error where
  "secrets_need_file = ''--export-secrets requires --output <file>; refusing to write plaintext secrets to stdout''"

definition cmdExport :: "Ctl \<Rightarrow> string \<Rightarrow> string list \<Rightarrow> unit result ctl" where
  "cmdExport U socket args = (case parse_output (\<lambda>a. a @ '' requires a path'') args '''' '''' False of
     Inl err \<Rightarrow> fail err
   | Inr (pid, outPath, exportSecrets) \<Rightarrow>
       if pid = '''' then fail ''usage: bbsit-ctl export <project-id> [-o file] [--export-secrets]''
       else if exportSecrets \<and> outPath = '''' then fail secrets_need_file
       else let endpoint = project_path pid @ ''/export'' @ (if exportSecrets then ''?export_secrets=true'' else '''') in
         or_return (ctl_call U socket (plain_request ''GET'' endpoint)) (\<lambda>resp.
           if outPath = ''''
           then do { cm \<leftarrow> copy_body U (write_out U) (hp_Chunks resp) (hp_Err resp) None; State_Monad.return (fst cm) }
           else do {
             cm \<leftarrow> writeNewFile U outPath (if exportSecrets then 384 else 420) resp None;
             case fst cm of
               Inl err \<Rightarrow> fail err
             | Inr u \<Rightarrow> do {
                 print_err (if exportSecrets
                   then ''WARNING: exported plaintext secrets to '' @ outPath @ '' (mode 0600)'' @ line_end
                   else ''wrote: '' @ outPath @ line_end);
                 done_ok
               }
           }))"

definition cmdPack :: "Ctl \<Rightarrow> string \<Rightarrow> string list \<Rightarrow> unit result ctl" where
  "cmdPack U socket args = (case parse_output (\<lambda>a. ''-o requires a path'') args '''' '''' False of
     Inl err \<Rightarrow> fail err
   | Inr (pid, outPath, exportSecrets) \<Rightarrow>
       if pid = '''' then fail ''usage: bbsit-ctl pack <project-id> [-o file.tar.gz] [--export-secrets]''
       else if exportSecrets \<and> outPath = '''' then fail secrets_need_file
       else do {
         print_err (''packing '' @ pid @ ''...'' @ line_end);
         let query = (if exportSecrets then ''export_secrets=true&format=tar.gz'' else ''format=tar.gz'') in
         or_return (ctl_call U socket (plain_request ''GET'' (project_path pid @ ''/export?'' @ query))) (\<lambda>resp.
           if outPath = '''' \<and> ct_StdoutTty U
           then fail (''refusing to write tarball to terminal '' @ em_dash @ '' use -o <file>'')
           else do {
             meter \<leftarrow> newProgressMeter U ''pack'' (max 0 (hp_ContentLength resp));
             cm \<leftarrow> (if outPath = '''' then copy_body U (write_out U) (hp_Chunks resp) (hp_Err resp) (Some meter)
               else writeNewFile U outPath 384 resp (Some meter));
             (case snd cm of None \<Rightarrow> State_Monad.return () | Some p \<Rightarrow> pm_Finish U p);
             if outPath = '''' then State_Monad.return (fst cm)
             else case fst cm of
               Inl err \<Rightarrow> fail err
             | Inr u \<Rightarrow> do {
                 print_err (if exportSecrets
                   then ''WARNING: packed plaintext secrets to '' @ outPath @ '' (mode 0600)'' @ line_end
                   else ''wrote: '' @ outPath @ line_end);
                 done_ok
               }
           })
       })"

text \<open>The bundle to upload: what can be read of it, the error after it, its size and its type.\<close>

definition open_upload :: "Ctl \<Rightarrow> string \<Rightarrow> (string \<times> error option \<times> int \<times> string) result ctl" where
  "open_upload U path = do {
     n \<leftarrow> ctl_tick;
     case ct_FsError U n path of
       Some err \<Rightarrow> fail err
     | None \<Rightarrow> do {
         f \<leftarrow> ctl_files;
         m \<leftarrow> ctl_tick;
         let contentType = (if HasSuffix path ''.tar.gz'' \<or> HasSuffix path ''.tgz'' then ''application/gzip'' else ''application/x-yaml'');
           known = (\<lambda>k. if ct_FsError U m path = None then k else 0)
         in (case fs_stat f (abs_path U path) of
              StatFound (FileNode c i) \<Rightarrow> State_Monad.return (Inr (c, None, known (int (length c)), contentType))
            | StatFound DirNode \<Rightarrow>
                State_Monad.return (Inr ('''', Some (''read '' @ path @ '': is a directory''), known (ct_DirSize U), contentType))
            | StatMissing \<Rightarrow> fail (''open '' @ path @ '': no such file or directory'')
            | StatError err \<Rightarrow> fail err)
       }
   }"

fun meter_all :: "Ctl \<Rightarrow> string list \<Rightarrow> progressMeter \<Rightarrow> progressMeter ctl" where
  "meter_all U [] p = State_Monad.return p"
| "meter_all U (b # bs) p = do { p \<leftarrow> pm_Write U b p; meter_all U bs p }"

definition upload_source :: "Ctl \<Rightarrow> string \<Rightarrow> (string \<times> error option \<times> int \<times> string) result ctl" where
  "upload_source U path =
     (if path = ''-'' then do {
        print_err (''uploading from stdin...'' @ line_end);
        State_Monad.return (Inr (ct_Stdin U, None, 0, ''application/octet-stream''))
      } else or_return (open_upload U path) (\<lambda>(c, err, tot, contentType). do {
        print_err (''uploading '' @ path @ '' ('' @ humanBytes tot @ '')...'' @ line_end);
        State_Monad.return (Inr (c, err, tot, contentType))
      }))"

text \<open>The meter sees the pieces that the transport reads.\<close>

definition cmdUnpack :: "Ctl \<Rightarrow> string \<Rightarrow> string list \<Rightarrow> unit result ctl" where
  "cmdUnpack U socket args = (case args of
     [] \<Rightarrow> fail ''usage: bbsit-ctl unpack <file|->''
   | path # rest \<Rightarrow> or_return (upload_source U path) (\<lambda>(c, err, tot, contentType). do {
       meter \<leftarrow> newProgressMeter U ''upload'' tot;
       n \<leftarrow> ctl_tick;
       meter \<leftarrow> meter_all U (ct_Upload U n c) meter;
       r \<leftarrow> ctl_do U socket \<lparr>hr_Method = ''POST'', hr_Path = ''/api/projects/import'', hr_ContentType = contentType,
         hr_Body = concat (ct_Upload U n c), hr_BodyErr = err\<rparr>;
       pm_Finish U meter;
       case r of
         Inl err \<Rightarrow> fail err
       | Inr resp \<Rightarrow>
           if hp_StatusCode resp \<ge> 400 then fail (apiError U resp)
           else do {
             print_err (''server: extracting bundle and upserting project...'' @ line_end);
             (case ct_Object U (concat (hp_Chunks resp)) (hp_Err resp) of
                Inl err \<Rightarrow> print_out (''imported'' @ line_end)
              | Inr p \<Rightarrow> (case map_of p ''id'' of
                  Some (Some pid) \<Rightarrow> print_out (''imported: '' @ pid @ line_end)
                | _ \<Rightarrow> print_out (''imported'' @ line_end)));
             done_ok
           }
     }))"

definition cmdBackup :: "Ctl \<Rightarrow> string \<Rightarrow> string list \<Rightarrow> unit result ctl" where
  "cmdBackup U socket args = (case args of
     [] \<Rightarrow> fail ''usage: bbsit-ctl backup <project-id>''
   | pid # rest \<Rightarrow> do {
       print_err (''running backup for '' @ pid @ ''...'' @ line_end);
       or_return (ctl_call U socket (plain_request ''POST'' (project_path pid @ ''/backup''))) (\<lambda>resp.
         case ct_Run U (concat (hp_Chunks resp)) (hp_Err resp) of
           Inl err \<Rightarrow> fail (''decode response: '' @ err)
         | Inr run \<Rightarrow> do {
             print_out (brn_FilePath run @ line_end);
             (if brn_Bytes run > 0
              then print_err (''size: '' @ humanBytes (brn_Bytes run) @ ''   sha256: '' @ brn_SHA256 run @ line_end)
              else State_Monad.return ());
             done_ok
           })
     })"

definition file_row :: "Ctl \<Rightarrow> backupFile \<Rightarrow> string" where
  "file_row U f = tab_row [ct_Local U ''2006-01-02 15:04'' (bfl_Modified f), humanBytes (bfl_Bytes f), bfl_Name f, bfl_Path f]"

definition cmdListBackups :: "Ctl \<Rightarrow> string \<Rightarrow> string list \<Rightarrow> unit result ctl" where
  "cmdListBackups U socket args = (case args of
     [] \<Rightarrow> fail ''usage: bbsit-ctl backups <project-id>''
   | pid # rest \<Rightarrow> or_return (getJSON U socket (project_path pid @ ''/backups'') (ct_Files U)) (\<lambda>files.
       if files = [] then do { print_err (''no backups found'' @ line_end); done_ok }
       else write_out U (ct_Align U (tab_row [''MODIFIED'', ''SIZE'', ''NAME'', ''PATH''] @ concat (map (file_row U) files)))))"

text \<open>The arguments of \<open>restore\<close>: project, file and the project to restore into.\<close>

definition take_arg :: "string \<Rightarrow> string \<Rightarrow> string \<Rightarrow> (string \<times> string) result" where
  "take_arg pid bfile a =
     (if pid = '''' then Inr (a, bfile) else if bfile = '''' then Inr (pid, a) else Inl (''unexpected argument: '' @ a))"

fun parse_restore :: "string list \<Rightarrow> string \<Rightarrow> string \<Rightarrow> string \<Rightarrow> (string \<times> string \<times> string) result" where
  "parse_restore [] pid bfile asID = Inr (pid, bfile, asID)"
| "parse_restore [a] pid bfile asID =
     (if a = ''--as'' then Inl ''--as requires a project id''
      else case take_arg pid bfile a of Inl err \<Rightarrow> Inl err | Inr (pid, bfile) \<Rightarrow> Inr (pid, bfile, asID))"
| "parse_restore (a # b # as) pid bfile asID =
     (if a = ''--as'' then parse_restore as pid bfile b
      else case take_arg pid bfile a of Inl err \<Rightarrow> Inl err | Inr (pid, bfile) \<Rightarrow> parse_restore (b # as) pid bfile asID)"

definition cmdRestore :: "Ctl \<Rightarrow> string \<Rightarrow> string list \<Rightarrow> unit result ctl" where
  "cmdRestore U socket args = (case parse_restore args '''' '''' '''' of
     Inl err \<Rightarrow> fail err
   | Inr (pid, bfile, asID) \<Rightarrow>
       if pid = '''' \<or> bfile = '''' then fail ''usage: bbsit-ctl restore <project-id> <file> [--as <new-id>]''
       else do {
         print_err (if asID = '''' then ''restoring '' @ pid @ '' from '' @ bfile @ ''...'' @ line_end
           else ''verify-restore: cloning '' @ pid @ '' as '' @ asID @ '' with random ports, then restoring '' @ bfile @
             ''...'' @ line_end);
         or_return (ctl_call U socket \<lparr>hr_Method = ''POST'', hr_Path = project_path pid @ ''/restore'',
             hr_ContentType = ''application/json'', hr_Body = ct_Marshal U [(''as'', asID), (''file'', bfile)], hr_BodyErr = None\<rparr>)
           (\<lambda>resp. do {
             print_out (case ct_Object U (concat (hp_Chunks resp)) (hp_Err resp) of
                 Inl err \<Rightarrow> ''ok'' @ line_end
               | Inr p \<Rightarrow> (case map_of p ''message'' of
                   Some (Some msg) \<Rightarrow> (if msg \<noteq> '''' then msg else ''ok'') @ line_end
                 | _ \<Rightarrow> ''ok'' @ line_end));
             done_ok
           })
       })"

section \<open>The program\<close>

definition usage_text :: string where
  "usage_text = strings_Join [
     ''bbsit-ctl - bbsit CLI'',
     '''',
     ''Commands:'',
     ''  status                       Show all projects and their current state'',
     ''  history <id>                 Show recent deployments for a project'',
     ''  start <id>                   Start a project's stack'',
     ''  stop <id>                    Stop a project's stack'',
     ''  deploy <id>                  Trigger a manual deploy (poll + reconcile)'',
     ''  rollback <id>                Roll back to the previous digest'',
     ''  delete <id>                  Stop and remove a project'',
     ''  export <id> [-o file] [--export-secrets]'',
     ''                               Export project YAML; secret export requires -o'',
     ''  pack <id> [-o file.tar.gz] [--export-secrets]'',
     ''                               Pack project + persistent data; secret export requires -o'',
     ''  unpack <file|->              Restore a project from YAML/tar.gz file (or stdin if -)'',
     ''  backup <id>                  Run the project's configured backup_command'',
     ''  backups <id>                 List backup files in the project's backups/ dir'',
     ''  restore <id> <file> [--as <new-id>]'',
     ''                               Run restore_command against a backup file. With --as,'',
     ''                               clone the project to a fresh ID with random ports'',
     ''                               and restore there (smoke-tests the backup).'',
     '''',
     ''Environment:'',
     ''  BBSIT_SOCKET   Path to bbsit admin socket (default: /run/bbsit/admin.sock)''] line_end @ line_end"

definition defaultSocket :: string where
  "defaultSocket = ''/run/bbsit/admin.sock''"

text \<open>The command; \<open>None\<close> is one that does not exist.\<close>

definition ctl_command :: "Ctl \<Rightarrow> string \<Rightarrow> string \<Rightarrow> string list \<Rightarrow> unit result ctl option" where
  "ctl_command U c cmd args =
     (if cmd = ''status'' \<or> cmd = ''projects'' then Some (cmdStatus U c)
      else if cmd = ''history'' then Some (cmdHistory U c args)
      else if cmd = ''start'' \<or> cmd = ''stop'' \<or> cmd = ''deploy'' \<or> cmd = ''rollback'' then Some (cmdAction U c cmd args)
      else if cmd = ''delete'' \<or> cmd = ''rm'' then Some (cmdDelete U c args)
      else if cmd = ''export'' then Some (cmdExport U c args)
      else if cmd = ''pack'' then Some (cmdPack U c args)
      else if cmd = ''unpack'' \<or> cmd = ''import'' then Some (cmdUnpack U c args)
      else if cmd = ''backup'' then Some (cmdBackup U c args)
      else if cmd = ''backups'' then Some (cmdListBackups U c args)
      else if cmd = ''restore'' then Some (cmdRestore U c args)
      else None)"

text \<open>The exit status of \<open>bbsit-ctl\<close> with the value of \<open>BBSIT_SOCKET\<close> and the arguments after its name.\<close>

definition ctl_main :: "Ctl \<Rightarrow> string \<Rightarrow> string list \<Rightarrow> int ctl" where
  "ctl_main U env_socket argv = (case argv of
     [] \<Rightarrow> do { print_err usage_text; State_Monad.return 1 }
   | cmd # args \<Rightarrow>
       if cmd = ''-h'' \<or> cmd = ''--help'' \<or> cmd = ''help'' then do { print_err usage_text; State_Monad.return 0 }
       else case ctl_command U (if env_socket = '''' then defaultSocket else env_socket) cmd args of
         None \<Rightarrow> do { print_err usage_text; State_Monad.return 1 }
       | Some m \<Rightarrow> do {
           r \<leftarrow> m;
           case r of
             Inl err \<Rightarrow> do { print_err (''error: '' @ err @ line_end); State_Monad.return 1 }
           | Inr u \<Rightarrow> State_Monad.return 0
         })"

end
