(* ===== verification/Ctl_Safe.thy ===== *)
theory Ctl_Safe
  imports Ctl
begin

text \<open>
  What \<open>bbsit-ctl\<close> does to the machine it runs on: it only adds files, plaintext secrets never reach its
  output and land in files that only their owner may read, and a successful export holds what the server sent.
\<close>

section \<open>Relations that programs respect\<close>

named_theorems ctl_steps

definition goes :: "(Term \<Rightarrow> Term \<Rightarrow> bool) \<Rightarrow> 'a ctl \<Rightarrow> bool" where
  "goes R m \<longleftrightarrow> (\<forall>t. R t (snd (run_state m t)))"

lemma goesD: "goes R m \<Longrightarrow> run_state m t = (r, t') \<Longrightarrow> R t t'"
  unfolding goes_def by (metis snd_conv)

lemma goes_mono: "goes R m \<Longrightarrow> (\<And>s t. R s t \<Longrightarrow> S s t) \<Longrightarrow> goes S m"
  by (simp add: goes_def)

text \<open>A relation that holds of one state and of a run made of two.\<close>

locale transition =
  fixes R :: "Term \<Rightarrow> Term \<Rightarrow> bool"
  assumes stays: "R t t"
    and trans: "R s t \<Longrightarrow> R t u \<Longrightarrow> R s u"
begin

lemma goes_ret [ctl_steps]: "goes R (State_Monad.return a)"
  by (simp add: goes_def stays)

lemma goes_bind [ctl_steps]: "goes R m \<Longrightarrow> (\<And>a. goes R (k a)) \<Longrightarrow> goes R (m \<bind> k)"
  unfolding goes_def by (auto split: prod.splits) (metis snd_conv trans)

lemma goes_if [ctl_steps]: "(b \<Longrightarrow> goes R m) \<Longrightarrow> (\<not> b \<Longrightarrow> goes R n) \<Longrightarrow> goes R (if b then m else n)"
  by simp

lemma goes_sum [ctl_steps]:
  "(\<And>x. s = Inl x \<Longrightarrow> goes R (m x)) \<Longrightarrow> (\<And>x. s = Inr x \<Longrightarrow> goes R (n x)) \<Longrightarrow>
   goes R (case s of Inl x \<Rightarrow> m x | Inr x \<Rightarrow> n x)"
  by (cases s) simp_all

lemma goes_option [ctl_steps]: "goes R m \<Longrightarrow> (\<And>x. goes R (n x)) \<Longrightarrow> goes R (case s of None \<Rightarrow> m | Some x \<Rightarrow> n x)"
  by (cases s) simp_all

lemma goes_prod [ctl_steps]: "(\<And>x y. s = (x, y) \<Longrightarrow> goes R (m x y)) \<Longrightarrow> goes R (case s of (x, y) \<Rightarrow> m x y)"
  by (cases s) simp

lemma goes_list [ctl_steps]: "goes R m \<Longrightarrow> (\<And>x xs. goes R (n x xs)) \<Longrightarrow> goes R (case s of [] \<Rightarrow> m | x # xs \<Rightarrow> n x xs)"
  by (cases s) simp_all

lemma goes_stat [ctl_steps]:
  "(\<And>n. goes R (a n)) \<Longrightarrow> goes R b \<Longrightarrow> (\<And>x. goes R (c x)) \<Longrightarrow>
   goes R (case s of StatFound n \<Rightarrow> a n | StatMissing \<Rightarrow> b | StatError x \<Rightarrow> c x)"
  by (cases s) simp_all

lemma goes_Node [ctl_steps]: "goes R a \<Longrightarrow> (\<And>c m. goes R (b c m)) \<Longrightarrow> goes R (case n of DirNode \<Rightarrow> a | FileNode c m \<Rightarrow> b c m)"
  by (cases n) simp_all

lemma goes_let [ctl_steps]: "(\<And>x. goes R (m x)) \<Longrightarrow> goes R (Let a m)"
  by simp

lemma goes_or_return [ctl_steps]: "goes R m \<Longrightarrow> (\<And>x. goes R (k x)) \<Longrightarrow> goes R (or_return m k)"
  unfolding or_return_def by (intro ctl_steps)

lemma goes_map [ctl_steps]: "(\<And>x. goes R (f x)) \<Longrightarrow> goes R (ctl_map f xs)"
  by (induction xs) (auto intro!: ctl_steps)

lemma goes_copy [ctl_steps]:
  assumes "\<And>b. goes R (wr b)" and "\<And>b m. goes R (meter_write U b m)"
  shows "goes R (copy_body U wr bs err m)"
  using assms by (induction bs arbitrary: m) (auto intro!: ctl_steps)

end

text \<open>A relation that does not see the error stream and the number of calls: the meter respects it.\<close>

locale silent = transition +
  assumes err_unseen: "R t (t\<lparr>tm_stderr := s\<rparr>)"
    and tick_unseen: "R t (t\<lparr>tm_tick := n\<rparr>)"
begin

lemma goes_print_err [ctl_steps]: "goes R (print_err s)"
  by (simp add: goes_def print_err_def err_unseen)

lemma goes_tick [ctl_steps]: "goes R ctl_tick"
  by (simp add: goes_def ctl_tick_def tick_unseen)

lemma goes_files [ctl_steps]: "goes R ctl_files"
  by (simp add: goes_def ctl_files_def stays)

lemma goes_now [ctl_steps]: "goes R (ctl_now U)"
  unfolding ctl_now_def by (intro ctl_steps)

lemma goes_new_meter [ctl_steps]: "goes R (newProgressMeter U l n)"
  unfolding newProgressMeter_def by (intro ctl_steps)

lemma goes_pm_tick [ctl_steps]: "goes R (pm_tick U force p)"
  unfolding pm_tick_def Let_def by (intro ctl_steps)

lemma goes_pm_Write [ctl_steps]: "goes R (pm_Write U b p)"
  unfolding pm_Write_def by (intro ctl_steps)

lemma goes_pm_Finish [ctl_steps]: "goes R (pm_Finish U p)"
  unfolding pm_Finish_def by (intro ctl_steps)

lemma goes_meter_write [ctl_steps]: "goes R (meter_write U b m)"
  by (cases m) (auto intro!: ctl_steps)

lemma goes_meter_all [ctl_steps]: "goes R (meter_all U bs p)"
  by (induction bs arbitrary: p) (auto intro!: ctl_steps)

lemma goes_status_row [ctl_steps]: "goes R (status_row U ps)"
  unfolding status_row_def Let_def by (intro ctl_steps)

lemma goes_open_upload [ctl_steps]: "goes R (open_upload U path)"
  unfolding open_upload_def Let_def by (intro ctl_steps)

lemma goes_upload_source [ctl_steps]: "goes R (upload_source U path)"
  unfolding upload_source_def by (intro ctl_steps)

end

text \<open>The parts of the state a step does not touch.\<close>

definition same_files :: "Term \<Rightarrow> Term \<Rightarrow> bool" where
  "same_files s t \<longleftrightarrow> tm_fs t = tm_fs s"

definition quiet :: "Term \<Rightarrow> Term \<Rightarrow> bool" where
  "quiet s t \<longleftrightarrow> tm_stdout t = tm_stdout s"

definition asks_secrets :: "string \<Rightarrow> bool" where
  "asks_secrets path \<longleftrightarrow> ''export_secrets=true'' \<in> set (split_on (CHR ''&'') (tl (dropWhile (\<lambda>c. c \<noteq> CHR ''?'') path)))"

definition no_secrets :: "Term \<Rightarrow> Term \<Rightarrow> bool" where
  "no_secrets s t \<longleftrightarrow> (\<exists>rqs. tm_sent t = tm_sent s @ rqs \<and> (\<forall>rq\<in>set rqs. \<not> asks_secrets (hr_Path rq)))"

text \<open>Files are only added, with a given mode; one file is worked on, whose mode stays.\<close>

definition adds :: "int \<Rightarrow> Term \<Rightarrow> Term \<Rightarrow> bool" where
  "adds m s t \<longleftrightarrow> (\<forall>q. map_of (tm_fs t) q = map_of (tm_fs s) q \<or>
     (map_of (tm_fs s) q = None \<and> (\<exists>c. map_of (tm_fs t) q = Some (FileNode c m))))"

definition works_on :: "string \<Rightarrow> int \<Rightarrow> Term \<Rightarrow> Term \<Rightarrow> bool" where
  "works_on p m s t \<longleftrightarrow> (\<forall>q. q \<noteq> p \<longrightarrow> map_of (tm_fs t) q = map_of (tm_fs s) q) \<and>
     (map_of (tm_fs s) p \<in> insert None (range (\<lambda>c. Some (FileNode c m))) \<longrightarrow>
      map_of (tm_fs t) p \<in> insert None (range (\<lambda>c. Some (FileNode c m))))"

interpretation same_files: silent same_files
  by unfold_locales (simp_all add: same_files_def)

interpretation quiet: silent quiet
  by unfold_locales (simp_all add: quiet_def)

interpretation no_secrets: silent no_secrets
proof
  show "no_secrets s u" if "no_secrets s t" "no_secrets t u" for s t u
    using that unfolding no_secrets_def by (metis (no_types, opaque_lifting) Un_iff append.assoc set_append)
qed (simp_all add: no_secrets_def)

interpretation adds: silent "adds m" for m
proof
  show "adds m s u" if "adds m s t" "adds m t u" for s t u
    using that unfolding adds_def by (metis option.distinct(1))
qed (simp_all add: adds_def)

interpretation works_on: silent "works_on p m" for p m
  by unfold_locales (auto simp: works_on_def)

lemma same_files_adds: "same_files s t \<Longrightarrow> adds m s t"
  by (simp add: same_files_def adds_def)

lemma same_files_works_on: "same_files s t \<Longrightarrow> works_on p m s t"
  by (simp add: same_files_def works_on_def)

section \<open>Single steps\<close>

lemma files_print [ctl_steps]: "goes same_files (print_out s)" "goes no_secrets (print_out s)"
  by (simp_all add: goes_def print_out_def same_files_def no_secrets_def)

text \<open>The two raw updates of the state: of the files and of what was sent.\<close>

lemma goes_State: "(\<And>t. R t (snd (f t))) \<Longrightarrow> goes R (State f)"
  by (simp add: goes_def)

lemma fs_steps [ctl_steps]: "goes quiet (ctl_fs U path f)" "goes no_secrets (ctl_fs U path f)"
  unfolding ctl_fs_def
  by (intro ctl_steps goes_State; simp add: quiet_def no_secrets_def split: sum.split)+

lemma do_steps [ctl_steps]: "goes same_files (ctl_do U c rq)" "goes quiet (ctl_do U c rq)"
    "\<not> asks_secrets (hr_Path rq) \<Longrightarrow> goes no_secrets (ctl_do U c rq)"
  unfolding ctl_do_def
  by (intro ctl_steps goes_State; simp add: quiet_def same_files_def no_secrets_def)+

lemma call_steps [ctl_steps]: "goes same_files (ctl_call U c rq)" "goes quiet (ctl_call U c rq)"
    "\<not> asks_secrets (hr_Path rq) \<Longrightarrow> goes no_secrets (ctl_call U c rq)"
  unfolding ctl_call_def by (auto intro!: ctl_steps)

lemma out_steps [ctl_steps]: "goes same_files (write_out U s)" "goes no_secrets (write_out U s)"
  unfolding write_out_def by (auto intro!: ctl_steps)

lemma getJSON_steps [ctl_steps]: "goes same_files (getJSON U c path dec)"
    "\<not> asks_secrets path \<Longrightarrow> goes no_secrets (getJSON U c path dec)"
  unfolding getJSON_def by (auto intro!: ctl_steps simp: plain_request_def)

lemma post_steps [ctl_steps]: "goes same_files (ctl_post U c path)" "goes same_files (ctl_delete U c path)"
    "\<not> asks_secrets path \<Longrightarrow> goes no_secrets (ctl_post U c path)"
    "\<not> asks_secrets path \<Longrightarrow> goes no_secrets (ctl_delete U c path)"
  unfolding ctl_post_def ctl_delete_def by (auto intro!: ctl_steps simp: plain_request_def)

section \<open>The path of a project\<close>

lemma escape_char_chars: "x \<in> set (escape_char c) \<Longrightarrow> x \<noteq> CHR ''?'' \<and> x \<noteq> CHR ''/''"
proof -
  have hex: "upper_hex n \<in> set ''0123456789ABCDEF''" if "n < 16" for n
    unfolding upper_hex_def using that by (intro nth_mem) simp
  have "upper_hex n \<noteq> CHR ''?'' \<and> upper_hex n \<noteq> CHR ''/''" if "n < 16" for n
    using hex[OF that] by auto
  moreover have "(of_char c :: nat) div 16 < 16" "(of_char c :: nat) mod 16 < 16"
    using of_char_mod_256[of c, where ?'a = nat] mod_less_divisor[of 256 "of_char c"] by linarith+
  ultimately show "x \<in> set (escape_char c) \<Longrightarrow> x \<noteq> CHR ''?'' \<and> x \<noteq> CHR ''/''"
    by (auto simp: escape_char_def segment_char_def is_digit_def split: if_splits)
qed

lemma PathEscape_chars: "x \<in> set (PathEscape s) \<Longrightarrow> x \<noteq> CHR ''?'' \<and> x \<noteq> CHR ''/''"
  using escape_char_chars by (auto simp: PathEscape_def)

lemma not_asking: "CHR ''?'' \<notin> set path \<Longrightarrow> \<not> asks_secrets path"
proof -
  assume "CHR ''?'' \<notin> set path"
  then have path: "dropWhile (\<lambda>c. c \<noteq> CHR ''?'') path = []"
    by (auto simp: dropWhile_eq_Nil_conv)
  show ?thesis unfolding asks_secrets_def path by simp
qed

lemma project_path_plain [simp]: "CHR ''?'' \<notin> set (project_path pid)"
  using PathEscape_chars by (auto simp: project_path_def)

lemma project_path_query: "asks_secrets (project_path pid @ ''/export?'' @ q) \<longleftrightarrow> ''export_secrets=true'' \<in> set (split_on (CHR ''&'') q)"
proof -
  have "dropWhile (\<lambda>c. c \<noteq> CHR ''?'') (project_path pid @ ''/export?'' @ q) = CHR ''?'' # q"
    using project_path_plain[of pid] by (subst dropWhile_append2) auto
  then show ?thesis unfolding asks_secrets_def by simp
qed

section \<open>A new file\<close>

lemma new_file_mode:
  assumes "fs_CreateExcl (abs_path U path) m f = Inr f'"
  shows "map_of f' (Clean (abs_path U path)) \<in> insert None (range (\<lambda>c. Some (FileNode c m)))"
  using assms by (auto dest!: fs_CreateExcl_new)

lemma work_step:
  assumes "\<And>f f' q. g (abs_path U path) f = Inr f' \<Longrightarrow> q \<noteq> Clean (abs_path U path) \<Longrightarrow> map_of f' q = map_of f q"
    and "\<And>f f' c. g (abs_path U path) f = Inr f' \<Longrightarrow> map_of f (Clean (abs_path U path)) = Some (FileNode c m) \<Longrightarrow>
      \<exists>c'. map_of f' (Clean (abs_path U path)) \<in> {None, Some (FileNode c' m)}"
    and "\<And>f f'. g (abs_path U path) f = Inr f' \<Longrightarrow> map_of f (Clean (abs_path U path)) = None \<Longrightarrow>
      map_of f' (Clean (abs_path U path)) = None"
  shows "goes (works_on (Clean (abs_path U path)) m) (ctl_fs U path g)"
  unfolding ctl_fs_def
proof (intro ctl_steps goes_State)
  fix t
  show "works_on (Clean (abs_path U path)) m t
      (snd (case g (abs_path U path) (tm_fs t) of Inl err \<Rightarrow> (Inl err, t) | Inr fs' \<Rightarrow> (Inr (), t\<lparr>tm_fs := fs'\<rparr>)))"
  proof (cases "g (abs_path U path) (tm_fs t)")
    case (Inr f')
    then show ?thesis
      using assms(1)[OF Inr] assms(2)[OF Inr] assms(3)[OF Inr] by (auto simp: works_on_def)
  qed (simp add: works_on_def)
qed

lemma works_append: "goes (works_on (Clean (abs_path U path)) m) (ctl_fs U path (\<lambda>p. fs_Append p b))"
  by (rule work_step) (auto simp: fs_Append_def split: option.splits Node.splits)

lemma works_remove: "goes (works_on (Clean (abs_path U path)) m) (ctl_fs U path fs_Remove)"
  by (rule work_step) (auto simp: fs_Remove_def Let_def map_of_filter_key split: option.splits if_splits)

lemma works_flush: "goes (works_on (Clean (abs_path U path)) m) (ctl_fs U path (\<lambda>p. Inr))"
  by (rule work_step) auto

lemma ctl_fs_run:
  assumes "run_state (ctl_fs U path g) t = (r, t')"
  shows "case r of Inl err \<Rightarrow> tm_fs t' = tm_fs t | Inr u \<Rightarrow> g (abs_path U path) (tm_fs t) = Inr (tm_fs t')"
  using assms by (auto simp: ctl_fs_def ctl_tick_def split: option.splits sum.splits)

text \<open>What \<open>writeNewFile\<close> does after it created the file.\<close>

definition fill_file :: "Ctl \<Rightarrow> string \<Rightarrow> HttpResponse \<Rightarrow> progressMeter option \<Rightarrow> (unit result \<times> progressMeter option) ctl" where
  "fill_file U path resp meter = do {
     cm \<leftarrow> copy_body U (\<lambda>b. ctl_fs U path (\<lambda>p. fs_Append p b)) (hp_Chunks resp) (hp_Err resp) meter;
     r \<leftarrow> (case fst cm of
         Inl err \<Rightarrow> fail err
       | Inr u \<Rightarrow> or_return (ctl_fs U path (\<lambda>p. Inr)) (\<lambda>u. ctl_fs U path (\<lambda>p. Inr)));
     (case r of Inl err \<Rightarrow> ctl_fs U path fs_Remove | Inr u \<Rightarrow> done_ok);
     State_Monad.return (r, snd cm)
   }"

lemma writeNewFile_fill: "writeNewFile U path mode resp meter = do {
    r \<leftarrow> ctl_fs U path (\<lambda>p. fs_CreateExcl p mode);
    case r of Inl err \<Rightarrow> State_Monad.return (Inl err, meter) | Inr u \<Rightarrow> fill_file U path resp meter }"
  unfolding writeNewFile_def fill_file_def ..

lemma writeNewFile_cases:
  assumes "run_state (writeNewFile U path m resp meter) t = (rm, t')"
  obtains (refused) err where "fst rm = Inl err" "tm_fs t' = tm_fs t"
  | (created) t1 where "fs_CreateExcl (abs_path U path) m (tm_fs t) = Inr (tm_fs t1)"
      "run_state (fill_file U path resp meter) t1 = (rm, t')"
proof -
  obtain r t1 where r: "run_state (ctl_fs U path (\<lambda>p. fs_CreateExcl p m)) t = (r, t1)"
    by fastforce
  show thesis
  proof (cases r)
    case (Inl err)
    then show thesis
      using assms r ctl_fs_run[OF r] by (intro refused[of err]) (auto simp: writeNewFile_fill)
  next
    case (Inr u)
    then show thesis
      using assms r ctl_fs_run[OF r] by (intro created[of t1]) (auto simp: writeNewFile_fill)
  qed
qed

lemma fill_file_works: "goes (works_on (Clean (abs_path U path)) m) (fill_file U path resp meter)"
  unfolding fill_file_def by (intro ctl_steps works_append works_remove works_flush)

lemma writeNewFile_adds [ctl_steps]: "goes (adds m) (writeNewFile U path m resp meter)"
  unfolding goes_def
proof
  fix t
  obtain rm t' where run: "run_state (writeNewFile U path m resp meter) t = (rm, t')"
    by fastforce
  then have "adds m t t'"
  proof (cases rule: writeNewFile_cases)
    case refused
    then show ?thesis by (simp add: adds_def)
  next
    case (created t1)
    let ?p = "Clean (abs_path U path)"
    have new: "map_of (tm_fs t) ?p = None" "tm_fs t1 = AList.update ?p (FileNode '''' m) (tm_fs t)"
      using fs_CreateExcl_new[OF created(1)] by simp_all
    have w: "works_on ?p m t1 t'"
      using goesD[OF fill_file_works created(2)] .
    have "map_of (tm_fs t') q = map_of (tm_fs t) q" if "q \<noteq> ?p" for q
      using w that by (simp add: works_on_def new)
    moreover have "map_of (tm_fs t') ?p \<in> insert None (range (\<lambda>c. Some (FileNode c m)))"
      using w by (simp add: works_on_def new)
    ultimately show ?thesis
      unfolding adds_def using new(1) by (metis (no_types, lifting) imageE insertE)
  qed
  with run show "adds m t (snd (run_state (writeNewFile U path m resp meter) t))"
    by simp
qed

lemma writeNewFile_quiet [ctl_steps]: "goes quiet (writeNewFile U path m resp meter)"
    "goes no_secrets (writeNewFile U path m resp meter)"
  unfolding writeNewFile_def by (intro ctl_steps)+

text \<open>A file that was written without an error holds the whole body.\<close>

lemma copy_to_file:
  assumes "run_state (copy_body U (\<lambda>b. ctl_fs U path (\<lambda>p. fs_Append p b)) bs err meter) t = ((Inr u, mt), t')"
    and "map_of (tm_fs t) (Clean (abs_path U path)) = Some (FileNode c m)"
  shows "err = None \<and> map_of (tm_fs t') (Clean (abs_path U path)) = Some (FileNode (c @ concat bs) m)"
  using assms
proof (induction bs arbitrary: meter t c)
  case Nil
  then show ?case by (auto split: option.splits)
next
  case (Cons b bs)
  obtain r t1 where r: "run_state (ctl_fs U path (\<lambda>p. fs_Append p b)) t = (r, t1)"
    by fastforce
  obtain mt2 t2 where w: "run_state (meter_write U b meter) t1 = (mt2, t2)"
    by fastforce
  from r Cons.prems(1) have "r = Inr ()"
    by (cases r) auto
  then have "fs_Append (abs_path U path) b (tm_fs t) = Inr (tm_fs t1)"
    using ctl_fs_run[OF r] by simp
  then have "tm_fs t1 = AList.update (Clean (abs_path U path)) (FileNode (c @ b) m) (tm_fs t)"
    using Cons.prems(2) by (simp add: fs_Append_def)
  then have "map_of (tm_fs t1) (Clean (abs_path U path)) = Some (FileNode (c @ b) m)"
    by simp
  moreover have "tm_fs t2 = tm_fs t1"
    using goesD[OF same_files.goes_meter_write w] by (simp add: same_files_def)
  moreover have "run_state (copy_body U (\<lambda>b. ctl_fs U path (\<lambda>p. fs_Append p b)) bs err mt2) t2 = ((Inr u, mt), t')"
    using Cons.prems(1) r w \<open>r = Inr ()\<close> by simp
  ultimately show ?case
    using Cons.IH[of mt2 t2 "c @ b"] by simp
qed

lemma fill_file_content:
  assumes "run_state (fill_file U path resp meter) t = ((Inr u, mt), t')"
    and "map_of (tm_fs t) (Clean (abs_path U path)) = Some (FileNode '''' m)"
  shows "hp_Err resp = None \<and> map_of (tm_fs t') (Clean (abs_path U path)) = Some (FileNode (concat (hp_Chunks resp)) m)"
proof -
  obtain cr cm t1 where c: "run_state (copy_body U (\<lambda>b. ctl_fs U path (\<lambda>p. fs_Append p b)) (hp_Chunks resp) (hp_Err resp) meter) t
      = ((cr, cm), t1)"
    by (metis prod.exhaust)
  show ?thesis
  proof (cases cr)
    case (Inl err)
    with assms(1) c show ?thesis by (auto simp: fill_file_def split: prod.splits)
  next
    case (Inr v)
    have "tm_fs t' = tm_fs t1"
      using assms(1) c Inr
      by (auto simp: fill_file_def or_return_def split: prod.splits sum.splits dest!: ctl_fs_run)
    with copy_to_file[OF c[unfolded Inr] assms(2)] show ?thesis by simp
  qed
qed

lemma writeNewFile_content:
  assumes "run_state (writeNewFile U path m resp meter) t = ((Inr u, mt), t')"
  shows "hp_Err resp = None \<and> map_of (tm_fs t) (Clean (abs_path U path)) = None \<and>
    map_of (tm_fs t') (Clean (abs_path U path)) = Some (FileNode (concat (hp_Chunks resp)) m)"
  using assms
proof (cases rule: writeNewFile_cases)
  case (created t1)
  with fs_CreateExcl_new[OF created(1)] fill_file_content[OF created(2)] show ?thesis by simp
qed simp

section \<open>Commands\<close>

text \<open>A command either asks for no secrets, or prints nothing and adds only private files.\<close>

definition discreet :: "'a ctl \<Rightarrow> bool" where
  "discreet m \<longleftrightarrow> goes no_secrets m \<or> goes quiet m \<and> goes (adds 384) m"

definition additive :: "'a ctl \<Rightarrow> bool" where
  "additive m \<longleftrightarrow> (\<exists>i. goes (adds i) m)"

lemma files_adds [ctl_steps]: "goes (adds i) (print_out s)" "goes (adds i) (ctl_call U c rq)" "goes (adds i) (write_out U s)"
  by (rule goes_mono[OF files_print(1) same_files_adds] goes_mono[OF call_steps(1) same_files_adds]
    goes_mono[OF out_steps(1) same_files_adds], assumption)+

lemma plain_paths: "\<not> asks_secrets (project_path pid)" "\<not> asks_secrets (project_path pid @ ''/export'')"
    "\<not> asks_secrets (project_path pid @ ''/backup'')" "\<not> asks_secrets (project_path pid @ ''/backups'')"
    "\<not> asks_secrets (project_path pid @ ''/restore'')" "\<not> asks_secrets (project_path pid @ ''/export?format=tar.gz'')"
    "\<not> asks_secrets ''/api/projects''" "\<not> asks_secrets ''/api/projects/import''"
  using project_path_query[of pid "''format=tar.gz''"] by (auto intro!: not_asking)

lemma request_path [simp]: "hr_Path (plain_request m p) = p"
  by (simp add: plain_request_def)

lemma simple_commands:
  "goes no_secrets (cmdStatus U c)" "goes same_files (cmdStatus U c)"
  "goes no_secrets (cmdHistory U c args)" "goes same_files (cmdHistory U c args)"
  "goes no_secrets (cmdDelete U c args)" "goes same_files (cmdDelete U c args)"
  "goes no_secrets (cmdUnpack U c args)" "goes same_files (cmdUnpack U c args)"
  "goes no_secrets (cmdBackup U c args)" "goes same_files (cmdBackup U c args)"
  "goes no_secrets (cmdListBackups U c args)" "goes same_files (cmdListBackups U c args)"
  "goes no_secrets (cmdRestore U c args)" "goes same_files (cmdRestore U c args)"
  unfolding cmdStatus_def cmdHistory_def cmdDelete_def cmdUnpack_def cmdBackup_def cmdListBackups_def cmdRestore_def Let_def
  by (intro ctl_steps; simp add: plain_paths)+

lemma action_command:
  "CHR ''?'' \<notin> set action \<Longrightarrow> goes no_secrets (cmdAction U c action args)" "goes same_files (cmdAction U c action args)"
proof -
  show "goes no_secrets (cmdAction U c action args)" if "CHR ''?'' \<notin> set action"
    using that unfolding cmdAction_def by (intro ctl_steps) (auto intro!: not_asking)
  show "goes same_files (cmdAction U c action args)"
    unfolding cmdAction_def by (intro ctl_steps)
qed

lemma simple_discreet: "goes no_secrets m \<Longrightarrow> goes same_files m \<Longrightarrow> discreet m \<and> additive m"
  unfolding discreet_def additive_def by (meson goes_mono same_files_adds)

lemma export_command: "discreet (cmdExport U c args) \<and> additive (cmdExport U c args)"
proof (cases "parse_output (\<lambda>a. a @ '' requires a path'') args '''' '''' False")
  case (Inl err)
  have "goes no_secrets (cmdExport U c args)" "goes same_files (cmdExport U c args)"
    unfolding cmdExport_def Inl sum.case by (intro ctl_steps)+
  then show ?thesis by (rule simple_discreet)
next
  case (Inr a)
  obtain pid out sec where a: "a = (pid, out, sec)"
    by (cases a)
  show ?thesis
  proof (cases sec)
    case True
    have "goes quiet (cmdExport U c args)"
      unfolding cmdExport_def Inr a sum.case prod.case Let_def
      by (intro ctl_steps) (use True in auto)
    moreover have "goes (adds 384) (cmdExport U c args)"
      unfolding cmdExport_def Inr a sum.case prod.case if_P[OF True] Let_def by (intro ctl_steps)
    ultimately show ?thesis by (auto simp: discreet_def additive_def)
  next
    case False
    have "goes no_secrets (cmdExport U c args)"
      unfolding cmdExport_def Inr a sum.case prod.case Let_def
      by (intro ctl_steps) (use False in \<open>simp add: plain_paths\<close>)
    moreover have "goes (adds 420) (cmdExport U c args)"
      unfolding cmdExport_def Inr a sum.case prod.case if_not_P[OF False] Let_def by (intro ctl_steps)
    ultimately show ?thesis by (auto simp: discreet_def additive_def)
  qed
qed

lemma pack_command: "discreet (cmdPack U c args) \<and> additive (cmdPack U c args)"
proof (cases "parse_output (\<lambda>a. ''-o requires a path'') args '''' '''' False")
  case (Inl err)
  have "goes no_secrets (cmdPack U c args)" "goes same_files (cmdPack U c args)"
    unfolding cmdPack_def Inl sum.case by (intro ctl_steps)+
  then show ?thesis by (rule simple_discreet)
next
  case (Inr a)
  obtain pid out sec where a: "a = (pid, out, sec)"
    by (cases a)
  have adds: "goes (adds 384) (cmdPack U c args)"
    unfolding cmdPack_def Let_def by (intro ctl_steps)
  show ?thesis
  proof (cases sec)
    case True
    have "goes quiet (cmdPack U c args)"
      unfolding cmdPack_def Inr a sum.case prod.case Let_def
      by (intro ctl_steps) (use True in auto)
    with adds show ?thesis by (auto simp: discreet_def additive_def)
  next
    case False
    have "goes no_secrets (cmdPack U c args)"
      unfolding cmdPack_def Inr a sum.case prod.case Let_def
      by (intro ctl_steps) (use False in \<open>simp add: plain_paths\<close>)
    with adds show ?thesis by (auto simp: discreet_def additive_def)
  qed
qed

lemma ctl_command_ok: "ctl_command U c cmd args = Some m \<Longrightarrow> discreet m \<and> additive m"
proof -
  let ?ok = "\<lambda>m. discreet m \<and> additive m"
  have action: "?ok (cmdAction U c cmd args)" if "cmd \<in> {''start'', ''stop'', ''deploy'', ''rollback''}"
    by (rule simple_discreet[OF action_command]) (use that in auto)
  note ok = export_command pack_command simple_discreet[OF simple_commands(1,2)] simple_discreet[OF simple_commands(3,4)]
    simple_discreet[OF simple_commands(5,6)] simple_discreet[OF simple_commands(7,8)] simple_discreet[OF simple_commands(9,10)]
    simple_discreet[OF simple_commands(11,12)] simple_discreet[OF simple_commands(13,14)]
  have "pred_option ?ok (ctl_command U c cmd args)"
    unfolding ctl_command_def using action by (simp add: ok)
  then show "ctl_command U c cmd args = Some m \<Longrightarrow> ?ok m"
    by simp
qed

text \<open>The messages of \<open>main\<close> come after the command, on the error stream.\<close>

lemma ctl_main_run:
  assumes "run_state (ctl_main U s argv) t = (code, t')"
  shows "(no_secrets t t' \<or> quiet t t' \<and> adds 384 t t') \<and> (\<exists>i. adds i t t')"
proof -
  have usage: "goes same_files (do { print_err x; State_Monad.return y })" "goes no_secrets (do { print_err x; State_Monad.return y })"
    for x and y :: int
    by (intro ctl_steps)+
  let ?m = "ctl_main U s argv"
  have "discreet ?m \<and> additive ?m"
  proof (cases argv)
    case Nil
    show ?thesis unfolding ctl_main_def Nil list.case by (rule simple_discreet[OF usage(2,1)])
  next
    case (Cons cmd args)
    show ?thesis
    proof (cases "cmd = ''-h'' \<or> cmd = ''--help'' \<or> cmd = ''help''")
      case True
      show ?thesis unfolding ctl_main_def Cons list.case if_P[OF True] by (rule simple_discreet[OF usage(2,1)])
    next
      case False
      show ?thesis
      proof (cases "ctl_command U (if s = '''' then defaultSocket else s) cmd args")
        case None
        show ?thesis unfolding ctl_main_def Cons list.case if_not_P[OF False] None option.case
          by (rule simple_discreet[OF usage(2,1)])
      next
        case (Some m)
        have "goes R m \<Longrightarrow> silent R \<Longrightarrow> goes R ?m" for R
          unfolding ctl_main_def Cons list.case if_not_P[OF False] Some option.case
          by (intro transition.goes_bind transition.goes_sum transition.goes_ret silent.goes_print_err)
            (auto simp: silent_def)
        then show ?thesis
          using ctl_command_ok[OF Some] quiet.silent_axioms no_secrets.silent_axioms adds.silent_axioms
          unfolding discreet_def additive_def by blast
      qed
    qed
  qed
  with assms show ?thesis
    unfolding discreet_def additive_def by (meson goesD)
qed

section \<open>Properties\<close>

text \<open>
  \<^bold>\<open>Property C38.\<close> Whatever it is called with and whatever the server answers, \<open>bbsit-ctl\<close> changes and deletes no
  file that was there before.
\<close>

theorem ctl_only_adds_files:
  assumes "run_state (ctl_main U s argv) t = (code, t')" and "map_of (tm_fs t) q = Some n"
  shows "map_of (tm_fs t') q = Some n"
  using ctl_main_run[OF assms(1)] assms(2) unfolding adds_def by (metis option.distinct(1))

text \<open>
  \<^bold>\<open>Property C39.\<close> A run of \<open>bbsit-ctl\<close> that asks the server for plaintext secrets writes nothing to its
  standard output, and every file it adds has mode 0600.
\<close>

theorem ctl_secrets_stay_private:
  assumes "run_state (ctl_main U s argv) t = (code, t')"
    and "rq \<in> set (drop (length (tm_sent t)) (tm_sent t'))" and "asks_secrets (hr_Path rq)"
  shows "tm_stdout t' = tm_stdout t \<and>
    (\<forall>q n. map_of (tm_fs t') q = Some n \<and> map_of (tm_fs t) q \<noteq> Some n \<longrightarrow> (\<exists>c. n = FileNode c 384))"
proof -
  have "\<not> no_secrets t t'"
    using assms(2,3) by (auto simp: no_secrets_def)
  with ctl_main_run[OF assms(1)] have "quiet t t'" "adds 384 t t'"
    by auto
  then show ?thesis
    unfolding quiet_def adds_def by (metis option.inject)
qed

lemma ctl_call_run:
  assumes "run_state (ctl_call U c rq) t = (Inr resp, t')"
  shows "\<exists>n. ct_Do U c n rq = Inr resp \<and> hp_StatusCode resp < 400"
  using assms by (auto simp: ctl_call_def or_return_def ctl_do_def split: prod.splits sum.splits if_splits)

text \<open>
  An export to a file that succeeds has created it with exactly the body of the server's answer
  to the export of that project, which was complete and no error.
\<close>

theorem export_writes_response:
  assumes "run_state (cmdExport U c args) t = (Inr (), t')"
    and "parse_output (\<lambda>a. a @ '' requires a path'') args '''' '''' False = Inr (pid, outPath, secrets)" and "outPath \<noteq> ''''"
  shows "\<exists>n resp. ct_Do U c n (plain_request ''GET'' (project_path pid @ ''/export'' @ (if secrets then ''?export_secrets=true'' else '''')))
      = Inr resp \<and> hp_StatusCode resp < 400 \<and> hp_Err resp = None \<and>
    map_of (tm_fs t') (Clean (abs_path U outPath)) = Some (FileNode (concat (hp_Chunks resp)) (if secrets then 384 else 420))"
proof -
  let ?rq = "plain_request ''GET'' (project_path pid @ ''/export'' @ (if secrets then ''?export_secrets=true'' else ''''))"
  have ok: "pid \<noteq> ''''" "\<not> (secrets \<and> outPath = '''')"
    using assms by (auto simp: cmdExport_def)
  obtain r t1 where call: "run_state (ctl_call U c ?rq) t = (r, t1)"
    by fastforce
  have run: "run_state (case r of Inl err \<Rightarrow> fail err | Inr resp \<Rightarrow> do {
      cm \<leftarrow> writeNewFile U outPath (if secrets then 384 else 420) resp None;
      case fst cm of Inl err \<Rightarrow> fail err
      | Inr u \<Rightarrow> do {
          print_err (if secrets then ''WARNING: exported plaintext secrets to '' @ outPath @ '' (mode 0600)'' @ line_end
            else ''wrote: '' @ outPath @ line_end);
          done_ok } }) t1 = (Inr (), t')"
    using assms(1) call unfolding cmdExport_def assms(2) sum.case prod.case if_not_P[OF ok(1)] if_not_P[OF ok(2)] Let_def
      or_return_def if_not_P[OF assms(3)]
    by simp
  then obtain resp where r: "r = Inr resp"
    by (cases r) auto
  obtain w mt t2 where w: "run_state (writeNewFile U outPath (if secrets then 384 else 420) resp None) t1 = ((w, mt), t2)"
    by (metis prod.exhaust)
  from run r w have "w = Inr ()" "tm_fs t' = tm_fs t2"
    by (auto simp: print_err_def split: sum.splits)
  then have "hp_Err resp = None"
    "map_of (tm_fs t') (Clean (abs_path U outPath)) = Some (FileNode (concat (hp_Chunks resp)) (if secrets then 384 else 420))"
    using writeNewFile_content[of U outPath "if secrets then 384 else 420" resp None t1 "()" mt t2] w by simp_all
  moreover obtain n where "ct_Do U c n ?rq = Inr resp" "hp_StatusCode resp < 400"
    using ctl_call_run[of U c ?rq t resp t1] call r by blast
  ultimately show ?thesis
    by blast
qed

lemma div_bound:
  assumes "0 < (b::int)" and "n div b < c"
  shows "n < c * b"
proof -
  have "n div b * b \<le> (c - 1) * b"
    using assms by (intro mult_right_mono) auto
  then show ?thesis
    using div_mult_mod_eq[of n b] pos_mod_bound[OF assms(1), of n] left_diff_distrib[of c 1 b] by linarith
qed

lemma human_loop_unit:
  assumes "0 \<le> n" and "n < 2 ^ 63" and "(1024::int) ^ Suc k \<le> n" and "x = n div 1024 ^ Suc k" and "k < 6"
  shows "\<exists>e<6. human_loop x (1024 ^ Suc k) k = (1024 ^ Suc e, e) \<and> (1024::int) ^ Suc e \<le> n \<and> n < 1024 ^ Suc (Suc e)"
  using assms(3-5)
proof (induction "5 - k" arbitrary: k x)
  case 0
  then have k: "k = 5"
    by simp
  have "x < 1024"
    using assms(2) 0(3) unfolding k by (simp add: div_less_iff_less_mult)
  then show ?case
    using 0 assms(2) by (subst human_loop.simps) (auto simp: k intro!: exI[of _ 5])
next
  case (Suc j)
  show ?case
  proof (cases "x \<ge> 1024")
    case True
    have next_power: "(1024::int) ^ Suc (Suc k) \<le> n"
    proof -
      have "1024 * 1024 ^ Suc k \<le> x * 1024 ^ Suc k"
        using True by (intro mult_right_mono) auto
      also have "\<dots> \<le> n"
        unfolding Suc.prems(2)
        using div_mult_mod_eq[of n "1024 ^ Suc k"] pos_mod_sign[of "1024 ^ Suc k" n] zero_less_power[of "1024::int" "Suc k"]
        by linarith
      finally show ?thesis by simp
    qed
    have "int64_ok (1024 ^ Suc k * 1024)"
      using next_power assms(2) zero_le_power[of "1024::int" "Suc (Suc k)"] by (auto simp: int64_ok_def simp del: zero_le_power)
    then have "human_loop x (1024 ^ Suc k) k = human_loop (x div 1024) (1024 ^ Suc (Suc k)) (Suc k)"
      using True by (subst human_loop.simps) (simp add: wrap64_id mult.commute)
    moreover have "x div 1024 = n div 1024 ^ Suc (Suc k)"
      unfolding Suc.prems(2) power_Suc2[of _ "Suc k"] by (rule zdiv_zmult2_eq[symmetric]) simp
    ultimately show ?thesis
      using Suc.hyps(1)[of "Suc k" "x div 1024"] Suc.hyps(2) Suc.prems next_power by simp
  next
    case False
    have "n < 1024 ^ Suc (Suc k)"
      using div_bound[of "1024 ^ Suc k" n 1024] False Suc.prems(2) by simp
    with False Suc.prems show ?thesis
      by (subst human_loop.simps) (auto intro!: exI[of _ k])
  qed
qed

text \<open>
  For every 64-bit size \<open>humanBytes\<close> picks one of the six units: the index never leaves the
  table, the divisor does not wrap and is the largest power of 1024 that is not above the size.
\<close>

theorem humanBytes_unit:
  assumes "int64_ok n" and "1024 \<le> n"
  shows "\<exists>e<6. human_loop (n div 1024) 1024 0 = (1024 ^ Suc e, e) \<and> 1024 ^ Suc e \<le> n \<and> n < 1024 ^ Suc (Suc e) \<and>
    humanBytes n = one_decimal (float64_of n) (1024 ^ Suc e) @ '' '' @ [''KMGTPE'' ! e] @ ''B''"
  using human_loop_unit[of n 0 "n div 1024"] assms by (auto simp: int64_ok_def humanBytes_def)

end
