(* ===== verification/Demo_Ctl.thy ===== *)
theory Demo_Ctl
  imports Ctl_Safe
begin

text \<open>A run of \<open>bbsit-ctl\<close> on a small machine with a server that answers an export; it instantiates the theorems.\<close>

definition demo_body :: "string list" where
  "demo_body = [''env_vars:'', '' {TOKEN: s3cret}'']"

definition demo_ctl :: Ctl where
  "demo_ctl = \<lparr>ct_Do = (\<lambda>socket n rq. Inr \<lparr>hp_Status = ''200 OK'', hp_StatusCode = 200, hp_ContentLength = -1,
       hp_Chunks = demo_body, hp_Err = None\<rparr>),
     ct_FsError = (\<lambda>n p. None), ct_StdoutError = (\<lambda>n. None), ct_Now = (\<lambda>n. 0), ct_Pick = (\<lambda>n. 0),
     ct_Upload = (\<lambda>n s. [s]), ct_Stdin = '''', ct_Dir = ''/home/me'', ct_DirSize = 4096, ct_StdoutTty = True, ct_StderrTty = True,
     ct_Align = (\<lambda>s. s), ct_Local = (\<lambda>l t. l), ct_Rate = (\<lambda>w t. 0), ct_Percent = (\<lambda>w t. ''0.0''), ct_Duration = (\<lambda>t. ''0s''),
     ct_Strings = (\<lambda>s. None), ct_Projects = (\<lambda>s x. Inr []), ct_Deployments = (\<lambda>s x. Inr []),
     ct_Run = (\<lambda>s x. Inl ''EOF''), ct_Files = (\<lambda>s x. Inr []), ct_Object = (\<lambda>s x. Inr []), ct_Marshal = (\<lambda>m. ''{}'')\<rparr>"

definition demo_term :: Term where
  "demo_term = \<lparr>tm_fs = [(''/home'', DirNode), (''/home/me'', DirNode), (''/home/me/notes'', FileNode ''n'' 420)],
     tm_stdout = '''', tm_stderr = '''', tm_sent = [], tm_tick = 0\<rparr>"

abbreviation demo_run :: "int \<times> Term" where
  "demo_run \<equiv> run_state (ctl_main demo_ctl '''' [''export'', ''blog'', ''--export-secrets'', ''-o'', ''blog.yaml'']) demo_term"

lemma demo_run_ends:
  "fst demo_run = 0 \<and> map hr_Path (tm_sent (snd demo_run)) = [''/api/projects/blog/export?export_secrets=true'']"
  by code_simp

lemma demo_asks: "asks_secrets ''/api/projects/blog/export?export_secrets=true''"
  by code_simp

theorem ctl_only_adds_files_witness:
  "map_of (tm_fs (snd demo_run)) ''/home/me/notes'' = Some (FileNode ''n'' 420)"
proof (rule ctl_only_adds_files)
  show "demo_run = (fst demo_run, snd demo_run)"
    by simp
qed (simp add: demo_term_def)

theorem ctl_secrets_stay_private_witness:
  "tm_stdout (snd demo_run) = tm_stdout demo_term"
proof -
  obtain rq where rq: "tm_sent (snd demo_run) = [rq]" "hr_Path rq = ''/api/projects/blog/export?export_secrets=true''"
    using demo_run_ends by auto
  have "tm_sent demo_term = []"
    by (simp add: demo_term_def)
  then show ?thesis
    using ctl_secrets_stay_private[of demo_ctl "''''" "[''export'', ''blog'', ''--export-secrets'', ''-o'', ''blog.yaml'']"
      demo_term "fst demo_run" "snd demo_run" rq] rq demo_asks
    by simp
qed

abbreviation demo_export :: "unit result \<times> Term" where
  "demo_export \<equiv> run_state (cmdExport demo_ctl ''/run/s'' [''blog'', ''-o'', ''/home/me/blog.yaml'']) demo_term"

lemma demo_export_ok: "fst demo_export = Inr ()"
  by code_simp

lemma demo_export_args: "parse_output (\<lambda>a. a @ '' requires a path'') [''blog'', ''-o'', ''/home/me/blog.yaml''] '''' '''' False
    = Inr (''blog'', ''/home/me/blog.yaml'', False)"
  by code_simp

lemma demo_out: "Clean (abs_path demo_ctl ''/home/me/blog.yaml'') = ''/home/me/blog.yaml''"
  by code_simp

lemma demo_answers: "ct_Do demo_ctl c n rq = Inr resp \<Longrightarrow> hp_Chunks resp = demo_body"
  by (auto simp: demo_ctl_def)

theorem export_writes_response_witness:
  "map_of (tm_fs (snd demo_export)) ''/home/me/blog.yaml'' = Some (FileNode (concat demo_body) 420)"
  using export_writes_response[of demo_ctl "''/run/s''" "[''blog'', ''-o'', ''/home/me/blog.yaml'']" demo_term "snd demo_export"
      "''blog''" "''/home/me/blog.yaml''" False] demo_export_ok demo_export_args demo_answers
  by (auto simp: demo_out prod_eq_iff)

theorem humanBytes_unit_witness: "\<exists>e<6. human_loop (1536 div 1024) 1024 0 = (1024 ^ Suc e, e) \<and> humanBytes 1536 = ''1.5 KB''"
proof -
  have "humanBytes 1536 = ''1.5 KB''"
    by code_simp
  then show ?thesis
    using humanBytes_unit[of 1536] by (auto simp: int64_ok_def)
qed

end
