(* ===== verification/Deploy_Turns.thy ===== *)
theory Deploy_Turns
  imports Scheduler
begin

text \<open>
  The calls of \<open>internal/deployer/deployer.go\<close> and \<open>internal/scheduler/scheduler.go\<close> cut into
  turns: a goroutine is cut where it touches what the others see, the map of deployment locks
  and the database, whose statements are atomic. \<open>turn\<close> is one such access. The functions of
  \<open>Deployer\<close> and \<open>Scheduler\<close> are proved to be what a goroutine does that is left alone;
  \<open>Deploy_Race\<close> interleaves them.
\<close>

section \<open>Goroutines\<close>

type_synonym Shared = "DB \<times> string list"

text \<open>The place a goroutine has reached, with its local variables.\<close>

datatype Goroutine =
    Returned
  | CallDeploy Project smap DeployTrigger
  | HoldsLock Project smap DeployTrigger
  | HasState Project smap DeployTrigger ProjectState
  | HasRecord Project smap ProjectState nat
  | Working Project smap ProjectState nat
  | RollingBack Project ProjectState nat error
  | Settling Project ProjectState
  | Succeeded Project smap ProjectState
  | Unlocking Project
  | CallRollback Project
  | CallStop Project
  | StopRead Project "ProjectState option"
  | StopDown Project "ProjectState option"
  | CallStart Project
  | StartRead Project "ProjectState option"
  | StartUp Project "ProjectState option"
  | CallReconcile Project DeployTrigger
  | Checking Project DeployTrigger ProjectState
  | Polling Project DeployTrigger ProjectState

definition put_row :: "ProjectState option \<Rightarrow> DB \<Rightarrow> DB" where
  "put_row s db = (case s of None \<Rightarrow> db | Some state \<Rightarrow> UpdateState state db)"

text \<open>The loop over the polled services; \<open>ans n\<close> is the \<open>n\<close>th answer of the registry.\<close>

fun poll_answers ::
    "(nat \<Rightarrow> string result) \<Rightarrow> ProjectState \<Rightarrow> bool \<Rightarrow> ServiceConfig list \<Rightarrow>
     error option \<times> ProjectState \<times> bool" where
  "poll_answers ans state changed [] = (None, state, changed)"
| "poll_answers ans state changed (svc # svcs) =
     (case ans 0 of
        Inl err \<Rightarrow> (Some (''service '' @ svc_Name svc @ '': '' @ err), state, changed)
      | Inr remoteDigest \<Rightarrow>
          poll_answers (\<lambda>n. ans (Suc n))
            (state\<lparr>st_DesiredDigests := AList.update (svc_Name svc) remoteDigest (st_DesiredDigests state)\<rparr>)
            (changed \<or> remoteDigest \<noteq> smap_get (st_CurrentDigests state) (svc_Name svc)) svcs)"

text \<open>
  One turn. The arguments are the clock, how the work since the last turn went (compose, files,
  health checks) and the answers of the registry.
\<close>

fun deploy_turn ::
    "int \<Rightarrow> unit result \<Rightarrow> Goroutine \<Rightarrow> Shared \<Rightarrow> Goroutine \<times> Shared" where
  "deploy_turn now r (CallDeploy p t trigger) (db, locks) =
     (if p_ID p \<in> set locks then (Returned, db, locks)
      else (HoldsLock p t trigger, db, p_ID p # locks))"
| "deploy_turn now r (HoldsLock p t trigger) (db, locks) =
     (case GetState db (p_ID p) of
        Inl err \<Rightarrow> (Unlocking p, db, locks)
      | Inr state \<Rightarrow> (HasState p t trigger state, db, locks))"
| "deploy_turn now r (HasState p t trigger state) (db, locks) =
     (case InsertDeployment (new_deployment p state t trigger now) db of
        (Inl err, db') \<Rightarrow> (Unlocking p, db', locks)
      | (Inr deployID, db') \<Rightarrow>
          (HasRecord p t (state\<lparr>st_Status := StatusDeploying,
             st_DesiredDigests := copyDigestMap t\<rparr>) deployID, db', locks))"
| "deploy_turn now r (HasRecord p t state deployID) (db, locks) =
     (Working p t state deployID, UpdateState state db, locks)"
| "deploy_turn now r (Working p t state deployID) (db, locks) =
     (case r of
        Inl deployErr \<Rightarrow>
          (RollingBack p state deployID deployErr,
           FinishDeployment now deployID DeployFailed deployErr db, locks)
      | Inr u \<Rightarrow>
          (Succeeded p t state, FinishDeployment now deployID DeploySuccess '''' db, locks))"
| "deploy_turn now r (RollingBack p state deployID deployErr) (db, locks) =
     (case (if st_CurrentDigests state = [] then Inl ''no previous digests to rollback to'' else r) of
        Inl err \<Rightarrow>
          (Settling p (state\<lparr>st_Status := StatusFailed,
             st_LastError := ''deploy: '' @ deployErr @ ''; rollback: '' @ err\<rparr>), db, locks)
      | Inr u \<Rightarrow>
          (Settling p (state\<lparr>st_Status := StatusRolledBack,
             st_LastError := ''deploy failed: '' @ deployErr @ '' (rolled back)''\<rparr>),
           FinishDeployment now deployID DeployRolledBack deployErr db, locks))"
| "deploy_turn now r (Settling p state) (db, locks) =
     (Unlocking p, UpdateState (state\<lparr>st_LastDeployAt := Some now\<rparr>) db, locks)"
| "deploy_turn now r (Succeeded p t state) (db, locks) =
     (Unlocking p, UpdateState (state\<lparr>
        st_PreviousDigests := copyDigestMap (st_CurrentDigests state),
        st_CurrentDigests := copyDigestMap t,
        st_Status := StatusRunning, st_LastDeployAt := Some now,
        st_LastSuccessAt := Some now, st_LastError := ''''\<rparr>) db, locks)"
| "deploy_turn now r (Unlocking p) (db, locks) = (Returned, db, remove1 (p_ID p) locks)"
| "deploy_turn now r (CallRollback p) (db, locks) =
     (case GetState db (p_ID p) of
        Inl err \<Rightarrow> (Returned, db, locks)
      | Inr state \<Rightarrow>
          (if st_PreviousDigests state = [] then (Returned, db, locks)
           else (CallDeploy p (st_PreviousDigests state) TriggerManual, db, locks)))"
| "deploy_turn now r g (db, locks) = (g, db, locks)"

fun stop_turn :: "unit result \<Rightarrow> Goroutine \<Rightarrow> DB \<Rightarrow> Goroutine \<times> DB" where
  "stop_turn r (CallStop p) db =
     (StopRead p (map_option (\<lambda>s. s\<lparr>st_Status := StatusStopping\<rparr>) (state_of db (p_ID p))), db)"
| "stop_turn r (StopRead p s) db = (StopDown p s, put_row s db)"
| "stop_turn r (StopDown p s) db =
     (Returned, case r of
        Inl err \<Rightarrow> put_row (map_option (\<lambda>s. s\<lparr>st_Status := StatusFailed,
          st_LastError := ''stop: '' @ err\<rparr>) s) db
      | Inr u \<Rightarrow> put_row (map_option (\<lambda>s. s\<lparr>st_Status := StatusStopped\<rparr>) s) db)"
| "stop_turn r g db = (g, db)"

fun start_turn :: "unit result \<Rightarrow> Goroutine \<Rightarrow> DB \<Rightarrow> Goroutine \<times> DB" where
  "start_turn r (CallStart p) db =
     (StartRead p (map_option (\<lambda>s. s\<lparr>st_Status := StatusStarting\<rparr>) (state_of db (p_ID p))), db)"
| "start_turn r (StartRead p s) db = (StartUp p s, put_row s db)"
| "start_turn r (StartUp p s) db =
     (Returned, case r of
        Inl err \<Rightarrow> put_row (map_option (\<lambda>s. s\<lparr>st_Status := StatusFailed,
          st_LastError := ''start: '' @ err\<rparr>) s) db
      | Inr u \<Rightarrow> put_row (map_option (\<lambda>s. s\<lparr>st_Status := StatusRunning, st_LastError := ''''\<rparr>) s) db)"
| "start_turn r g db = (g, db)"

fun reconcile_turn ::
    "int \<Rightarrow> (nat \<Rightarrow> string result) \<Rightarrow> Goroutine \<Rightarrow> DB \<Rightarrow> Goroutine \<times> DB" where
  "reconcile_turn now ans (CallReconcile p trigger) db =
     (case GetState db (p_ID p) of
        Inl err \<Rightarrow> (Returned, db)
      | Inr state \<Rightarrow> (Checking p trigger state, db))"
| "reconcile_turn now ans (Checking p trigger state) db =
     (let state = state\<lparr>st_LastCheckAt := Some now\<rparr>
      in (Polling p trigger state, UpdateState state db))"
| "reconcile_turn now ans (Polling p trigger state) db =
     (case poll_answers ans state False (PolledServices p) of
        (Some msg, state, changed) \<Rightarrow> (Returned, UpdateState (state\<lparr>st_LastError := msg\<rparr>) db)
      | (None, state, changed) \<Rightarrow>
          (if \<not> changed \<or> st_Status state = StatusDeploying then Returned
           else CallDeploy p (st_DesiredDigests state) trigger,
           UpdateState (state\<lparr>st_LastError := ''''\<rparr>) db))"
| "reconcile_turn now ans g db = (g, db)"

definition stops :: "Goroutine \<Rightarrow> bool" where
  "stops g \<longleftrightarrow> (case g of CallStop p \<Rightarrow> True | StopRead p s \<Rightarrow> True | StopDown p s \<Rightarrow> True | _ \<Rightarrow> False)"

definition starts :: "Goroutine \<Rightarrow> bool" where
  "starts g \<longleftrightarrow> (case g of CallStart p \<Rightarrow> True | StartRead p s \<Rightarrow> True | StartUp p s \<Rightarrow> True | _ \<Rightarrow> False)"

definition reconciles :: "Goroutine \<Rightarrow> bool" where
  "reconciles g \<longleftrightarrow> (case g of
     CallReconcile p c \<Rightarrow> True | Checking p c s \<Rightarrow> True | Polling p c s \<Rightarrow> True | _ \<Rightarrow> False)"

text \<open>The functions that take no lock see the database only.\<close>

definition turn ::
    "int \<Rightarrow> unit result \<Rightarrow> (nat \<Rightarrow> string result) \<Rightarrow> Goroutine \<Rightarrow> Shared \<Rightarrow> Goroutine \<times> Shared" where
  "turn now r ans g sh =
     (if stops g then map_prod id (\<lambda>db. (db, snd sh)) (stop_turn r g (fst sh))
      else if starts g then map_prod id (\<lambda>db. (db, snd sh)) (start_turn r g (fst sh))
      else if reconciles g then map_prod id (\<lambda>db. (db, snd sh)) (reconcile_turn now ans g (fst sh))
      else deploy_turn now r g sh)"

lemmas turn_defs = turn_def stops_def starts_def reconciles_def

section \<open>A goroutine alone\<close>

inductive turns :: "Goroutine \<times> Shared \<Rightarrow> Goroutine \<times> Shared \<Rightarrow> bool" where
  "turns (g, sh) (turn now r ans g sh)"

definition alone :: "Goroutine \<Rightarrow> World \<Rightarrow> Goroutine \<Rightarrow> World \<Rightarrow> bool" where
  "alone g w g' w' \<longleftrightarrow> turns\<^sup>*\<^sup>* (g, own_state w) (g', own_state w')"

lemma alone_refl: "alone g w g w"
  by (simp add: alone_def)

lemma alone_turn:
  "alone g0 w0 g w \<Longrightarrow> turn now r ans g (own_state w) = (g', own_state w') \<Longrightarrow> alone g0 w0 g' w'"
  unfolding alone_def
  by (erule rtranclp.rtrancl_into_rtrancl) (metis turns.intros)

lemma alone_own:
  assumes "alone g0 w0 g w" "leaves own_state m" "\<And>a w'. alone g0 w0 g w' \<Longrightarrow> Q a w'"
  shows "wp m w Q"
  by (rule wp_leavesI [OF assms(2)]) (use assms(1,3) in \<open>simp add: alone_def\<close>)

lemma alone_write:
  assumes "alone g0 w0 g w" "turn now r ans g (w_db w, w_locks w) = (g', f (w_db w), w_locks w)"
    and "\<And>w'. alone g0 w0 g' w' \<Longrightarrow> Q () w'"
  shows "wp (db_write f) w Q"
  using alone_turn [OF assms(1), of now r ans g' "w\<lparr>w_db := f (w_db w)\<rparr>"] assms(2,3)
  by (simp add: own_state_def)

lemma alone_timed:
  assumes "alone g0 w0 g w"
    and "\<And>now. turn now r ans g (w_db w, w_locks w) = (g', f now (w_db w), w_locks w)"
    and "\<And>w'. alone g0 w0 g' w' \<Longrightarrow> Q () w'"
  shows "wp (time_Now e) w (\<lambda>now w1. wp (db_write (f now)) w1 Q)"
proof (rule wp_leavesI [OF leaves_time(1)])
  fix now :: int and w1 :: World
  assume own: "own_state w1 = own_state w"
  with assms(1) have "alone g0 w0 g w1" by (simp add: alone_def)
  then show "wp (db_write (f now)) w1 Q"
  proof (rule alone_write)
    show "turn now r ans g (w_db w1, w_locks w1) = (g', f now (w_db w1), w_locks w1)"
      using assms(2) own by (simp add: own_state_def)
  qed (rule assms(3))
qed

lemma alone_finish:
  assumes "alone g0 w0 g w"
    and "\<And>now. turn now r ans g (w_db w, w_locks w) =
      (g', FinishDeployment now n st msg (w_db w), w_locks w)"
    and "\<And>w'. alone g0 w0 g' w' \<Longrightarrow> Q () w'"
  shows "wp (finish_deployment D n st msg) w Q"
  unfolding finish_deployment_def wp_bind
  by (rule alone_timed, rule assms(1), rule assms(2), rule assms(3))

lemmas turn_simps = turn_defs own_state_def

lemma alone_succeeded:
  assumes "alone g0 w0 (Working p t state n) w"
  shows "wp (deploy_succeeded D p state n t) w (\<lambda>r w'. alone g0 w0 (Unlocking p) w')"
  unfolding deploy_succeeded_def wp_bind wp_ret
  apply (rule alone_finish [where r = "Inr ()" and g' = "Succeeded p t state"])
    apply (rule assms)
   apply (simp add: turn_defs)
  apply (erule alone_timed [where g' = "Unlocking p"])
   apply (simp add: turn_defs)
  apply (erule alone_own, rule leaves_emits)
  by (erule alone_own, rule leaves_emits)

lemma wp_executeRollback_none:
  "wp (executeRollback D p c) w (\<lambda>rb w'. own_state w' = own_state w \<and>
     (c = [] \<longrightarrow> rb = Inl ''no previous digests to rollback to''))"
  by (intro wp_conj wp_leaves frame) (simp add: executeRollback_def wp_def)

lemma alone_settling:
  assumes "alone g0 w0 (Settling p state) w"
  shows "wp (do {
      emit_status D p EventStateChange (st_Status state) None;
      now \<leftarrow> time_Now (dep_env D);
      db_write (UpdateState (state\<lparr>st_LastDeployAt := Some now\<rparr>));
      emit_status D p EventDeployDone (st_Status state) (Some err);
      ret (Inl err) }) w (\<lambda>r w'. alone g0 w0 (Unlocking p) w')"
  unfolding wp_bind wp_ret
  apply (rule alone_own, rule assms, rule leaves_emits)
  apply (erule alone_timed [where g' = "Unlocking p"])
   apply (simp add: turn_defs)
  by (erule alone_own, rule leaves_emits)

lemma alone_failed:
  assumes "alone g0 w0 (Working p t state n) w"
  shows "wp (deploy_failed D p state n err) w (\<lambda>r w'. alone g0 w0 (Unlocking p) w')"
  unfolding deploy_failed_def wp_bind
  apply (rule alone_finish [where r = "Inl err" and g' = "RollingBack p state n err"])
    apply (rule assms)
   apply (simp add: turn_defs)
  apply (erule alone_own, rule leaves_emits)
  apply (rule wp_mono [OF wp_executeRollback_none])
  subgoal premises prems for w1 u w2 rb w3
  proof -
    have w3: "alone g0 w0 (RollingBack p state n err) w3"
      using prems by (simp add: alone_def)
    have rb: "(if st_CurrentDigests state = [] then Inl ''no previous digests to rollback to'' else rb) = rb"
      using prems by auto
    show ?thesis
    proof (cases rb)
      case (Inl err')
      let ?st = "state\<lparr>st_Status := StatusFailed,
        st_LastError := ''deploy: '' @ err @ ''; rollback: '' @ err'\<rparr>"
      have "alone g0 w0 (Settling p ?st) w3"
        by (rule alone_turn [OF w3, of 0 rb]) (simp add: turn_defs own_state_def rb, simp add: Inl)
      then show ?thesis
        unfolding Inl sum.case wp_bind wp_ret
        by (elim alone_own [OF _ leaves_emits(1)] alone_settling [unfolded wp_bind wp_ret])
    next
      case (Inr u)
      let ?st = "state\<lparr>st_Status := StatusRolledBack,
        st_LastError := ''deploy failed: '' @ err @ '' (rolled back)''\<rparr>"
      have t: "turn now rb ans (RollingBack p state n err) (db, locks) =
          (Settling p ?st, FinishDeployment now n DeployRolledBack err db, locks)" for now ans db locks
        unfolding turn_defs by (simp add: rb, simp add: Inr)
      show ?thesis
        unfolding Inr sum.case wp_bind wp_ret
        by (rule alone_own [OF w3 leaves_emits(1)], erule alone_finish [OF _ t],
            erule alone_settling [unfolded wp_bind wp_ret])
    qed
  qed
  done

lemma alone_locked:
  assumes "alone g0 w0 (HoldsLock p t trigger) w"
  shows "wp (deploy_locked D p t trigger) w (\<lambda>r w'. alone g0 w0 (Unlocking p) w')"
proof (cases "GetState (w_db w) (p_ID p)")
  case (Inl err)
  have "alone g0 w0 (Unlocking p) w"
    by (rule alone_turn [OF assms, of 0 "Inr ()"]) (simp add: turn_defs own_state_def Inl)
  then show ?thesis by (simp add: deploy_locked_def Inl)
next
  case (Inr state)
  have has: "alone g0 w0 (HasState p t trigger state) w"
    by (rule alone_turn [OF assms, of 0 "Inr ()"]) (simp add: turn_defs own_state_def Inr)
  show ?thesis
    unfolding deploy_locked_def wp_bind wp_db_read Inr sum.case wp_db_exec
  proof (rule alone_own [OF has leaves_time(1)])
    fix now and w1 :: World
    assume w1: "alone g0 w0 (HasState p t trigger state) w1"
    let ?st = "state\<lparr>st_Status := StatusDeploying, st_DesiredDigests := copyDigestMap t\<rparr>"
    obtain ins db' where ins: "InsertDeployment (new_deployment p state t trigger now) (w_db w1) = (ins, db')"
      by fastforce
    let ?w = "w1\<lparr>w_db := db'\<rparr>"
    show "wp (case fst (InsertDeployment (new_deployment p state t trigger now) (w_db w1)) of
         Inl err \<Rightarrow> ret (Inl (''insert deployment: '' @ err))
       | Inr deployID \<Rightarrow> do {
           let state = ?st;
           db_write (UpdateState state);
           emit_status D p EventStateChange StatusDeploying None;
           r \<leftarrow> deploy_and_check D p t;
           case r of
             Inl deployErr \<Rightarrow> deploy_failed D p state deployID deployErr
           | Inr u \<Rightarrow> deploy_succeeded D p state deployID t })
        (w1\<lparr>w_db := snd (InsertDeployment (new_deployment p state t trigger now) (w_db w1))\<rparr>)
        (\<lambda>r w'. alone g0 w0 (Unlocking p) w')"
    proof (cases ins)
      case (Inl err)
      have "alone g0 w0 (Unlocking p) ?w"
        by (rule alone_turn [OF w1, of now "Inr ()"]) (simp add: turn_defs own_state_def ins Inl)
      then show ?thesis by (simp add: ins Inl)
    next
      case (Inr n)
      have "alone g0 w0 (HasRecord p t ?st n) ?w"
        by (rule alone_turn [OF w1, of now "Inr ()"]) (simp add: turn_defs own_state_def ins Inr)
      then show ?thesis
        unfolding ins fst_conv snd_conv Inr sum.case Let_def wp_bind
        apply (rule alone_write [where now = 0 and r = "Inr ()" and g' = "Working p t ?st n"])
         apply (simp add: turn_defs)
        apply (erule alone_own, rule leaves_emits)
        apply (erule alone_own, rule leaves_deploy_and_check)
        by (auto split: sum.splits intro: alone_failed alone_succeeded)
    qed
  qed
qed

lemma alone_Deploy:
  assumes "alone g0 w0 (CallDeploy p t trigger) w"
  shows "wp (Deploy D p t trigger) w (\<lambda>r w'. alone g0 w0 Returned w')"
proof (cases "p_ID p \<in> set (w_locks w)")
  case True
  have "alone g0 w0 Returned w"
    by (rule alone_turn [OF assms, of 0 "Inr ()"]) (simp add: turn_defs own_state_def True)
  then show ?thesis using True by (simp add: Deploy_def wp_def TryLock_def)
next
  case False
  let ?w = "w\<lparr>w_locks := p_ID p # w_locks w\<rparr>"
  have "alone g0 w0 (HoldsLock p t trigger) ?w"
    by (rule alone_turn [OF assms, of 0 "Inr ()"]) (simp add: turn_defs own_state_def False)
  from alone_locked [OF this, of D]
  have "wp (deploy_locked D p t trigger) ?w
      (\<lambda>r w'. alone g0 w0 Returned (w'\<lparr>w_locks := remove1 (p_ID p) (w_locks w')\<rparr>))"
    by (rule wp_mono) (erule alone_turn [of _ _ _ _ 0 "Inr ()"], simp add: turn_defs own_state_def)
  with False show ?thesis by (rule wp_Deploy_free)
qed

lemma alone_put:
  assumes "alone g0 w0 g w" "turn now r ans g (w_db w, w_locks w) = (g', put_row s (w_db w), w_locks w)"
    and "\<And>w'. alone g0 w0 g' w' \<Longrightarrow> Q () w'"
  shows "wp (put_state s) w Q"
proof -
  have "put_state s = (case s of None \<Rightarrow> ret () | Some state \<Rightarrow> db_write (put_row s))"
    by (cases s) (simp_all add: put_state_def put_row_def [abs_def])
  moreover have "alone g0 w0 g' w" if "s = None"
    using alone_turn [OF assms(1), of now r ans g' w] assms(2) that by (simp add: own_state_def put_row_def)
  moreover have "wp (db_write (put_row s)) w Q"
    by (rule alone_write, rule assms(1), rule assms(2), rule assms(3))
  ultimately show ?thesis
    using assms(3) by (cases s) simp_all
qed

lemma read_state_of: "read_state p = db_read (\<lambda>d. state_of d (p_ID p))"
  by (simp add: read_state_def state_of_def)

lemma alone_Stop: "wp (Stop D p) w (\<lambda>r w'. alone (CallStop p) w Returned w')"
proof -
  let ?s = "map_option (\<lambda>s. s\<lparr>st_Status := StatusStopping\<rparr>) (state_of (w_db w) (p_ID p))"
  have "alone (CallStop p) w (StopRead p ?s) w"
    by (rule alone_turn [OF alone_refl, of 0 "Inr ()"]) (simp add: turn_defs own_state_def)
  then show ?thesis
    unfolding Stop_def read_state_of wp_bind wp_db_read Let_def
    apply (rule alone_put [where g' = "StopDown p ?s" and now = 0 and r = "Inr ()"])
     apply (simp add: turn_defs)
    apply (erule alone_own, rule leaves_emits)
    apply (erule alone_own, rule leaves_composeCmd)
    subgoal for w1 u w2 r w3
      apply (cases r; simp only: sum.case wp_bind wp_ret)
       apply (erule alone_own, rule leaves_emits)
       apply (erule alone_put [where g' = Returned and now = 0 and r = r])
        apply (simp add: turn_defs)
       apply assumption
      apply (erule alone_put [where g' = Returned and now = 0 and r = r])
       apply (simp add: turn_defs)
      by (erule alone_own, rule leaves_emits)
    done
qed

lemma alone_start_failed:
  assumes "alone g0 w0 (StartUp p s) w"
  shows "wp (start_failed D p s err) w (\<lambda>r w'. alone g0 w0 Returned w')"
  unfolding start_failed_def wp_bind wp_ret
  apply (rule alone_own, rule assms, rule leaves_emits)
  apply (erule alone_put [where g' = Returned and now = 0 and r = "Inl err"])
   apply (simp add: turn_defs)
  by assumption

lemma alone_Start: "wp (Start D p) w (\<lambda>r w'. alone (CallStart p) w Returned w')"
proof -
  let ?s = "map_option (\<lambda>s. s\<lparr>st_Status := StatusStarting\<rparr>) (state_of (w_db w) (p_ID p))"
  have up: "wp (do {
       put_state (map_option (\<lambda>s. s\<lparr>st_Status := StatusRunning, st_LastError := ''''\<rparr>) ?s);
       emit_status D p EventStateChange StatusRunning None;
       ret (Inr ()) }) w1 (\<lambda>r w'. alone (CallStart p) w Returned w')"
    if "alone (CallStart p) w (StartUp p ?s) w1" for w1
    unfolding wp_bind wp_ret
    apply (rule alone_put [where g' = Returned and now = 0 and r = "Inr ()"])
      apply (rule that)
     apply (simp add: turn_defs)
    by (erule alone_own, rule leaves_emits)
  have "alone (CallStart p) w (StartRead p ?s) w"
    by (rule alone_turn [OF alone_refl, of 0 "Inr ()"]) (simp add: turn_defs own_state_def)
  then show ?thesis
    unfolding Start_def read_state_of wp_bind wp_db_read Let_def
    apply (rule alone_put [where g' = "StartUp p ?s" and now = 0 and r = "Inr ()"])
     apply (simp add: turn_defs)
    apply (erule alone_own, rule leaves_emits)
    apply (erule alone_own, rule leaves_write_files)
    subgoal for w1 u w2 r w3
      apply (cases r; simp only: sum.case wp_bind)
       apply (erule alone_start_failed)
      apply (erule alone_own, rule leaves_composeCmd)
      subgoal for x r'
        by (cases r') (simp_all only: sum.case alone_start_failed up)
      done
    done
qed

lemma alone_ManualRollback: "wp (ManualRollback D p) w (\<lambda>r w'. alone (CallRollback p) w Returned w')"
proof (cases "GetState (w_db w) (p_ID p)")
  case (Inl err)
  have "alone (CallRollback p) w Returned w"
    by (rule alone_turn [OF alone_refl, of 0 "Inr ()"]) (simp add: turn_defs own_state_def Inl)
  then show ?thesis by (simp add: ManualRollback_def Inl)
next
  case (Inr s)
  let ?g = "if st_PreviousDigests s = [] then Returned else CallDeploy p (st_PreviousDigests s) TriggerManual"
  have "alone (CallRollback p) w ?g w"
    by (rule alone_turn [OF alone_refl, of 0 "Inr ()"]) (simp add: turn_defs own_state_def Inr)
  then show ?thesis by (auto simp: ManualRollback_def Inr intro: alone_Deploy split: if_splits)
qed

lemma wp_poll_answers:
  "wp (poll_services (scheduler_New D R cd) state changed svcs) w (\<lambda>polled w'.
     own_state w' = own_state w \<and> (\<exists>ans. polled = poll_answers ans state changed svcs))"
proof (induction svcs arbitrary: state changed w)
  case Nil
  show ?case by simp
next
  case (Cons svc svcs)
  show ?case
    unfolding poll_services.simps wp_bind
  proof (rule wp_leavesI)
    show "leaves own_state (sch_digestFn (scheduler_New D R cd) (sch_runtime (scheduler_New D R cd))
        (svc_RegistryImage svc) (svc_tag svc) (svc_Platform svc))"
      by (simp add: scheduler_New_def leaves_GetRemoteDigest)
  next
    fix r and w1 :: World
    assume w1: "own_state w1 = own_state w"
    show "wp (case r of
           Inl err \<Rightarrow> ret (Some (''service '' @ svc_Name svc @ '': '' @ err), state, changed)
         | Inr remoteDigest \<Rightarrow>
             poll_services (scheduler_New D R cd)
               (state\<lparr>st_DesiredDigests := AList.update (svc_Name svc) remoteDigest (st_DesiredDigests state)\<rparr>)
               (changed \<or> remoteDigest \<noteq> smap_get (st_CurrentDigests state) (svc_Name svc)) svcs) w1
         (\<lambda>polled w'. own_state w' = own_state w \<and>
            (\<exists>ans. polled = poll_answers ans state changed (svc # svcs)))"
    proof (cases r)
      case (Inl err)
      with w1 show ?thesis by (auto intro!: exI [of _ "\<lambda>n. r"])
    next
      case (Inr x)
      have "\<exists>a. polled = poll_answers a state changed (svc # svcs)"
        if "polled = poll_answers ans (state\<lparr>st_DesiredDigests :=
              AList.update (svc_Name svc) x (st_DesiredDigests state)\<rparr>)
            (changed \<or> x \<noteq> smap_get (st_CurrentDigests state) (svc_Name svc)) svcs" for polled ans
        using that by (intro exI [of _ "case_nat r ans"]) (simp add: Inr)
      then show ?thesis
        unfolding Inr sum.case by (intro wp_mono [OF Cons.IH]) (auto simp: w1)
    qed
  qed
qed

lemma alone_reconcileOne:
  "wp (reconcileOne (scheduler_New D R cd) p state trigger) w
     (\<lambda>r w'. alone (Checking p trigger state) w Returned w')"
  unfolding reconcileOne_def Let_def wp_bind
proof (rule alone_own [OF alone_refl leaves_time(1)])
  fix now and w1 :: World
  let ?s = "state\<lparr>st_LastCheckAt := Some now\<rparr>"
  let ?A = "alone (Checking p trigger state) w"
  assume "?A (Checking p trigger state) w1"
  then show "wp (db_write (UpdateState ?s)) w1 (\<lambda>a w'. wp (poll_services (scheduler_New D R cd) ?s False
      (PolledServices p)) w' (\<lambda>a w'. wp (finish_poll (scheduler_New D R cd) p trigger a) w' (\<lambda>r. ?A Returned)))"
  proof (rule alone_write [where now = now and r = "Inr ()" and g' = "Polling p trigger ?s"])
    fix w2 assume w2: "?A (Polling p trigger ?s) w2"
    show "wp (poll_services (scheduler_New D R cd) ?s False (PolledServices p)) w2
        (\<lambda>a w'. wp (finish_poll (scheduler_New D R cd) p trigger a) w' (\<lambda>r. ?A Returned))"
    proof (rule wp_mono [OF wp_poll_answers])
      fix polled and w3 :: World
      assume "own_state w3 = own_state w2 \<and>
        (\<exists>ans. polled = poll_answers ans ?s False (PolledServices p))"
      then obtain ans where w3: "?A (Polling p trigger ?s) w3"
        and ans: "poll_answers ans ?s False (PolledServices p) = polled"
        using w2 by (auto simp: alone_def)
      obtain err s changed where polled: "polled = (err, s, changed)" by (cases polled)
      note t = ans [unfolded polled]
      show "wp (finish_poll (scheduler_New D R cd) p trigger polled) w3 (\<lambda>r. ?A Returned)"
      proof (cases err)
        case (Some msg)
        show ?thesis
          unfolding finish_poll_def polled Some prod.case option.case wp_bind
          apply (rule alone_write [where now = 0 and ans = ans and r = "Inr ()" and g' = Returned])
            apply (rule w3)
           apply (simp add: turn_defs t Some)
          by (erule alone_own) (simp_all add: scheduler_New_def leaves_emit)
      next
        case None
        let ?g = "if \<not> changed \<or> st_Status s = StatusDeploying then Returned
          else CallDeploy p (st_DesiredDigests s) trigger"
        show ?thesis
          unfolding finish_poll_def polled None prod.case option.case wp_bind Let_def
          apply (rule alone_write [where now = 0 and ans = ans and r = "Inr ()" and g' = ?g])
            apply (rule w3)
           apply (simp add: turn_defs t None)
          by (auto simp: scheduler_New_def split: if_splits
              intro: alone_Deploy alone_own [OF _ leaves_emit(1)])
      qed
    qed
  qed (simp add: turn_defs Let_def)
qed

lemma wp_alone: "wp m w (\<lambda>r w'. alone g w g' w') \<Longrightarrow> alone g w g' (snd (run_state m w))"
  by (simp add: wp_def split: prod.splits)

text \<open>
  Property C5. The functions of the deployer and the scheduler are what a goroutine does that
  is left alone: every run of \<open>Deploy\<close>, \<open>ManualRollback\<close>, \<open>Stop\<close>, \<open>Start\<close> and \<open>reconcileOne\<close>
  is a sequence of turns from the call to its return with the same effect on the database and
  the locks, whatever the world answers.
\<close>

theorem calls_are_turns:
  "alone (CallDeploy p t trigger) w Returned (snd (run_state (Deploy D p t trigger) w)) \<and>
   alone (CallRollback p) w Returned (snd (run_state (ManualRollback D p) w)) \<and>
   alone (CallStop p) w Returned (snd (run_state (Stop D p) w)) \<and>
   alone (CallStart p) w Returned (snd (run_state (Start D p) w)) \<and>
   alone (Checking p trigger s) w Returned (snd (run_state (reconcileOne (scheduler_New D R cd) p s trigger) w))"
  by (intro conjI wp_alone alone_Deploy [OF alone_refl] alone_ManualRollback alone_Stop alone_Start
      alone_reconcileOne)

end
