(* ===== verification/Deploy_Race.thy ===== *)
theory Deploy_Race
  imports Deploy_Turns
begin

text \<open>
  Deployments, stops, starts and reconciliations of the daemon in any number of goroutines and
  any order of turns, with the other writers of the database in between. Shown for every
  interleaving: one deployment of a project at a time, which has the only record in progress;
  what the lock keeps of the state rows; and what is lost because \<open>Stop\<close> does not take it.
\<close>

section \<open>Interleavings\<close>

record System =
  sy_db :: DB
  sy_locks :: "string list"
  sy_go :: "nat \<Rightarrow> Goroutine"

text \<open>The writers of the database that are no goroutine of the deployer or the scheduler.\<close>

inductive other_write :: "DB \<Rightarrow> DB \<Rightarrow> bool" where
  "other_write db (snd (CreateProject cd r now p db))"
| "other_write db (snd (UpdateProject cd r now p db))"
| "other_write db (snd (DeleteProject i db))"
| "other_write db (snd (CreateTunnel cd r r' now t db))"
| "other_write db (snd (UpdateTunnel cd r r' now t db))"
| "other_write db (snd (db_DeleteTunnel i db))"
| "other_write db (SetPassword now h db)"
| "other_write db (snd (InsertBackupRun b db))"
| "other_write db (FinishBackupRun now n st f h bytes msg db)"

fun is_call :: "Goroutine \<Rightarrow> bool" where
  "is_call (CallDeploy p t trigger) = True"
| "is_call (CallRollback p) = True"
| "is_call (CallStop p) = True"
| "is_call (CallStart p) = True"
| "is_call (CallReconcile p trigger) = True"
| "is_call g = False"

text \<open>
  One step, with the calls and the other writes that are let in: a new goroutine starts, one
  takes its turn, or another writer does.
\<close>

inductive sys_step ::
    "(Goroutine \<Rightarrow> bool) \<Rightarrow> (DB \<Rightarrow> DB \<Rightarrow> bool) \<Rightarrow> System \<Rightarrow> System \<Rightarrow> bool"
  for calls writes where
  step_call: "sy_go s k = Returned \<Longrightarrow> calls g \<Longrightarrow>
     sys_step calls writes s (s\<lparr>sy_go := (sy_go s)(k := g)\<rparr>)"
| step_turn: "turn now r ans (sy_go s k) (sy_db s, sy_locks s) = (g, db, locks) \<Longrightarrow>
     sys_step calls writes s (s\<lparr>sy_db := db, sy_locks := locks, sy_go := (sy_go s)(k := g)\<rparr>)"
| step_other: "writes (sy_db s) db \<Longrightarrow> sys_step calls writes s (s\<lparr>sy_db := db\<rparr>)"

abbreviation interleaved :: "System \<Rightarrow> System \<Rightarrow> bool" where
  "interleaved \<equiv> (sys_step is_call other_write)\<^sup>*\<^sup>*"

text \<open>The daemon after its start-up sweep.\<close>

definition sys_start :: "int \<Rightarrow> DB \<Rightarrow> System" where
  "sys_start now db = \<lparr>sy_db = ResetStaleBackups now (ResetStaleStates now db), sy_locks = [],
     sy_go = (\<lambda>k. Returned)\<rparr>"

section \<open>Locks and records\<close>

text \<open>The project whose lock a goroutine holds, its record, and whether that is in progress.\<close>

fun holds :: "Goroutine \<Rightarrow> string option" where
  "holds (HoldsLock p t trigger) = Some (p_ID p)"
| "holds (HasState p t trigger s) = Some (p_ID p)"
| "holds (HasRecord p t s n) = Some (p_ID p)"
| "holds (Working p t s n) = Some (p_ID p)"
| "holds (RollingBack p s n e) = Some (p_ID p)"
| "holds (Settling p s) = Some (p_ID p)"
| "holds (Succeeded p t s) = Some (p_ID p)"
| "holds (Unlocking p) = Some (p_ID p)"
| "holds g = None"

fun open_record :: "Goroutine \<Rightarrow> nat option" where
  "open_record (HasRecord p t s n) = Some n"
| "open_record (Working p t s n) = Some n"
| "open_record g = None"

fun own_record :: "Goroutine \<Rightarrow> nat option" where
  "own_record (HasRecord p t s n) = Some n"
| "own_record (Working p t s n) = Some n"
| "own_record (RollingBack p s n e) = Some n"
| "own_record g = None"

definition locks_ok :: "System \<Rightarrow> bool" where
  "locks_ok s \<longleftrightarrow> distinct (sy_locks s) \<and>
     (\<forall>i. i \<in> set (sy_locks s) \<longleftrightarrow> (\<exists>k. holds (sy_go s k) = Some i)) \<and>
     (\<forall>k l i. holds (sy_go s k) = Some i \<longrightarrow> holds (sy_go s l) = Some i \<longrightarrow> k = l)"

definition in_hand :: "(nat \<Rightarrow> Goroutine) \<Rightarrow> Deployment \<Rightarrow> bool" where
  "in_hand go d \<longleftrightarrow> (d_Status d = DeployInProgress \<longrightarrow>
     (\<exists>k. open_record (go k) = Some (d_ID d) \<and> holds (go k) = Some (d_ProjectID d)))"

definition records_ok :: "System \<Rightarrow> bool" where
  "records_ok s \<longleftrightarrow> (\<forall>d \<in> set (db_deployments (sy_db s)). in_hand (sy_go s) d)"

definition owners_ok :: "System \<Rightarrow> bool" where
  "owners_ok s \<longleftrightarrow> (\<forall>k n. own_record (sy_go s k) = Some n \<longrightarrow> n \<le> db_deploy_seq (sy_db s) \<and>
     (\<forall>d \<in> set (db_deployments (sy_db s)). d_ID d = n \<longrightarrow> Some (d_ProjectID d) = holds (sy_go s k)))"

definition system_ok :: "System \<Rightarrow> bool" where
  "system_ok s \<longleftrightarrow> db_ok (sy_db s) \<and> locks_ok s \<and> records_ok s \<and> owners_ok s"

lemmas turn_splits = sum.splits if_splits prod.splits option.splits

text \<open>What a turn does to the locks and to the records.\<close>

lemma turn_locks:
  assumes "turn now r ans g0 (db, locks) = (g, db', locks')"
  shows "holds g = holds g0 \<and> locks' = locks \<or>
    (\<exists>i. holds g0 = None \<and> holds g = Some i \<and> i \<notin> set locks \<and> locks' = i # locks) \<or>
    (\<exists>i. holds g0 = Some i \<and> holds g = None \<and> locks' = remove1 i locks)"
  using assms by (cases g0) (auto simp: turn_defs Let_def split: turn_splits)

lemma UpdateState_deployments [simp]:
  "db_deployments (UpdateState s db) = db_deployments db"
  "db_deploy_seq (UpdateState s db) = db_deploy_seq db"
  "db_deployments (put_row st db) = db_deployments db"
  "db_deploy_seq (put_row st db) = db_deploy_seq db"
  by (simp_all add: UpdateState_def put_row_def split: option.splits)

definition same_records :: "DB \<Rightarrow> DB \<Rightarrow> bool" where
  "same_records db db' \<longleftrightarrow>
     db_deployments db' = db_deployments db \<and> db_deploy_seq db' = db_deploy_seq db"

definition quiet_turn :: "Goroutine \<Rightarrow> DB \<Rightarrow> Goroutine \<Rightarrow> DB \<Rightarrow> bool" where
  "quiet_turn g0 db g db' \<longleftrightarrow> same_records db db' \<and> open_record g = open_record g0 \<and>
     (own_record g = None \<or> own_record g = own_record g0 \<and> holds g = holds g0) \<and>
     (open_record g \<noteq> None \<longrightarrow> holds g = holds g0)"

lemma turn_quiet:
  assumes "turn now r ans g0 (db, locks) = (g, db', locks')"
    and "\<And>p t c s. g0 \<noteq> HasState p t c s" "\<And>p t s n. g0 \<noteq> Working p t s n"
      "\<And>p s n e. g0 \<noteq> RollingBack p s n e"
  shows "quiet_turn g0 db g db'"
  using assms
  by (cases g0) (auto simp: turn_defs quiet_turn_def same_records_def Let_def split: turn_splits)

lemma turn_records:
  assumes "turn now r ans g0 (db, locks) = (g, db', locks')"
  obtains
    (same) "quiet_turn g0 db g db'"
  | (inserted) p :: Project and d where "open_record g0 = None" "own_record g0 = None"
      "holds g = Some (p_ID p)" "open_record g = Some (d_ID d)" "own_record g = Some (d_ID d)"
      "d_ID d = Suc (db_deploy_seq db)" "d_ProjectID d = p_ID p"
      "db_deployments db' = db_deployments db @ [d]" "db_deploy_seq db' = Suc (db_deploy_seq db)"
  | (finished) n st msg where "own_record g0 = Some n" "holds g = holds g0" "st \<noteq> DeployInProgress"
      "db' = FinishDeployment now n st msg db" "open_record g = None"
      "own_record g = None \<or> own_record g = Some n"
      "open_record g0 = None \<or> open_record g0 = Some n"
proof (cases g0)
  case (HasState p t trigger s)
  show ?thesis
  proof (cases "fst (InsertDeployment (new_deployment p s t trigger now) db)")
    case (Inl e)
    then show ?thesis
      using assms HasState same
      by (auto simp: turn_defs InsertDeployment_def Let_def quiet_turn_def same_records_def split: turn_splits)
  next
    case (Inr n)
    then show ?thesis
      using assms HasState
      by (intro inserted [of p "(new_deployment p s t trigger now)\<lparr>d_ID := n,
            d_StartedAt := rfc3339 now\<rparr>"])
         (auto simp: turn_defs InsertDeployment_def Let_def new_deployment_def fmtTime_def split: turn_splits)
  qed
next
  case (Working p t s n)
  then show ?thesis
    using assms by (cases r) (auto simp: turn_defs intro: finished)
next
  case (RollingBack p s n err)
  then show ?thesis
    using assms
    by (auto simp: turn_defs quiet_turn_def same_records_def split: turn_splits intro: same finished)
qed (rule same, rule turn_quiet [OF assms], simp_all)+

lemma turn_db_ok:
  assumes "turn now r ans g0 (db, locks) = (g, db', locks')" "db_ok db"
  shows "db_ok db'"
proof (cases g0)
  case (HasState p t trigger s)
  then show ?thesis
    using assms db_ok_InsertDeployment [OF assms(2), of "new_deployment p s t trigger now"]
    by (auto simp: turn_defs split: turn_splits)
qed (use assms in \<open>auto simp: turn_defs Let_def put_row_def wf_intros split: turn_splits\<close>)

lemma other_db_ok: "other_write db db' \<Longrightarrow> db_ok db \<Longrightarrow> db_ok db'"
  by (induction rule: other_write.induct) (simp_all add: wf_intros)

lemma other_records:
  "other_write db db' \<Longrightarrow> db_deploy_seq db' = db_deploy_seq db \<and>
     set (db_deployments db') \<subseteq> set (db_deployments db)"
  by (induction rule: other_write.induct)
     (auto simp: CreateProject_def UpdateProject_def DeleteProject_def CreateTunnel_def UpdateTunnel_def
        db_DeleteTunnel_def SetPassword_def InsertBackupRun_def FinishBackupRun_def Let_def split: turn_splits)

text \<open>The invariant, one part at a time. A call that starts holds nothing.\<close>

lemma is_call_holds: "is_call g \<Longrightarrow> holds g = None \<and> open_record g = None \<and> own_record g = None"
  by (cases g) simp_all

lemma locks_ok_turn:
  assumes "locks_ok s" "turn now r ans (sy_go s k) (sy_db s, sy_locks s) = (g, db, locks)"
  shows "locks_ok (s\<lparr>sy_db := db, sy_locks := locks, sy_go := (sy_go s)(k := g)\<rparr>)"
proof -
  have held: "i \<in> set (sy_locks s) \<longleftrightarrow> (\<exists>k. holds (sy_go s k) = Some i)" for i
    using assms(1) by (simp add: locks_ok_def)
  have one: "holds (sy_go s a) = Some i \<Longrightarrow> holds (sy_go s b) = Some i \<Longrightarrow> a = b" for a b i
    using assms(1) by (auto simp: locks_ok_def)
  consider (keep) "holds g = holds (sy_go s k)" "locks = sy_locks s"
    | (take) i where "holds (sy_go s k) = None" "holds g = Some i" "i \<notin> set (sy_locks s)"
        "locks = i # sy_locks s"
    | (give) i where "holds (sy_go s k) = Some i" "holds g = None" "locks = remove1 i (sy_locks s)"
    using turn_locks [OF assms(2)] by blast
  then show ?thesis
  proof cases
    case keep
    have "holds (((sy_go s)(k := g)) l) = holds (sy_go s l)" for l using keep by simp
    then show ?thesis using assms(1) keep unfolding locks_ok_def by simp
  next
    case (take i)
    have "(\<exists>l. holds (((sy_go s)(k := g)) l) = Some j) \<longleftrightarrow> j = i \<or> (\<exists>l. holds (sy_go s l) = Some j)" for j
      using take(1,2) by (metis fun_upd_apply option.distinct(1) option.inject)
    then show ?thesis
      using assms(1) held take unfolding locks_ok_def
      by (simp del: fun_upd_apply) (metis fun_upd_apply option.inject)
  next
    case (give i)
    have "(\<exists>l. holds (((sy_go s)(k := g)) l) = Some j) \<longleftrightarrow> j \<noteq> i \<and> (\<exists>l. holds (sy_go s l) = Some j)" for j
      using give(1,2) one by (metis fun_upd_apply option.distinct(1) option.inject)
    moreover have "holds (((sy_go s)(k := g)) l) = Some j \<Longrightarrow> holds (sy_go s l) = Some j" for l j
      using give(2) by (simp split: if_splits)
    ultimately show ?thesis
      using assms(1) held one give(3) unfolding locks_ok_def
      by (simp add: set_remove1_eq del: fun_upd_apply) blast
  qed
qed

lemma in_hand_same:
  assumes "in_hand go d" "open_record g = open_record (go k)"
    "open_record g \<noteq> None \<longrightarrow> holds g = holds (go k)"
  shows "in_hand (go(k := g)) d"
  using assms unfolding in_hand_def by (metis fun_upd_apply option.distinct(1))

lemma records_ok_turn:
  assumes "records_ok s" "turn now r ans (sy_go s k) (sy_db s, sy_locks s) = (g, db, locks)"
  shows "records_ok (s\<lparr>sy_db := db, sy_locks := locks, sy_go := (sy_go s)(k := g)\<rparr>)"
  using assms(2)
proof (cases rule: turn_records)
  case same
  then show ?thesis
    using assms(1) unfolding records_ok_def quiet_turn_def same_records_def
    by (auto intro: in_hand_same)
next
  case (inserted p d)
  have "in_hand ((sy_go s)(k := g)) d'" if "in_hand (sy_go s) d'" for d'
    using that inserted(1) unfolding in_hand_def by (metis fun_upd_apply option.distinct(1))
  moreover have "in_hand ((sy_go s)(k := g)) d"
    using inserted by (auto simp: in_hand_def intro: exI [of _ k])
  ultimately show ?thesis
    using assms(1) inserted unfolding records_ok_def by simp
next
  case (finished n st msg)
  have "in_hand ((sy_go s)(k := g)) d" if "in_hand (sy_go s) d" "d_ID d \<noteq> n" for d
    using that finished(5,7) unfolding in_hand_def by (metis fun_upd_apply option.distinct(1) option.inject)
  moreover have "in_hand go (d\<lparr>d_Status := st, d_EndedAt := e, d_ErrorMessage := msg\<rparr>)" for go d e
    using finished(3) by (simp add: in_hand_def)
  ultimately show ?thesis
    using assms(1) unfolding records_ok_def finished(4) by (auto simp: FinishDeployment_def)
qed

lemma owners_ok_turn:
  assumes "owners_ok s" "db_ok (sy_db s)"
    and "turn now r ans (sy_go s k) (sy_db s, sy_locks s) = (g, db, locks)"
  shows "owners_ok (s\<lparr>sy_db := db, sy_locks := locks, sy_go := (sy_go s)(k := g)\<rparr>)"
  using assms(3)
proof (cases rule: turn_records)
  case same
  then show ?thesis
    using assms(1) unfolding owners_ok_def quiet_turn_def same_records_def by auto
next
  case (inserted p d)
  have old: "d_ID d' \<noteq> d_ID d" if "d' \<in> set (db_deployments (sy_db s))" for d'
    using assms(2) that inserted(6) by (auto simp: db_ok_def deployments_ok_def)
  have others: "n \<le> db_deploy_seq (sy_db s)" if "own_record (sy_go s l) = Some n" for l n
    using assms(1) that by (auto simp: owners_ok_def)
  show ?thesis
    unfolding owners_ok_def
  proof (intro allI impI)
    fix l n
    assume "own_record (sy_go (s\<lparr>sy_db := db, sy_locks := locks, sy_go := (sy_go s)(k := g)\<rparr>) l) = Some n"
    then show "n \<le> db_deploy_seq (sy_db (s\<lparr>sy_db := db, sy_locks := locks, sy_go := (sy_go s)(k := g)\<rparr>)) \<and>
        (\<forall>d \<in> set (db_deployments (sy_db (s\<lparr>sy_db := db, sy_locks := locks, sy_go := (sy_go s)(k := g)\<rparr>))).
          d_ID d = n \<longrightarrow> Some (d_ProjectID d) =
            holds (sy_go (s\<lparr>sy_db := db, sy_locks := locks, sy_go := (sy_go s)(k := g)\<rparr>) l))"
      using inserted old others [of l n] assms(1) unfolding owners_ok_def
      by (cases "l = k") (auto simp: le_Suc_eq dest: others)
  qed
next
  case (finished n st msg)
  have seq: "db_deploy_seq db = db_deploy_seq (sy_db s)"
    by (simp add: finished(4) FinishDeployment_def)
  have rows: "d \<in> set (db_deployments db) \<Longrightarrow> \<exists>d0 \<in> set (db_deployments (sy_db s)).
      d_ID d0 = d_ID d \<and> d_ProjectID d0 = d_ProjectID d" for d
    by (auto simp: finished(4) FinishDeployment_def split: if_splits)
  show ?thesis
    using assms(1) finished(1,2,6) seq rows unfolding owners_ok_def by (fastforce split: if_splits)
qed

lemma system_ok_step:
  assumes "sys_step is_call other_write s s'" "system_ok s"
  shows "system_ok s'"
  using assms
proof (cases rule: sys_step.cases)
  case (step_call k g)
  have h: "holds (((sy_go s)(k := g)) l) = holds (sy_go s l)"
      "open_record (((sy_go s)(k := g)) l) = open_record (sy_go s l)"
      "own_record (((sy_go s)(k := g)) l) = own_record (sy_go s l)" for l
    using step_call is_call_holds [of g] by simp_all
  show ?thesis
    using assms(2) unfolding system_ok_def locks_ok_def records_ok_def owners_ok_def in_hand_def step_call(1)
    by (simp add: h del: fun_upd_apply)
next
  case (step_turn now r ans k g db locks)
  then show ?thesis
    using assms(2) unfolding system_ok_def
    by (simp add: locks_ok_turn records_ok_turn owners_ok_turn) (auto intro: turn_db_ok)
next
  case (step_other db)
  have "owners_ok (s\<lparr>sy_db := db\<rparr>)" "records_ok (s\<lparr>sy_db := db\<rparr>)"
    using assms(2) other_records [OF step_other(2)]
    unfolding system_ok_def owners_ok_def records_ok_def by auto
  then show ?thesis
    using assms(2) step_other other_db_ok unfolding system_ok_def locks_ok_def by simp
qed

lemma system_ok_start:
  assumes "db_ok db"
  shows "system_ok (sys_start now db)"
proof -
  have "list_all (\<lambda>d. d_Status d \<noteq> DeployInProgress) (db_deployments (sy_db (sys_start now db)))"
    unfolding sys_start_def System.simps
    by (rule restart_settled [THEN conjunct2, THEN conjunct2, THEN conjunct1])
  then have "records_ok (sys_start now db)"
    by (auto simp: records_ok_def in_hand_def list_all_iff)
  then show ?thesis
    using assms by (simp add: system_ok_def locks_ok_def owners_ok_def sys_start_def wf_intros)
qed

lemma system_ok_interleaved:
  assumes "db_ok db" "interleaved (sys_start now db) s"
  shows "system_ok s"
  using assms(2)
  by (induction rule: rtranclp_induct) (simp_all add: system_ok_start assms(1) system_ok_step)

lemma system_ok_facts:
  assumes "system_ok s"
  shows "db_ok (sy_db s)"
    and "\<forall>i. i \<in> set (sy_locks s) \<longleftrightarrow> (\<exists>!k. holds (sy_go s k) = Some i)"
    and "\<forall>d \<in> set (db_deployments (sy_db s)). d_Status d = DeployInProgress \<longrightarrow>
      (\<exists>k. open_record (sy_go s k) = Some (d_ID d) \<and> holds (sy_go s k) = Some (d_ProjectID d))"
    and "\<forall>d \<in> set (db_deployments (sy_db s)). \<forall>d' \<in> set (db_deployments (sy_db s)).
      d_Status d = DeployInProgress \<longrightarrow> d_Status d' = DeployInProgress \<longrightarrow>
      d_ProjectID d = d_ProjectID d' \<longrightarrow> d = d'"
proof -
  show ok: "db_ok (sy_db s)" using assms by (simp add: system_ok_def)
  have one: "holds (sy_go s k) = Some i \<Longrightarrow> holds (sy_go s l) = Some i \<Longrightarrow> k = l" for k l i
    using assms by (auto simp: system_ok_def locks_ok_def)
  then show "\<forall>i. i \<in> set (sy_locks s) \<longleftrightarrow> (\<exists>!k. holds (sy_go s k) = Some i)"
    using assms unfolding system_ok_def locks_ok_def by (metis (no_types))
  show rec: "\<forall>d \<in> set (db_deployments (sy_db s)). d_Status d = DeployInProgress \<longrightarrow>
      (\<exists>k. open_record (sy_go s k) = Some (d_ID d) \<and> holds (sy_go s k) = Some (d_ProjectID d))"
    using assms by (simp add: system_ok_def records_ok_def in_hand_def)
  have "distinct (map d_ID (db_deployments (sy_db s)))"
    using ok by (simp add: db_ok_def deployments_ok_def)
  then have ids: "d \<in> set (db_deployments (sy_db s)) \<Longrightarrow> d' \<in> set (db_deployments (sy_db s)) \<Longrightarrow>
      d_ID d = d_ID d' \<Longrightarrow> d = d'" for d d'
    by (auto simp: distinct_map inj_on_def)
  show "\<forall>d \<in> set (db_deployments (sy_db s)). \<forall>d' \<in> set (db_deployments (sy_db s)).
      d_Status d = DeployInProgress \<longrightarrow> d_Status d' = DeployInProgress \<longrightarrow>
      d_ProjectID d = d_ProjectID d' \<longrightarrow> d = d'"
    using rec one ids by (metis option.inject)
qed

text \<open>
  Property C4. In every interleaving of deployments, rollbacks, stops, starts and
  reconciliations with the other writers of the database, from any well-formed database the
  daemon starts on: a lock is held by exactly one goroutine, which is between taking and
  releasing it; a record in progress is that of the goroutine that holds the lock of its
  project; and no project has two of them.
\<close>

theorem one_deployment_at_a_time:
  assumes "db_ok db" "interleaved (sys_start now db) s"
  shows "db_ok (sy_db s) \<and>
    (\<forall>i. i \<in> set (sy_locks s) \<longleftrightarrow> (\<exists>!k. holds (sy_go s k) = Some i)) \<and>
    (\<forall>d \<in> set (db_deployments (sy_db s)). d_Status d = DeployInProgress \<longrightarrow>
       (\<exists>k. open_record (sy_go s k) = Some (d_ID d) \<and> holds (sy_go s k) = Some (d_ProjectID d))) \<and>
    (\<forall>d \<in> set (db_deployments (sy_db s)). \<forall>d' \<in> set (db_deployments (sy_db s)).
       d_Status d = DeployInProgress \<longrightarrow> d_Status d' = DeployInProgress \<longrightarrow>
       d_ProjectID d = d_ProjectID d' \<longrightarrow> d = d')"
  using system_ok_interleaved [OF assms] by (intro conjI) (rule system_ok_facts, assumption)+

section \<open>What the lock keeps\<close>

text \<open>The digests of the last successful deployment of a project, and that its row has them.\<close>

definition project_rows :: "DB \<Rightarrow> string \<Rightarrow> Deployment list" where
  "project_rows db i = filter (\<lambda>d. d_ProjectID d = i) (db_deployments db)"

definition last_deployed :: "Deployment list \<Rightarrow> smap" where
  "last_deployed ds = foldl (\<lambda>m d. if d_Status d = DeploySuccess then d_ToDigests d else m) [] ds"

definition agrees :: "DB \<Rightarrow> string \<Rightarrow> bool" where
  "agrees db i \<longleftrightarrow>
     (\<forall>s. state_of db i = Some s \<longrightarrow> st_CurrentDigests s = last_deployed (project_rows db i))"

text \<open>Deployments and rollbacks only, and no other writer that deletes a project.\<close>

fun deploy_call :: "Goroutine \<Rightarrow> bool" where
  "deploy_call (CallDeploy p t trigger) = True"
| "deploy_call (CallRollback p) = True"
| "deploy_call g = False"

definition kept_write :: "DB \<Rightarrow> DB \<Rightarrow> bool" where
  "kept_write db db' \<longleftrightarrow>
     other_write db db' \<and> table_keys (db_projects db) \<subseteq> table_keys (db_projects db')"

definition holding :: "DB \<Rightarrow> Project \<Rightarrow> ProjectState \<Rightarrow> bool" where
  "holding db p s \<longleftrightarrow> st_ProjectID s = p_ID p \<and> agrees db (p_ID p) \<and>
     (\<exists>r. state_of db (p_ID p) = Some r \<and> st_CurrentDigests r = st_CurrentDigests s)"

definition row_open :: "DB \<Rightarrow> Project \<Rightarrow> nat \<Rightarrow> smap \<Rightarrow> bool" where
  "row_open db p n t \<longleftrightarrow> (\<exists>ds d. project_rows db (p_ID p) = ds @ [d] \<and> d_ID d = n \<and>
     d_ToDigests d = t \<and> d_Status d \<noteq> DeploySuccess \<and> (\<forall>d' \<in> set ds. d_ID d' \<noteq> n))"

text \<open>What a goroutine knows of the database at each place.\<close>

fun fits :: "DB \<Rightarrow> Goroutine \<Rightarrow> bool" where
  "fits db Returned = True"
| "fits db (CallDeploy p t c) = True"
| "fits db (CallRollback p) = True"
| "fits db (HoldsLock p t c) = agrees db (p_ID p)"
| "fits db (HasState p t c s) = holding db p s"
| "fits db (HasRecord p t s n) = (holding db p s \<and> row_open db p n t)"
| "fits db (Working p t s n) = (holding db p s \<and> row_open db p n t)"
| "fits db (RollingBack p s n e) = (holding db p s \<and>
     (\<forall>d \<in> set (project_rows db (p_ID p)). d_ID d = n \<longrightarrow> d_Status d \<noteq> DeploySuccess))"
| "fits db (Settling p s) = holding db p s"
| "fits db (Succeeded p t s) = (st_ProjectID s = p_ID p \<and> state_of db (p_ID p) \<noteq> None \<and>
     last_deployed (project_rows db (p_ID p)) = t)"
| "fits db (Unlocking p) = agrees db (p_ID p)"
| "fits db g = False"

lemmas fits_defs = holding_def row_open_def agrees_def

definition same_view :: "string \<Rightarrow> DB \<Rightarrow> DB \<Rightarrow> bool" where
  "same_view i db db' \<longleftrightarrow> state_of db' i = state_of db i \<and> project_rows db' i = project_rows db i"

lemma agrees_view: "same_view i db db' \<Longrightarrow> agrees db' i = agrees db i"
  by (simp add: same_view_def agrees_def)

lemma fits_view:
  assumes "\<And>i. holds g = Some i \<Longrightarrow> same_view i db db'"
  shows "fits db' g = fits db g"
  using assms by (cases g) (simp_all add: same_view_def fits_defs)

text \<open>The writes of a deployment.\<close>

lemma view_UpdateState:
  "i \<noteq> st_ProjectID s \<Longrightarrow> same_view i db (UpdateState s db)"
  "project_rows (UpdateState s db) i = project_rows db i"
  "state_of db (st_ProjectID s) \<noteq> None \<Longrightarrow> state_of (UpdateState s db) (st_ProjectID s) = Some (stored_state s)"
  by (auto simp: same_view_def states.get_put project_rows_def)

lemma project_rows_finish:
  "project_rows (FinishDeployment now n st msg db) i =
     map (\<lambda>d. if d_ID d = n then d\<lparr>d_Status := st, d_EndedAt := Some (rfc3339 now), d_ErrorMessage := msg\<rparr>
       else d) (project_rows db i)"
  by (simp add: project_rows_def FinishDeployment_def filter_map comp_def if_distrib cong: if_cong)

lemma last_deployed_snoc:
  "last_deployed (ds @ [d]) = (if d_Status d = DeploySuccess then d_ToDigests d else last_deployed ds)"
  by (simp add: last_deployed_def)

lemma last_deployed_finish:
  assumes "\<forall>d \<in> set ds. d_ID d = n \<longrightarrow> d_Status d \<noteq> DeploySuccess" "st \<noteq> DeploySuccess"
  shows "last_deployed (map (\<lambda>d. if d_ID d = n then d\<lparr>d_Status := st, d_EndedAt := e, d_ErrorMessage := msg\<rparr>
    else d) ds) = last_deployed ds"
  using assms by (induction ds rule: rev_induct) (simp_all add: last_deployed_snoc last_deployed_def [of "[]"])

lemma state_of_finish: "state_of (FinishDeployment now n st msg db) i = state_of db i"
  by (simp add: state_of_map FinishDeployment_def)

lemma state_of_insert: "state_of (snd (InsertDeployment d db)) i = state_of db i"
  by (simp add: state_of_map InsertDeployment_def Let_def)

lemma finish_other:
  assumes "\<forall>d \<in> set (db_deployments db). d_ID d = n \<longrightarrow> d_ProjectID d = i" "j \<noteq> i"
  shows "same_view j db (FinishDeployment now n st msg db)"
proof -
  have "map (\<lambda>d. if d_ID d = n then d\<lparr>d_Status := st, d_EndedAt := Some (rfc3339 now),
      d_ErrorMessage := msg\<rparr> else d) (project_rows db j) = project_rows db j"
    using assms by (auto simp: project_rows_def intro!: map_idI)
  then show ?thesis by (simp add: same_view_def state_of_finish project_rows_finish)
qed

lemma insert_other:
  "j \<noteq> d_ProjectID d \<Longrightarrow> same_view j db (snd (InsertDeployment d db))"
  by (simp add: same_view_def state_of_insert) (simp add: project_rows_def InsertDeployment_def Let_def)

lemma same_view_refl [simp]: "same_view i db db"
  by (simp add: same_view_def)

text \<open>A turn leaves the other projects alone, and the goroutine where it fits.\<close>

lemma turn_view:
  assumes "turn now r ans g0 (db, locks) = (g, db', locks')" "fits db g0"
    and "\<And>n d. own_record g0 = Some n \<Longrightarrow> d \<in> set (db_deployments db) \<Longrightarrow> d_ID d = n \<Longrightarrow>
      Some (d_ProjectID d) = holds g0"
    and "holds g0 \<noteq> Some j"
  shows "same_view j db db'"
proof (cases g0)
  case (HasState p t c s)
  have "db' = snd (InsertDeployment (new_deployment p s t c now) db)"
    using assms(1) HasState by (auto simp: turn_defs split: turn_splits)
  then show ?thesis
    using assms(4) HasState insert_other [of j "new_deployment p s t c now" db]
    by (simp add: new_deployment_def)
next
  case (Working p t s n)
  have "\<forall>d \<in> set (db_deployments db). d_ID d = n \<longrightarrow> d_ProjectID d = p_ID p"
    using assms(3) Working by auto
  from finish_other [OF this, of j] show ?thesis
    using assms(1,4) Working by (auto simp: turn_defs split: turn_splits)
next
  case (RollingBack p s n e)
  have "\<forall>d \<in> set (db_deployments db). d_ID d = n \<longrightarrow> d_ProjectID d = p_ID p"
    using assms(3) RollingBack by auto
  from finish_other [OF this, of j] show ?thesis
    using assms(1,4) RollingBack by (auto simp: turn_defs split: turn_splits)
qed (use assms in \<open>auto simp: turn_defs holding_def intro!: view_UpdateState split: turn_splits\<close>)

lemma holding_update:
  assumes "holding db p s" "st_ProjectID s' = p_ID p" "st_CurrentDigests s' = st_CurrentDigests s"
  shows "holding (UpdateState s' db) p s'" "agrees (UpdateState s' db) (p_ID p)"
  using assms view_UpdateState(2,3) [where s = s' and db = db]
  by (auto simp: holding_def agrees_def stored_state_def)

lemma row_open_update: "row_open (UpdateState s db) p n t = row_open db p n t"
  by (simp add: row_open_def view_UpdateState)

lemma holding_finish:
  assumes "holding db p s" "st \<noteq> DeploySuccess"
    and "\<forall>d \<in> set (project_rows db (p_ID p)). d_ID d = n \<longrightarrow> d_Status d \<noteq> DeploySuccess"
  shows "holding (FinishDeployment now n st msg db) p s"
  using assms last_deployed_finish [OF assms(3,2)]
  by (simp add: holding_def agrees_def state_of_finish project_rows_finish)

lemma fits_insert:
  assumes "db_ok db" "holding db p s"
    and "InsertDeployment (new_deployment p s t c now) db = (Inr n, db')"
  shows "fits db' (HasRecord p t (s\<lparr>st_Status := StatusDeploying, st_DesiredDigests := t\<rparr>) n)"
proof -
  let ?d = "(new_deployment p s t c now)\<lparr>d_ID := n, d_StartedAt := rfc3339 now\<rparr>"
  have rows: "project_rows db' (p_ID p) = project_rows db (p_ID p) @ [?d]"
    using assms(3) by (auto simp: InsertDeployment_def Let_def project_rows_def new_deployment_def
        fmtTime_def split: if_splits)
  have "d_ID d \<noteq> n" if "d \<in> set (project_rows db (p_ID p))" for d
    using assms(1,3) that
    by (auto simp: InsertDeployment_def Let_def project_rows_def db_ok_def deployments_ok_def split: if_splits)
  moreover have "state_of db' (p_ID p) = state_of db (p_ID p)"
    using state_of_insert [of "new_deployment p s t c now" db "p_ID p"] assms(3) by simp
  ultimately show ?thesis
    using assms(2) rows
    by (simp add: holding_def agrees_def row_open_def last_deployed_snoc new_deployment_def)
qed

lemma fits_finish_success:
  assumes "holding db p s" "row_open db p n t"
  shows "fits (FinishDeployment now n DeploySuccess '''' db) (Succeeded p t s)"
  using assms
  by (auto simp: holding_def row_open_def state_of_finish project_rows_finish last_deployed_snoc)

lemma fits_succeeded:
  assumes "fits db (Succeeded p t s)" "st_ProjectID s' = p_ID p" "st_CurrentDigests s' = t"
  shows "agrees (UpdateState s' db) (p_ID p)"
  using assms view_UpdateState(2,3) [where s = s' and db = db]
  by (auto simp: agrees_def stored_state_def)

lemma row_open_status:
  "row_open db p n t \<Longrightarrow> \<forall>d \<in> set (project_rows db (p_ID p)). d_ID d = n \<longrightarrow> d_Status d \<noteq> DeploySuccess"
  by (auto simp: row_open_def)

lemma turn_fits:
  assumes "turn now r ans g0 (db, locks) = (g, db', locks')" "fits db g0" "db_ok db"
    and "\<And>i. i \<notin> set locks \<Longrightarrow> agrees db i"
  shows "fits db' g"
proof (cases g0)
  case (CallRollback p)
  then show ?thesis using assms(1) by (auto simp: turn_defs split: turn_splits)
next
  case (HoldsLock p t c)
  then show ?thesis
    using assms(1,2) GetState_ok(1) [OF assms(3), of "p_ID p"]
    by (auto simp: turn_defs holding_def state_of_def split: turn_splits)
next
  case (HasState p t c s)
  then show ?thesis
    using assms(1,2) fits_insert [OF assms(3), of p s t c now]
    by (auto simp: turn_defs holding_def InsertDeployment_def Let_def split: turn_splits)
next
  case (HasRecord p t s n)
  then show ?thesis
    using assms(1,2) by (auto simp: turn_defs row_open_update holding_def [of db] intro!: holding_update)
next
  case (Working p t s n)
  with assms(2) have h: "holding db p s" "row_open db p n t" by simp_all
  note f = row_open_status [OF h(2)]
  show ?thesis
  proof (cases r)
    case (Inl err)
    have "holding (FinishDeployment now n DeployFailed err db) p s"
      by (rule holding_finish [OF h(1) _ f]) simp
    moreover have "\<forall>d \<in> set (project_rows (FinishDeployment now n DeployFailed err db) (p_ID p)).
        d_ID d = n \<longrightarrow> d_Status d \<noteq> DeploySuccess"
      by (simp add: project_rows_finish ball_Un)
    ultimately show ?thesis using assms(1) Working Inl by (auto simp: turn_defs)
  next
    case (Inr u)
    then show ?thesis
      using fits_finish_success [OF h, of now] assms(1) Working
      unfolding turn_defs by (simp del: fits.simps)
  qed
next
  case (RollingBack p s n e)
  then show ?thesis
    using assms(1,2) holding_finish [of db p s DeployRolledBack n]
    by (auto simp: turn_defs holding_def split: turn_splits)
next
  case (Settling p s)
  then show ?thesis
    using assms(1,2) by (auto simp: turn_defs holding_def [of db] intro!: holding_update)
next
  case (Succeeded p t s)
  then show ?thesis
    using assms(1,2) by (auto simp: turn_defs intro!: fits_succeeded)
qed (use assms in \<open>auto simp: turn_defs split: turn_splits\<close>)

lemma state_of_keys:
  assumes "db_ok db"
  shows "i \<in> table_keys (db_states db) \<longleftrightarrow> state_of db i \<noteq> None"
    "i \<in> table_keys (db_projects db) \<longleftrightarrow> state_of db i \<noteq> None"
proof -
  show "i \<in> table_keys (db_states db) \<longleftrightarrow> state_of db i \<noteq> None"
    by (simp add: state_of_map map_of_table_keys)
  moreover have "table_keys (db_states db) = table_keys (db_projects db)"
    using assms by (simp add: db_ok_def states_ok_def)
  ultimately show "i \<in> table_keys (db_projects db) \<longleftrightarrow> state_of db i \<noteq> None" by simp
qed

lemma map_of_insert_new:
  "k \<notin> table_keys t \<Longrightarrow> map_of (sql_insert k r t) j = (if j = k then Some r else map_of t j)"
  using map_of_sql_insert [of t k r] by (auto simp: map_of_table_keys)

text \<open>The other writers leave the view of a project with a row alone.\<close>

lemma other_view:
  assumes "kept_write db db'" "db_ok db" "state_of db i \<noteq> None"
  shows "same_view i db db'"
proof -
  have "i \<in> table_keys (db_states db)" "i \<in> table_keys (db_projects db)"
    using assms(3) state_of_keys [OF assms(2)] by blast+
  moreover have "i \<in> table_keys (db_projects db) \<longrightarrow> i \<in> table_keys (db_projects db')"
    using assms(1) by (auto simp: kept_write_def)
  moreover have "other_write db db'" using assms(1) by (simp add: kept_write_def)
  ultimately show ?thesis
    by (elim other_write.cases)
       (auto simp: same_view_def state_of_map project_rows_def CreateProject_def UpdateProject_def
          DeleteProject_def CreateTunnel_def UpdateTunnel_def db_DeleteTunnel_def SetPassword_def
          InsertBackupRun_def FinishBackupRun_def Let_def map_of_sql_delete map_of_insert_new
          filter_filter conj_commute cong: conj_cong split: turn_splits)
qed

lemma other_agrees:
  assumes "kept_write db db'" "db_ok db" "agrees db i"
  shows "agrees db' i"
proof (cases "state_of db i")
  case (Some s)
  then show ?thesis using other_view [OF assms(1,2)] agrees_view assms(3) by blast
next
  case None
  then have no: "i \<notin> table_keys (db_states db)" "i \<notin> table_keys (db_projects db)"
    using state_of_keys [OF assms(2)] by blast+
  then have rows: "\<forall>d \<in> set (db_deployments db). d_ProjectID d \<noteq> i"
    using assms(2) by (auto simp: db_ok_def deployments_ok_def)
  have w: "other_write db db'" using assms(1) by (simp add: kept_write_def)
  then have "project_rows db' i = []"
    using other_records [OF w] rows by (auto simp: project_rows_def filter_empty_conv)
  moreover from w None no have "state_of db' i = None \<or> state_of db' i = Some (initial_state i)"
    by (induction rule: other_write.induct)
       (auto simp: state_of_map CreateProject_def UpdateProject_def DeleteProject_def CreateTunnel_def
          UpdateTunnel_def db_DeleteTunnel_def SetPassword_def InsertBackupRun_def FinishBackupRun_def
          Let_def map_of_sql_delete map_of_insert_new split: turn_splits)
  ultimately show ?thesis by (auto simp: agrees_def last_deployed_def initial_state_def)
qed

lemma other_fits:
  assumes "kept_write db db'" "db_ok db" "fits db g"
  shows "fits db' g"
proof (cases "\<exists>i. holds g = Some i \<and> state_of db i = None")
  case True
  then show ?thesis
    using assms(3) by (cases g) (auto simp: holding_def intro: other_agrees [OF assms(1,2)])
next
  case False
  then have "fits db' g = fits db g"
    by (intro fits_view other_view [OF assms(1,2)]) auto
  then show ?thesis using assms(3) by simp
qed

lemma turn_releases:
  assumes "turn now r ans g0 (db, locks) = (g, db', locks')" "holds g0 = Some i" "i \<in> set locks" "i \<notin> set locks'"
  shows "db' = db \<and> (\<exists>p. g0 = Unlocking p \<and> p_ID p = i)"
  using assms by (cases g0) (auto simp: turn_defs split: turn_splits)

definition digests_ok :: "System \<Rightarrow> bool" where
  "digests_ok s \<longleftrightarrow> system_ok s \<and> (\<forall>k. fits (sy_db s) (sy_go s k)) \<and>
     (\<forall>i. i \<notin> set (sy_locks s) \<longrightarrow> agrees (sy_db s) i)"

lemma deploy_call_facts: "deploy_call g \<Longrightarrow> is_call g \<and> fits db g"
  by (cases g) simp_all

lemma digests_ok_step:
  assumes "sys_step deploy_call kept_write s s'" "digests_ok s"
  shows "digests_ok s'"
proof -
  have "sys_step is_call other_write s s'"
    using assms(1) by (cases rule: sys_step.cases)
      (auto intro: sys_step.intros simp: kept_write_def deploy_call_facts)
  then have ok': "system_ok s'" using system_ok_step assms(2) by (simp add: digests_ok_def)
  have ok: "system_ok s" and fit: "fits (sy_db s) (sy_go s k)"
    and free: "i \<notin> set (sy_locks s) \<Longrightarrow> agrees (sy_db s) i" for k i
    using assms(2) by (simp_all add: digests_ok_def)
  have db: "db_ok (sy_db s)" using ok by (simp add: system_ok_def)
  show ?thesis
    using assms(1)
  proof (cases rule: sys_step.cases)
    case (step_call k g)
    then show ?thesis
      using ok' fit free deploy_call_facts [OF step_call(3)] by (auto simp: digests_ok_def)
  next
    case (step_other db')
    then show ?thesis
      using ok' fit free other_fits [OF step_other(2) db] other_agrees [OF step_other(2) db]
      by (auto simp: digests_ok_def)
  next
    case (step_turn now r ans k g db' locks)
    have view: "same_view j (sy_db s) db'" if "holds (sy_go s k) \<noteq> Some j" for j
      using that ok by (intro turn_view [OF step_turn(2) fit]) (auto simp: system_ok_def owners_ok_def)
    have self: "fits db' g" by (rule turn_fits [OF step_turn(2) fit db free])
    have one: "holds (sy_go s l) = Some i \<Longrightarrow> holds (sy_go s k) = Some i \<Longrightarrow> l = k" for l i
      using ok by (auto simp: system_ok_def locks_ok_def)
    have held: "holds (sy_go s l) = Some i \<Longrightarrow> i \<in> set (sy_locks s)" for l i
      using ok by (auto simp: system_ok_def locks_ok_def)
    have "fits db' (sy_go s l) = fits (sy_db s) (sy_go s l)" if "l \<noteq> k" for l
      using that one by (intro fits_view view) auto
    moreover have "agrees db' i" if "i \<notin> set locks" for i
    proof (cases "holds (sy_go s k) = Some i")
      case True
      then have "fits db' (sy_go s k)" "\<exists>p. sy_go s k = Unlocking p \<and> p_ID p = i"
        using that turn_releases [OF step_turn(2) True] held [OF True] fit by auto
      then show ?thesis by auto
    next
      case False
      then have "i \<notin> set (sy_locks s)"
        using that turn_locks [OF step_turn(2)] by auto
      then show ?thesis using agrees_view [OF view [OF False]] free by simp
    qed
    ultimately show ?thesis
      using ok' self fit unfolding step_turn(1) digests_ok_def by simp
  qed
qed

lemma restart_deployments:
  "db_deployments (ResetStaleBackups now (ResetStaleStates now db)) =
     map (\<lambda>d. if d_Status d = DeployInProgress then interrupted now d else d) (db_deployments db)"
  by (rule restart_settled [THEN conjunct2, THEN conjunct1])

lemma agrees_restart:
  assumes "agrees db i"
  shows "agrees (ResetStaleBackups now (ResetStaleStates now db)) i"
proof -
  have "last_deployed (map (\<lambda>d. if d_Status d = DeployInProgress then interrupted now d else d) ds) =
      last_deployed ds" for ds
    by (induction ds rule: rev_induct) (auto simp: last_deployed_snoc interrupted_def)
  moreover have "project_rows (ResetStaleBackups now (ResetStaleStates now db)) i =
      map (\<lambda>d. if d_Status d = DeployInProgress then interrupted now d else d) (project_rows db i)"
    by (simp add: project_rows_def restart_deployments filter_map comp_def interrupted_def if_distrib
        cong: if_cong)
  moreover have "state_of (ResetStaleBackups now (ResetStaleStates now db)) i =
      map_option (\<lambda>s. if st_Status s = StatusDeploying
        then s\<lparr>st_Status := StatusFailed, st_LastError := ''interrupted by restart''\<rparr> else s) (state_of db i)"
    by (simp add: state_of_map ResetStaleBackups_def ResetStaleStates_def map_of_sql_update_all)
  ultimately show ?thesis using assms by (auto simp: agrees_def)
qed

text \<open>
  Property C6. As long as only deployments and rollbacks run, in any number of goroutines and
  any order of turns, with any other writers that delete no project: whenever the lock of a
  project is free, its row has the digests of its last successful deployment as the current ones.
\<close>

theorem lock_keeps_digests:
  assumes "db_ok db" "\<forall>i. agrees db i"
    and "(sys_step deploy_call kept_write)\<^sup>*\<^sup>* (sys_start now db) s" "i \<notin> set (sy_locks s)"
  shows "agrees (sy_db s) i"
proof -
  have "digests_ok (sys_start now db)"
    using assms(1,2) system_ok_start [of db now] agrees_restart
    by (auto simp: digests_ok_def sys_start_def)
  with assms(3) have "digests_ok s"
    by (induction rule: rtranclp_induct) (simp_all add: digests_ok_step)
  then show ?thesis using assms(4) by (simp add: digests_ok_def)
qed

section \<open>Schedules\<close>

datatype Move =
    StartGo nat Goroutine
  | NextTurn nat int "unit result"

text \<open>A schedule played; a call of a goroutine that is not free is dropped.\<close>

fun play_move :: "Move \<Rightarrow> System \<Rightarrow> System" where
  "play_move (StartGo k g) s =
     (if sy_go s k = Returned \<and> is_call g then s\<lparr>sy_go := (sy_go s)(k := g)\<rparr> else s)"
| "play_move (NextTurn k now r) s =
     (case turn now r (\<lambda>n. Inl '''') (sy_go s k) (sy_db s, sy_locks s) of
        (g, db, locks) \<Rightarrow> s\<lparr>sy_db := db, sy_locks := locks, sy_go := (sy_go s)(k := g)\<rparr>)"

definition play :: "Move list \<Rightarrow> System \<Rightarrow> System" where
  "play ms s = foldl (\<lambda>s m. play_move m s) s ms"

lemma play_move_step:
  assumes "\<And>k g. m = StartGo k g \<Longrightarrow> calls g"
  shows "(sys_step calls writes)\<^sup>*\<^sup>* s (play_move m s)"
proof (cases m)
  case (StartGo k g)
  then show ?thesis using assms by (auto intro: step_call)
next
  case (NextTurn k now r)
  then show ?thesis by (auto intro: step_turn split: prod.splits)
qed

lemma play_steps:
  assumes "\<And>k g. StartGo k g \<in> set ms \<Longrightarrow> calls g"
  shows "(sys_step calls writes)\<^sup>*\<^sup>* s (play ms s)"
  using assms unfolding play_def
proof (induction ms rule: rev_induct)
  case (snoc m ms)
  have ms: "\<And>k g. StartGo k g \<in> set ms \<Longrightarrow> calls g" and m: "\<And>k g. m = StartGo k g \<Longrightarrow> calls g"
    using snoc.prems by force+
  from rtranclp_trans [OF snoc.IH [OF ms] play_move_step [OF m]] show ?case by simp
qed simp

lemma play_simps: "play [] s = s" "play (m # ms) s = play ms (play_move m s)"
  by (simp_all add: play_def)

lemma deploy_effect_state:
  "state_of db i \<noteq> None \<Longrightarrow> state_of (deploy_effect i st fin db) i = Some st"
  by (auto simp: state_of_map deploy_effect_def map_of_sql_update)

text \<open>Two goroutines.\<close>

definition duo :: "Goroutine \<Rightarrow> Goroutine \<Rightarrow> Shared \<Rightarrow> System" where
  "duo g0 g1 sh = \<lparr>sy_db = fst sh, sy_locks = snd sh, sy_go = (\<lambda>k. Returned)(0 := g0, 1 := g1)\<rparr>"

lemma play_duo:
  "is_call g \<Longrightarrow> play (StartGo 0 g # ms) (duo Returned g1 sh) = play ms (duo g g1 sh)"
  "is_call g \<Longrightarrow> play (StartGo 1 g # ms) (duo g0 Returned sh) = play ms (duo g0 g sh)"
  "turn now r (\<lambda>n. Inl '''') g0 sh = (g, sh') \<Longrightarrow>
     play (NextTurn 0 now r # ms) (duo g0 g1 sh) = play ms (duo g g1 sh')"
  "turn now r (\<lambda>n. Inl '''') g1 sh = (g, sh') \<Longrightarrow>
     play (NextTurn 1 now r # ms) (duo g0 g1 sh) = play ms (duo g0 g sh')"
  by (cases sh; cases sh'; simp add: play_simps duo_def fun_upd_twist)+

lemma sys_start_duo: "sys_start now db = duo Returned Returned (sy_db (sys_start now db), [])"
  by (simp add: sys_start_def duo_def fun_eq_iff)

text \<open>A deployment up to the work, and from there to a successful end.\<close>

definition deploying_row :: "ProjectState \<Rightarrow> smap \<Rightarrow> ProjectState" where
  "deploying_row s t = s\<lparr>st_Status := StatusDeploying, st_DesiredDigests := t\<rparr>"

definition deployed_row :: "ProjectState \<Rightarrow> smap \<Rightarrow> ProjectState" where
  "deployed_row s t = s\<lparr>st_PreviousDigests := st_CurrentDigests s, st_CurrentDigests := t,
    st_Status := StatusRunning, st_LastDeployAt := Some 0, st_LastSuccessAt := Some 0, st_LastError := ''''\<rparr>"

definition begun_record :: "Project \<Rightarrow> ProjectState \<Rightarrow> smap \<Rightarrow> DB \<Rightarrow> Deployment" where
  "begun_record p s t db = (new_deployment p s t TriggerManual 0)\<lparr>d_ID := Suc (db_deploy_seq db),
     d_StartedAt := rfc3339 0, d_EndedAt := None\<rparr>"

definition ended_record :: "Project \<Rightarrow> ProjectState \<Rightarrow> smap \<Rightarrow> DB \<Rightarrow> Deployment" where
  "ended_record p s t db = (begun_record p s t db)\<lparr>d_Status := DeploySuccess,
     d_EndedAt := Some (rfc3339 0), d_ErrorMessage := ''''\<rparr>"

lemmas row_defs = deploying_row_def deployed_row_def begun_record_def ended_record_def

definition deploy_moves :: "Project \<Rightarrow> smap \<Rightarrow> Move list" where
  "deploy_moves p t = StartGo 0 (CallDeploy p t TriggerManual) # replicate 4 (NextTurn 0 0 (Inr ()))"

abbreviation ok_turn :: "Goroutine \<Rightarrow> Shared \<Rightarrow> Goroutine \<times> Shared" where
  "ok_turn \<equiv> turn 0 (Inr ()) (\<lambda>n. Inl '''')"

lemma deploy_begins:
  assumes "db_ok db" "GetState db (p_ID p) = Inr s"
  shows "play (deploy_moves p t @ ms) (duo Returned g1 (db, [])) =
    play ms (duo (Working p t (deploying_row s t) (Suc (db_deploy_seq db))) g1
      (deploy_effect (p_ID p) (stored_state (deploying_row s t)) (begun_record p s t db) db, [p_ID p]))"
proof -
  let ?i = "p_ID p" and ?n = "Suc (db_deploy_seq db)" and ?st = "deploying_row s t"
  let ?new = "new_deployment p s t TriggerManual 0"
  let ?ins = "snd (InsertDeployment ?new db)"
  have id: "st_ProjectID s = ?i" and key: "?i \<in> table_keys (db_projects db)"
    using GetState_ok [OF assms] .
  have new: "d_ProjectID ?new = ?i" "d_EndedAt ?new = None" "d_StartedAt ?new = 0"
    by (simp_all add: new_deployment_def)
  have t1: "ok_turn (CallDeploy p t TriggerManual) (db, []) = (HoldsLock p t TriggerManual, db, [?i])"
    and t2: "ok_turn (HoldsLock p t TriggerManual) (db, [?i]) = (HasState p t TriggerManual s, db, [?i])"
    and t3: "ok_turn (HasState p t TriggerManual s) (db, [?i]) = (HasRecord p t ?st ?n, ?ins, [?i])"
    using assms(2) key new(1) by (simp_all add: turn_defs InsertDeployment_def Let_def row_defs)
  have t4: "ok_turn (HasRecord p t ?st ?n) (?ins, [?i]) =
      (Working p t ?st ?n, deploy_effect ?i (stored_state ?st) (begun_record p s t db) db, [?i])"
    using InsertDeployment_effect(2) [of ?new db ?st ?i] id key new
    by (simp add: turn_defs stored_state_def row_defs)
  show ?thesis
    by (simp add: deploy_moves_def numeral_eq_Suc play_duo(1) play_duo(3) [OF t1] play_duo(3) [OF t2]
        play_duo(3) [OF t3] play_duo(3) [OF t4])
qed

lemma deploy_ends:
  assumes "db_ok db" "st_ProjectID st = p_ID p"
  shows "play (replicate 3 (NextTurn 0 0 (Inr ())) @ ms) (duo (Working p t st (Suc (db_deploy_seq db))) g1
      (deploy_effect (p_ID p) st' (begun_record p s t db) db, [p_ID p])) =
    play ms (duo Returned g1
      (deploy_effect (p_ID p) (stored_state (deployed_row st t)) (ended_record p s t db) db, []))"
proof -
  let ?E = "\<lambda>st fin. deploy_effect (p_ID p) st fin db" and ?n = "Suc (db_deploy_seq db)"
  let ?begun = "begun_record p s t db" and ?ended = "ended_record p s t db"
  have t1: "ok_turn (Working p t st ?n) (?E st' ?begun, [p_ID p]) =
      (Succeeded p t st, ?E st' ?ended, [p_ID p])"
    using FinishDeployment_effect [OF assms(1), of ?begun] by (simp add: turn_defs row_defs)
  have t2: "ok_turn (Succeeded p t st) (?E st' ?ended, [p_ID p]) =
      (Unlocking p, ?E (stored_state (deployed_row st t)) ?ended, [p_ID p])"
    using UpdateState_effect [of "deployed_row st t" "p_ID p"] assms(2)
    by (simp add: turn_defs stored_state_def deployed_row_def)
  have t3: "ok_turn (Unlocking p) (?E (stored_state (deployed_row st t)) ?ended, [p_ID p]) =
      (Returned, ?E (stored_state (deployed_row st t)) ?ended, [])"
    by (simp add: turn_defs)
  show ?thesis
    by (simp add: numeral_eq_Suc play_duo(3) [OF t1] play_duo(3) [OF t2] play_duo(3) [OF t3])
qed

text \<open>A deployment that succeeds while a stop has read the row and not yet written it.\<close>

definition stop_meets_deploy :: "Project \<Rightarrow> smap \<Rightarrow> Move list" where
  "stop_meets_deploy p t = deploy_moves p t @ [StartGo 1 (CallStop p), NextTurn 1 0 (Inr ())] @
     replicate 3 (NextTurn 0 0 (Inr ())) @ [NextTurn 1 0 (Inr ()), NextTurn 1 0 (Inr ())]"

lemma play_stop_meets_deploy:
  assumes "db_ok db" "GetState db (p_ID p) = Inr s"
  shows "\<exists>st. play (stop_meets_deploy p t) (duo Returned Returned (db, [])) =
      duo Returned Returned (deploy_effect (p_ID p) st (ended_record p s t db) db, []) \<and>
    st_CurrentDigests st = st_CurrentDigests s"
proof -
  let ?E = "\<lambda>st fin. deploy_effect (p_ID p) st fin db" and ?st = "deploying_row s t"
  let ?begun = "begun_record p s t db" and ?ended = "ended_record p s t db"
  let ?stopping = "(stored_state ?st)\<lparr>st_Status := StatusStopping\<rparr>"
  let ?stopped = "?stopping\<lparr>st_Status := StatusStopped\<rparr>"
  have id: "st_ProjectID s = p_ID p" using GetState_ok [OF assms] by simp
  have has: "state_of db (p_ID p) \<noteq> None" using assms(2) by (simp add: state_of_def)
  have t1: "ok_turn (CallStop p) (?E (stored_state ?st) ?begun, [p_ID p]) =
      (StopRead p (Some ?stopping), ?E (stored_state ?st) ?begun, [p_ID p])"
    using has by (simp add: turn_defs deploy_effect_state)
  have t2: "ok_turn (StopRead p (Some ?stopping)) (?E st ?ended, []) =
      (StopDown p (Some ?stopping), ?E (stored_state ?stopping) ?ended, [])"
    and t3: "ok_turn (StopDown p (Some ?stopping)) (?E st ?ended, []) =
      (Returned, ?E (stored_state ?stopped) ?ended, [])" for st
    using UpdateState_effect [of ?stopping "p_ID p"] UpdateState_effect [of ?stopped "p_ID p"] id
    by (simp_all add: turn_defs stored_state_def put_row_def deploying_row_def)
  have pid: "st_ProjectID ?st = p_ID p" using id by (simp add: deploying_row_def)
  have "play (stop_meets_deploy p t) (duo Returned Returned (db, [])) = duo Returned Returned (?E (stored_state ?stopped) ?ended, [])"
    unfolding stop_meets_deploy_def append_assoc
    by (simp only: deploy_begins [OF assms] append.simps play_duo(2) is_call.simps play_duo(4) [OF t1]
        deploy_ends [OF assms(1) pid] play_duo(4) [OF t2] play_duo(4) [OF t3] play_simps(1))
  then show ?thesis
    by (intro exI [of _ "stored_state ?stopped"]) (simp add: stored_state_def deploying_row_def)
qed


end
