(* ===== verification/Demo_Race.thy ===== *)
theory Demo_Race
  imports Demo Deploy_Race
begin

text \<open>
  Interleavings of the concrete installation: a deployment in progress, one that ends, and a
  stop that meets one.
\<close>

text \<open>The project as it is before its first deployment.\<close>

definition race_db :: DB where
  "race_db = demo_db\<lparr>db_states := [(''app'', initial_state ''app'')]\<rparr>"

lemma race_db_ok: "db_ok race_db"
  by (simp add: race_db_def demo_db_def db_ok_defs empty_db_def rows_all_def table_ok_def table_keys_def
      project_columns_def demo_project_def zero_project_def initial_state_def
      isEncryptedSecret_def secretPrefix_def)

lemma race_agrees: "agrees race_db i"
  by (auto simp: agrees_def state_of_map race_db_def demo_db_def empty_db_def initial_state_def
      project_rows_def last_deployed_def)

lemma race_start: "sys_start 0 race_db = duo Returned Returned (race_db, [])"
proof -
  have "sy_db (sys_start 0 race_db) = race_db"
    by (simp add: sys_start_def race_db_def demo_db_def empty_db_def ResetStaleBackups_def
        ResetStaleStates_def sql_update_all_def initial_state_def)
  with sys_start_duo [of 0 race_db] show ?thesis by metis
qed

lemma race_state: "GetState race_db (p_ID demo_project) = Inr (initial_state ''app'')"
  by (simp add: GetState_def race_db_def demo_project_def)

definition race_middle :: System where
  "race_middle = play (deploy_moves demo_project demo_targets) (sys_start 0 race_db)"

definition race_end :: System where
  "race_end = play (deploy_moves demo_project demo_targets @ replicate 3 (NextTurn 0 0 (Inr ())))
     (sys_start 0 race_db)"

lemma race_middle_is:
  "\<exists>g. race_middle = duo g Returned (deploy_effect (p_ID demo_project)
     (stored_state (deploying_row (initial_state ''app'') demo_targets))
     (begun_record demo_project (initial_state ''app'') demo_targets race_db) race_db, [p_ID demo_project])"
  using deploy_begins [OF race_db_ok race_state, of demo_targets "[]" Returned]
  unfolding race_middle_def race_start append_Nil2 play_simps(1) by blast

lemma race_end_is:
  "race_end = duo Returned Returned (deploy_effect (p_ID demo_project)
     (stored_state (deployed_row (deploying_row (initial_state ''app'') demo_targets) demo_targets))
     (ended_record demo_project (initial_state ''app'') demo_targets race_db) race_db, [])"
proof -
  have "st_ProjectID (deploying_row (initial_state ''app'') demo_targets) = p_ID demo_project"
    by (simp add: deploying_row_def initial_state_def demo_project_def)
  from deploy_ends [OF race_db_ok this, of "[]", unfolded append_Nil2 play_simps(1)] show ?thesis
    by (simp only: race_end_def race_start deploy_begins [OF race_db_ok race_state])
qed

lemma race_middle: "sy_locks race_middle = [''app'']"
    "map d_Status (db_deployments (sy_db race_middle)) = [DeployInProgress]"
proof -
  obtain g where m: "race_middle = duo g Returned (deploy_effect (p_ID demo_project)
     (stored_state (deploying_row (initial_state ''app'') demo_targets))
     (begun_record demo_project (initial_state ''app'') demo_targets race_db) race_db, [p_ID demo_project])"
    using race_middle_is by blast
  show "sy_locks race_middle = [''app'']"
    unfolding m by (simp add: duo_def demo_project_def)
  show "map d_Status (db_deployments (sy_db race_middle)) = [DeployInProgress]"
    unfolding m by (simp add: duo_def deploy_effect_def begun_record_def new_deployment_def
      race_db_def demo_db_def empty_db_def)
qed

lemma race_end: "sy_locks race_end = []"
    "map_option st_CurrentDigests (state_of (sy_db race_end) ''app'') = Some demo_targets"
proof -
  have "state_of race_db (p_ID demo_project) \<noteq> None" using race_state by (simp add: state_of_def)
  from deploy_effect_state [OF this] show
    "map_option st_CurrentDigests (state_of (sy_db race_end) ''app'') = Some demo_targets"
    unfolding race_end_is by (simp add: duo_def stored_state_def deployed_row_def demo_project_def)
  show "sy_locks race_end = []" unfolding race_end_is by (simp add: duo_def)
qed

lemma one_deployment_at_a_time_witness:
  "(\<exists>!k. holds (sy_go race_middle k) = Some ''app'') \<and>
   map d_Status (db_deployments (sy_db race_middle)) = [DeployInProgress]"
proof -
  have "interleaved (sys_start 0 race_db) race_middle"
    unfolding race_middle_def by (rule play_steps) (auto simp: deploy_moves_def)
  from one_deployment_at_a_time [OF race_db_ok this, THEN conjunct2, THEN conjunct1, THEN spec, of "''app''"]
  show ?thesis by (simp only: race_middle) simp
qed

lemma lock_keeps_digests_witness:
  "agrees (sy_db race_end) ''app'' \<and>
   map_option st_CurrentDigests (state_of (sy_db race_end) ''app'') = Some demo_targets"
proof -
  have "(sys_step deploy_call kept_write)\<^sup>*\<^sup>* (sys_start 0 race_db) race_end"
    unfolding race_end_def by (rule play_steps) (auto simp: deploy_moves_def)
  from lock_keeps_digests [OF race_db_ok _ this, of "''app''"] race_agrees
  have "agrees (sy_db race_end) ''app''" by (simp only: race_end) simp
  with race_end(2) show ?thesis by (rule conjI [rotated])
qed


end
