(* ===== verification/Hub.thy ===== *)
theory Hub
  imports Bbsit_Types "HOL-Library.Sublist"
begin

text \<open>
  \<open>internal/web/ws.go\<close>: the hub that hands the deployer's events to the connected browsers. The
  goroutines (the loop of the hub, two pumps per connection, the deployer, the ones that drop a slow
  client) take turns; a turn is an action and \<open>hub_exec\<close> says whether it can be taken now, what it
  leaves, or that it panics (sending on or closing a closed channel). Deadlines and pings appear as
  reads and writes that fail. The JSON of an event is a parameter.
\<close>

section \<open>State\<close>

datatype Pump = NotStarted | Running | Leaving | Gone

text \<open>A connection: its channel, its subscriptions, the two pumps and what was written to the socket.\<close>

record ws_client =
  cl_send :: "string list"
  cl_closed :: bool
  cl_projects :: "string list"
  cl_reader :: Pump
  cl_writer :: Pump
  cl_open :: bool
  cl_sent :: "string list"

text \<open>Who waits to send a client to the channel \<open>unregister\<close>: its reader or a goroutine of the hub.\<close>

datatype leave = FromReader nat | FromHub nat

record Hub =
  hub_clients :: "nat list"
  hub_register :: "nat list"
  hub_unregister :: "leave list"
  hub_event :: "Event list"
  hub_stop :: bool
  hub_running :: bool
  hub_conn :: "nat \<Rightarrow> ws_client"
  hub_next :: nat

definition new_client :: ws_client where
  "new_client = \<lparr>cl_send = [], cl_closed = False, cl_projects = [], cl_reader = NotStarted, cl_writer = NotStarted,
     cl_open = True, cl_sent = []\<rparr>"

definition NewHub :: Hub where
  "NewHub = \<lparr>hub_clients = [], hub_register = [], hub_unregister = [], hub_event = [], hub_stop = False,
     hub_running = True, hub_conn = (\<lambda>c. new_client), hub_next = 0\<rparr>"

definition event_capacity :: nat where
  "event_capacity = 256"

definition send_capacity :: nat where
  "send_capacity = 64"

datatype 'h outcome = Blocked | Panics | Next 'h

definition upd_client :: "nat \<Rightarrow> (ws_client \<Rightarrow> ws_client) \<Rightarrow> Hub \<Rightarrow> Hub" where
  "upd_client c f h = h\<lparr>hub_conn := (hub_conn h)(c := f (hub_conn h c))\<rparr>"

section \<open>The deployer's side\<close>

text \<open>A full buffer drops the event; the deployer never waits.\<close>

definition OnEvent :: "Event \<Rightarrow> Hub \<Rightarrow> Hub" where
  "OnEvent e h = (if length (hub_event h) < event_capacity then h\<lparr>hub_event := hub_event h @ [e]\<rparr> else h)"

definition hub_Stop :: "Hub \<Rightarrow> Hub outcome" where
  "hub_Stop h = (if hub_stop h then Panics else Next (h\<lparr>hub_stop := True\<rparr>))"

section \<open>The loop of the hub\<close>

definition close_send :: "nat \<Rightarrow> Hub \<Rightarrow> Hub outcome" where
  "close_send c h = (if cl_closed (hub_conn h c) then Panics else Next (upd_client c (\<lambda>cl. cl\<lparr>cl_closed := True\<rparr>) h))"

fun close_all :: "nat list \<Rightarrow> Hub \<Rightarrow> Hub outcome" where
  "close_all [] h = Next h"
| "close_all (c # cs) h = (case close_send c h of
      Next h' \<Rightarrow> close_all cs (h'\<lparr>hub_clients := removeAll c (hub_clients h')\<rparr>) | r \<Rightarrow> r)"

definition run_stop :: "Hub \<Rightarrow> Hub outcome" where
  "run_stop h =
     (if \<not> hub_running h \<or> \<not> hub_stop h then Blocked
      else case close_all (hub_clients h) h of Next h' \<Rightarrow> Next (h'\<lparr>hub_running := False\<rparr>) | r \<Rightarrow> r)"

text \<open>The client is received; \<open>HandleWS\<close> goes on and starts the pumps.\<close>

definition run_register :: "nat \<Rightarrow> Hub \<Rightarrow> Hub outcome" where
  "run_register c h =
     (if \<not> hub_running h \<or> c \<notin> set (hub_register h) then Blocked
      else Next (upd_client c (\<lambda>cl. cl\<lparr>cl_reader := Running, cl_writer := Running\<rparr>)
        (h\<lparr>hub_clients := List.insert c (hub_clients h), hub_register := remove1 c (hub_register h)\<rparr>)))"

text \<open>A reader that was received closes its connection.\<close>

definition left_reader :: "leave \<Rightarrow> Hub \<Rightarrow> Hub" where
  "left_reader l h = (case l of FromHub c \<Rightarrow> h
     | FromReader c \<Rightarrow> upd_client c (\<lambda>cl. cl\<lparr>cl_reader := Gone, cl_open := False\<rparr>) h)"

definition leaver :: "leave \<Rightarrow> nat" where
  "leaver l = (case l of FromHub c \<Rightarrow> c | FromReader c \<Rightarrow> c)"

definition run_unregister :: "leave \<Rightarrow> Hub \<Rightarrow> Hub outcome" where
  "run_unregister l h =
     (if \<not> hub_running h \<or> l \<notin> set (hub_unregister h) then Blocked
      else let h = left_reader l (h\<lparr>hub_unregister := remove1 l (hub_unregister h)\<rparr>) in
        if leaver l \<in> set (hub_clients h)
        then (case close_send (leaver l) h of
            Next h' \<Rightarrow> Next (h'\<lparr>hub_clients := removeAll (leaver l) (hub_clients h')\<rparr>) | r \<Rightarrow> r)
        else Next h)"

definition isSubscribed :: "ws_client \<Rightarrow> string \<Rightarrow> bool" where
  "isSubscribed cl projectID \<longleftrightarrow> projectID \<in> set (cl_projects cl)"

definition send_one :: "string \<Rightarrow> nat \<Rightarrow> Hub \<Rightarrow> Hub outcome" where
  "send_one data c h =
     (if cl_closed (hub_conn h c) then Panics
      else if length (cl_send (hub_conn h c)) < send_capacity
      then Next (upd_client c (\<lambda>cl. cl\<lparr>cl_send := cl_send cl @ [data]\<rparr>) h)
      else Next (h\<lparr>hub_unregister := hub_unregister h @ [FromHub c]\<rparr>))"

fun send_all :: "string \<Rightarrow> string \<Rightarrow> nat list \<Rightarrow> Hub \<Rightarrow> Hub outcome" where
  "send_all project data [] h = Next h"
| "send_all project data (c # cs) h =
     (if isSubscribed (hub_conn h c) project
      then (case send_one data c h of Next h' \<Rightarrow> send_all project data cs h' | r \<Rightarrow> r)
      else send_all project data cs h)"

text \<open>The order of the clients is that of \<open>hub_clients\<close>; it only shows in the order of the waiting goroutines.\<close>

definition run_event :: "(Event \<Rightarrow> string option) \<Rightarrow> Hub \<Rightarrow> Hub outcome" where
  "run_event marshal h =
     (if \<not> hub_running h then Blocked
      else case hub_event h of
        [] \<Rightarrow> Blocked
      | e # es \<Rightarrow> let h = h\<lparr>hub_event := es\<rparr> in
          (case marshal e of None \<Rightarrow> Next h | Some data \<Rightarrow> send_all (ev_ProjectID e) data (hub_clients h) h))"

section \<open>A connection\<close>

text \<open>\<open>HandleWS\<close> up to the registration, which waits for the hub.\<close>

definition HandleWS :: "Hub \<Rightarrow> Hub outcome" where
  "HandleWS h = Next (h\<lparr>hub_conn := (hub_conn h)(hub_next h := new_client), hub_register := hub_register h @ [hub_next h],
     hub_next := Suc (hub_next h)\<rparr>)"

record ClientMessage =
  cm_Action :: string
  cm_ProjectIDs :: "string list"

definition apply_message :: "ClientMessage \<Rightarrow> ws_client \<Rightarrow> ws_client" where
  "apply_message cm cl =
     (if cm_Action cm = ''subscribe'' then cl\<lparr>cl_projects := cm_ProjectIDs cm\<rparr>
      else if cm_Action cm = ''unsubscribe''
      then cl\<lparr>cl_projects := filter (\<lambda>i. i \<notin> set (cm_ProjectIDs cm)) (cl_projects cl)\<rparr>
      else if cm_Action cm = ''unsubscribe_all'' then cl\<lparr>cl_projects := []\<rparr>
      else cl)"

text \<open>\<open>readPump\<close>: a message (\<open>None\<close> when it is not JSON), or an error, after which it waits to leave.\<close>

definition read_message :: "nat \<Rightarrow> ClientMessage option \<Rightarrow> Hub \<Rightarrow> Hub outcome" where
  "read_message c m h =
     (if cl_reader (hub_conn h c) \<noteq> Running \<or> \<not> cl_open (hub_conn h c) then Blocked
      else Next (case m of None \<Rightarrow> h | Some cm \<Rightarrow> upd_client c (apply_message cm) h))"

definition read_error :: "nat \<Rightarrow> Hub \<Rightarrow> Hub outcome" where
  "read_error c h =
     (if cl_reader (hub_conn h c) \<noteq> Running then Blocked
      else Next (upd_client c (\<lambda>cl. cl\<lparr>cl_reader := Leaving\<rparr>) (h\<lparr>hub_unregister := hub_unregister h @ [FromReader c]\<rparr>)))"

text \<open>\<open>writePump\<close>: the next message, whose write may fail, the end of a closed channel, or a failed ping.\<close>

definition write_next :: "nat \<Rightarrow> bool \<Rightarrow> Hub \<Rightarrow> Hub outcome" where
  "write_next c fails h =
     (let cl = hub_conn h c in
      if cl_writer cl \<noteq> Running then Blocked
      else case cl_send cl of
        m # ms \<Rightarrow>
          Next (upd_client c (\<lambda>cl. if fails then cl\<lparr>cl_send := ms, cl_writer := Gone, cl_open := False\<rparr>
            else cl\<lparr>cl_send := ms, cl_sent := cl_sent cl @ [m]\<rparr>) h)
      | [] \<Rightarrow> if cl_closed cl then Next (upd_client c (\<lambda>cl. cl\<lparr>cl_writer := Gone, cl_open := False\<rparr>) h) else Blocked)"

definition ping_fails :: "nat \<Rightarrow> Hub \<Rightarrow> Hub outcome" where
  "ping_fails c h =
     (if cl_writer (hub_conn h c) \<noteq> Running then Blocked
      else Next (upd_client c (\<lambda>cl. cl\<lparr>cl_writer := Gone, cl_open := False\<rparr>) h))"

section \<open>All turns\<close>

datatype hub_act =
    DoEvent Event | DoStop | RunStop | RunRegister nat | RunUnregister leave | RunEvent
  | DoHandleWS | DoRead nat "ClientMessage option" | DoReadError nat | DoWrite nat bool | DoPingFails nat

definition hub_exec :: "(Event \<Rightarrow> string option) \<Rightarrow> hub_act \<Rightarrow> Hub \<Rightarrow> Hub outcome" where
  "hub_exec marshal a h = (case a of
     DoEvent e \<Rightarrow> Next (OnEvent e h)
   | DoStop \<Rightarrow> hub_Stop h
   | RunStop \<Rightarrow> run_stop h
   | RunRegister c \<Rightarrow> run_register c h
   | RunUnregister l \<Rightarrow> run_unregister l h
   | RunEvent \<Rightarrow> run_event marshal h
   | DoHandleWS \<Rightarrow> HandleWS h
   | DoRead c m \<Rightarrow> read_message c m h
   | DoReadError c \<Rightarrow> read_error c h
   | DoWrite c fails \<Rightarrow> write_next c fails h
   | DoPingFails c \<Rightarrow> ping_fails c h)"

text \<open>The hubs that some order of turns leads to.\<close>

inductive hub_reaches :: "(Event \<Rightarrow> string option) \<Rightarrow> hub_act list \<Rightarrow> Hub \<Rightarrow> bool" for marshal where
  start: "hub_reaches marshal [] NewHub"
| turn: "hub_reaches marshal as h \<Longrightarrow> hub_exec marshal a h = Next h' \<Longrightarrow> hub_reaches marshal (as @ [a]) h'"

inductive_simps reaches_NewHub: "hub_reaches marshal [] h"
inductive_cases reaches_snoc: "hub_reaches marshal (as @ [a]) h"

section \<open>Whole turns of the loop\<close>

text \<open>Sending to distinct open clients, and closing them, is one update of all.\<close>

definition has_room :: "Hub \<Rightarrow> nat \<Rightarrow> bool" where
  "has_room h c \<longleftrightarrow> length (cl_send (hub_conn h c)) < send_capacity"

definition sent_conn :: "string \<Rightarrow> string \<Rightarrow> nat list \<Rightarrow> Hub \<Rightarrow> nat \<Rightarrow> ws_client" where
  "sent_conn p d cs h c =
     (if c \<in> set cs \<and> isSubscribed (hub_conn h c) p \<and> has_room h c
      then (hub_conn h c)\<lparr>cl_send := cl_send (hub_conn h c) @ [d]\<rparr> else hub_conn h c)"

definition overflown :: "string \<Rightarrow> nat list \<Rightarrow> Hub \<Rightarrow> nat list" where
  "overflown p cs h = filter (\<lambda>c. isSubscribed (hub_conn h c) p \<and> \<not> has_room h c) cs"

definition closed_conn :: "nat list \<Rightarrow> Hub \<Rightarrow> nat \<Rightarrow> ws_client" where
  "closed_conn cs h c = (if c \<in> set cs then (hub_conn h c)\<lparr>cl_closed := True\<rparr> else hub_conn h c)"

lemma send_all_eq:
  assumes "distinct cs" and "\<forall>c\<in>set cs. \<not> cl_closed (hub_conn h c)"
  shows "send_all p d cs h = Next (h\<lparr>hub_conn := sent_conn p d cs h,
    hub_unregister := hub_unregister h @ map FromHub (overflown p cs h)\<rparr>)"
  using assms
proof (induction cs arbitrary: h)
  case Nil
  have "sent_conn p d [] h = hub_conn h"
    by (simp add: sent_conn_def fun_eq_iff)
  then show ?case by (simp add: overflown_def)
next
  case (Cons c cs)
  consider (other) "\<not> isSubscribed (hub_conn h c) p"
    | (room) "isSubscribed (hub_conn h c) p" "has_room h c"
    | (full) "isSubscribed (hub_conn h c) p" "\<not> has_room h c" by blast
  then show ?case
  proof cases
    case other
    then have "sent_conn p d (c # cs) h = sent_conn p d cs h"
      by (auto simp: sent_conn_def fun_eq_iff)
    with other show ?thesis
      using Cons by (simp add: overflown_def)
  next
    case room
    let ?h = "upd_client c (\<lambda>cl. cl\<lparr>cl_send := cl_send cl @ [d]\<rparr>) h"
    have "sent_conn p d (c # cs) h = sent_conn p d cs ?h"
      using room Cons.prems by (auto simp: sent_conn_def has_room_def upd_client_def fun_eq_iff)
    moreover have "overflown p (c # cs) h = overflown p cs ?h"
      using room Cons.prems by (auto simp: overflown_def has_room_def upd_client_def intro: filter_cong)
    moreover have "send_all p d cs ?h = Next (?h\<lparr>hub_conn := sent_conn p d cs ?h,
        hub_unregister := hub_unregister ?h @ map FromHub (overflown p cs ?h)\<rparr>)"
      using Cons.prems by (intro Cons.IH) (auto simp: upd_client_def)
    ultimately show ?thesis
      using room Cons.prems by (simp add: send_one_def has_room_def) (simp add: upd_client_def)
  next
    case full
    let ?h = "h\<lparr>hub_unregister := hub_unregister h @ [FromHub c]\<rparr>"
    have "sent_conn p d (c # cs) h = sent_conn p d cs ?h"
      using full Cons.prems by (auto simp: sent_conn_def has_room_def fun_eq_iff)
    moreover have "overflown p (c # cs) h = c # overflown p cs ?h"
      using full by (auto simp: overflown_def has_room_def)
    moreover have "send_all p d cs ?h = Next (?h\<lparr>hub_conn := sent_conn p d cs ?h,
        hub_unregister := hub_unregister ?h @ map FromHub (overflown p cs ?h)\<rparr>)"
      using Cons.prems by (intro Cons.IH) auto
    ultimately show ?thesis
      using full Cons.prems by (simp add: send_one_def has_room_def)
  qed
qed

lemma close_all_eq:
  assumes "distinct cs" and "\<forall>c\<in>set cs. \<not> cl_closed (hub_conn h c)"
  shows "close_all cs h = Next (h\<lparr>hub_conn := closed_conn cs h,
    hub_clients := filter (\<lambda>c. c \<notin> set cs) (hub_clients h)\<rparr>)"
  using assms
proof (induction cs arbitrary: h)
  case Nil
  have "closed_conn [] h = hub_conn h"
    by (simp add: closed_conn_def fun_eq_iff)
  then show ?case by simp
next
  case (Cons c cs)
  let ?h = "(upd_client c (\<lambda>cl. cl\<lparr>cl_closed := True\<rparr>) h)\<lparr>hub_clients := removeAll c (hub_clients h)\<rparr>"
  have "closed_conn (c # cs) h = closed_conn cs ?h"
    using Cons.prems by (auto simp: closed_conn_def upd_client_def fun_eq_iff)
  moreover have "filter (\<lambda>c'. c' \<notin> set cs) (removeAll c xs) = filter (\<lambda>c'. c' \<notin> set (c # cs)) xs" for xs
    by (induction xs) auto
  moreover have "close_all cs ?h = Next (?h\<lparr>hub_conn := closed_conn cs ?h,
      hub_clients := filter (\<lambda>c. c \<notin> set cs) (hub_clients ?h)\<rparr>)"
    using Cons.prems by (intro Cons.IH) (auto simp: upd_client_def)
  ultimately show ?case
    using Cons.prems by (simp add: close_send_def del: removeAll_filter_not) (simp add: upd_client_def del: removeAll_filter_not)
qed

section \<open>The invariant\<close>

text \<open>
  A client is on one of two lists at most once: those that wait to be registered and those that are. On either
  list its channel is open, and no channel holds more than its capacity.
\<close>

definition hub_ok :: "Hub \<Rightarrow> bool" where
  "hub_ok h \<longleftrightarrow> distinct (hub_register h @ hub_clients h) \<and>
     (\<forall>c\<in>set (hub_register h) \<union> set (hub_clients h). c < hub_next h \<and> \<not> cl_closed (hub_conn h c)) \<and>
     length (hub_event h) \<le> event_capacity \<and> (\<forall>c. length (cl_send (hub_conn h c)) \<le> send_capacity)"

lemmas hub_act_defs = OnEvent_def HandleWS_def read_message_def read_error_def write_next_def ping_fails_def
  run_register_def upd_client_def

lemma conn_bounds:
  assumes "\<forall>c. length (cl_send (hub_conn h c)) \<le> send_capacity"
  shows "length (cl_send (sent_conn p d cs h c)) \<le> send_capacity" "length (cl_send (closed_conn cs h c)) \<le> send_capacity"
  using assms by (auto simp: sent_conn_def closed_conn_def has_room_def)

lemma conn_closed [simp]:
  "cl_closed (sent_conn p d cs h c) = cl_closed (hub_conn h c)"
  "cl_closed (closed_conn cs h c) \<longleftrightarrow> c \<in> set cs \<or> cl_closed (hub_conn h c)"
  by (auto simp: sent_conn_def closed_conn_def)

lemma apply_message_keeps [simp]:
  "cl_closed (apply_message m cl) = cl_closed cl" "cl_send (apply_message m cl) = cl_send cl"
  "cl_sent (apply_message m cl) = cl_sent cl"  "cl_writer (apply_message m cl) = cl_writer cl"
  by (simp_all add: apply_message_def)

lemma left_reader_keeps [simp]:
  "hub_clients (left_reader l h) = hub_clients h" "hub_register (left_reader l h) = hub_register h"
  "hub_next (left_reader l h) = hub_next h" "hub_event (left_reader l h) = hub_event h"
  "hub_stop (left_reader l h) = hub_stop h" "hub_running (left_reader l h) = hub_running h"
  "hub_unregister (left_reader l h) = hub_unregister h"
  "cl_closed (hub_conn (left_reader l h) c) = cl_closed (hub_conn h c)"
  "cl_send (hub_conn (left_reader l h) c) = cl_send (hub_conn h c)"
  "cl_sent (hub_conn (left_reader l h) c) = cl_sent (hub_conn h c)"
  "cl_writer (hub_conn (left_reader l h) c) = cl_writer (hub_conn h c)"
  by (auto simp: left_reader_def upd_client_def split: leave.split)

text \<open>The turns of the loop, on a hub that satisfies the invariant.\<close>

lemma run_stop_eq:
  assumes "hub_ok h"
  shows "run_stop h = (if \<not> hub_running h \<or> \<not> hub_stop h then Blocked
     else Next (h\<lparr>hub_conn := closed_conn (hub_clients h) h, hub_clients := [], hub_running := False\<rparr>))"
  using assms by (auto simp: run_stop_def close_all_eq hub_ok_def)

lemma run_unregister_eq:
  assumes "hub_ok h"
  shows "run_unregister l h = (if \<not> hub_running h \<or> l \<notin> set (hub_unregister h) then Blocked
     else let g = left_reader l (h\<lparr>hub_unregister := remove1 l (hub_unregister h)\<rparr>) in
       Next (if leaver l \<in> set (hub_clients h)
         then g\<lparr>hub_conn := closed_conn [leaver l] g, hub_clients := removeAll (leaver l) (hub_clients h)\<rparr> else g))"
proof -
  have "closed_conn [c] g = (hub_conn g)(c := (hub_conn g c)\<lparr>cl_closed := True\<rparr>)" for c g
    by (simp add: closed_conn_def fun_eq_iff)
  then show ?thesis
    using assms by (auto simp: run_unregister_def Let_def close_send_def hub_ok_def upd_client_def)
qed

lemma run_event_eq:
  assumes "hub_ok h"
  shows "run_event marshal h = (if \<not> hub_running h then Blocked
     else case hub_event h of
       [] \<Rightarrow> Blocked
     | e # es \<Rightarrow> (case marshal e of
         None \<Rightarrow> Next (h\<lparr>hub_event := es\<rparr>)
       | Some d \<Rightarrow> Next (h\<lparr>hub_event := es, hub_conn := sent_conn (ev_ProjectID e) d (hub_clients h) h,
           hub_unregister := hub_unregister h @ map FromHub (overflown (ev_ProjectID e) (hub_clients h) h)\<rparr>)))"
proof -
  have "sent_conn p d cs (h\<lparr>hub_event := es\<rparr>) = sent_conn p d cs h" "overflown p cs (h\<lparr>hub_event := es\<rparr>) = overflown p cs h"
    for p d cs es
    by (simp_all add: sent_conn_def overflown_def has_room_def fun_eq_iff)
  then show ?thesis
    using assms by (simp add: run_event_def Let_def send_all_eq hub_ok_def split: list.split option.split)
qed

lemma hub_exec_ok:
  assumes "hub_ok h" and "hub_exec marshal a h = Next h'"
  shows "hub_ok h'"
proof (cases a)
  case (DoEvent e)
  with assms show ?thesis by (auto simp: hub_exec_def OnEvent_def hub_ok_def split: if_splits)
next
  case DoStop
  with assms show ?thesis by (auto simp: hub_exec_def hub_Stop_def hub_ok_def split: if_splits)
next
  case RunStop
  with assms show ?thesis
    by (auto simp: hub_exec_def run_stop_eq split: if_splits) (auto simp: hub_ok_def conn_bounds)
next
  case (RunRegister c)
  with assms show ?thesis
    by (auto simp: hub_exec_def hub_act_defs hub_ok_def distinct_insert dest: in_set_remove1[THEN iffD1, rotated]
      notin_set_remove1 set_remove1_subset[THEN subsetD] split: if_splits)
next
  case (RunUnregister l)
  with assms show ?thesis
    by (auto simp: hub_exec_def run_unregister_eq Let_def split: if_splits)
      (auto simp: hub_ok_def conn_bounds distinct_removeAll)
next
  case RunEvent
  with assms show ?thesis
    by (auto simp: hub_exec_def run_event_eq split: if_splits list.splits option.splits)
      (auto simp: hub_ok_def conn_bounds)
next
  case (DoWrite c fails)
  have "length ms \<le> send_capacity" if "cl_send (hub_conn h c) = m # ms" for m ms
    using assms(1) that unfolding hub_ok_def by (metis Suc_leD length_Cons)
  with assms DoWrite show ?thesis
    by (auto simp: hub_exec_def hub_act_defs hub_ok_def Let_def split: if_splits list.splits)
qed (use assms in \<open>auto simp: hub_exec_def hub_act_defs hub_ok_def new_client_def less_Suc_eq split: if_splits option.splits\<close>)

lemma reaches_ok: "hub_reaches marshal as h \<Longrightarrow> hub_ok h"
proof (induction rule: hub_reaches.induct)
  case start
  show ?case by (simp add: hub_ok_def NewHub_def new_client_def)
next
  case (turn as h a h')
  then show ?case by (blast intro: hub_exec_ok)
qed

section \<open>What a client is told\<close>

text \<open>What a turn owes to a client: the event handled while it is registered and subscribed. \<open>owed\<close> adds up a run.\<close>

definition owes :: "(Event \<Rightarrow> string option) \<Rightarrow> nat \<Rightarrow> hub_act \<Rightarrow> Hub \<Rightarrow> string list" where
  "owes marshal c a h = (case (a, hub_event h) of
      (RunEvent, e # es) \<Rightarrow> (case marshal e of
          Some d \<Rightarrow> (if c \<in> set (hub_clients h) \<and> isSubscribed (hub_conn h c) (ev_ProjectID e) then [d] else [])
        | None \<Rightarrow> [])
    | _ \<Rightarrow> [])"

fun hub_run :: "(Event \<Rightarrow> string option) \<Rightarrow> hub_act list \<Rightarrow> Hub \<Rightarrow> Hub outcome" where
  "hub_run marshal [] h = Next h"
| "hub_run marshal (a # as) h = (case hub_exec marshal a h of Next h' \<Rightarrow> hub_run marshal as h' | r \<Rightarrow> r)"

fun owed :: "(Event \<Rightarrow> string option) \<Rightarrow> nat \<Rightarrow> hub_act list \<Rightarrow> Hub \<Rightarrow> string list" where
  "owed marshal c [] h = []"
| "owed marshal c (a # as) h = (case hub_exec marshal a h of
      Next h' \<Rightarrow> owes marshal c a h @ owed marshal c as h' | _ \<Rightarrow> [])"

lemma hub_run_snoc:
  "hub_run marshal as h = Next g \<Longrightarrow> hub_run marshal (as @ [a]) h = hub_exec marshal a g"
  by (induction "as" arbitrary: h) (auto split: outcome.splits)

lemma owed_snoc:
  "hub_run marshal as h = Next g \<Longrightarrow> hub_exec marshal a g = Next g' \<Longrightarrow>
   owed marshal c (as @ [a]) h = owed marshal c as h @ owes marshal c a g"
  by (induction "as" arbitrary: h) (auto split: outcome.splits)

lemma reaches_hub_run: "hub_reaches marshal as h \<longleftrightarrow> hub_run marshal as NewHub = Next h"
proof
  show "hub_reaches marshal as h \<Longrightarrow> hub_run marshal as NewHub = Next h"
    by (induction rule: hub_reaches.induct) (simp_all add: hub_run_snoc)
  have "hub_reaches marshal bs g \<Longrightarrow> hub_run marshal as g = Next h \<Longrightarrow> hub_reaches marshal (bs @ as) h" for bs g
  proof (induction "as" arbitrary: bs g)
    case (Cons a as)
    then obtain g' where "hub_exec marshal a g = Next g'" and "hub_run marshal as g' = Next h"
      by (auto split: outcome.splits)
    with Cons show ?case
      using hub_reaches.turn by fastforce
  qed simp
  from this[OF hub_reaches.start] show "hub_run marshal as NewHub = Next h \<Longrightarrow> hub_reaches marshal as h"
    by simp
qed

text \<open>A client that missed something is on its way out: it was asked to leave, is closed, or cannot be written to.\<close>

definition on_its_way_out :: "nat \<Rightarrow> Hub \<Rightarrow> bool" where
  "on_its_way_out c h \<longleftrightarrow>
     FromHub c \<in> set (hub_unregister h) \<or> cl_closed (hub_conn h c) \<or> cl_writer (hub_conn h c) = Gone"

definition told :: "nat \<Rightarrow> Hub \<Rightarrow> string list" where
  "told c h = cl_sent (hub_conn h c) @ cl_send (hub_conn h c)"

text \<open>Who was asked to leave is or was registered; who waits to be registered has not been written to.\<close>

definition queue_ok :: "Hub \<Rightarrow> bool" where
  "queue_ok h \<longleftrightarrow>
     (\<forall>c. FromHub c \<in> set (hub_unregister h) \<longrightarrow> c < hub_next h \<and> (c \<in> set (hub_clients h) \<or> cl_closed (hub_conn h c))) \<and>
     (\<forall>c\<in>set (hub_register h). cl_writer (hub_conn h c) = NotStarted)"

lemma conn_writer [simp]:
  "cl_writer (sent_conn p d cs h c) = cl_writer (hub_conn h c)" "cl_writer (closed_conn cs h c) = cl_writer (hub_conn h c)"
  "cl_sent (sent_conn p d cs h c) = cl_sent (hub_conn h c)" "cl_sent (closed_conn cs h c) = cl_sent (hub_conn h c)"
  "cl_send (closed_conn cs h c) = cl_send (hub_conn h c)"
  by (auto simp: sent_conn_def closed_conn_def)

lemma owes_outside: "c \<notin> set (hub_clients h) \<Longrightarrow> owes marshal c a h = []"
  by (simp add: owes_def split: hub_act.split list.split option.split)

lemma owes_only_events [simp]: "a \<noteq> RunEvent \<Longrightarrow> owes marshal c a h = []"
  by (simp add: owes_def split: hub_act.split)

lemma hub_next_mono:
  assumes "hub_ok h" and "hub_exec marshal a h = Next h'"
  shows "hub_next h \<le> hub_next h'"
  using assms
  by (cases a) (auto simp: hub_exec_def hub_act_defs hub_Stop_def run_stop_eq run_unregister_eq run_event_eq Let_def
    split: if_splits list.splits option.splits)

lemma hub_exec_queue_ok:
  assumes ok: "hub_ok h" "queue_ok h" and "hub_exec marshal a h = Next h'"
  shows "queue_ok h'"
proof (cases a)
  case (RunUnregister l)
  with assms show ?thesis
    by (auto simp: hub_exec_def run_unregister_eq Let_def split: if_splits)
      (auto simp: queue_ok_def hub_ok_def dest: set_remove1_subset[THEN subsetD] split: leave.splits)
next
  case RunEvent
  with assms show ?thesis
    by (auto simp: hub_exec_def run_event_eq split: if_splits list.splits option.splits)
      (auto simp: queue_ok_def hub_ok_def overflown_def)
next
  case RunStop
  with assms show ?thesis
    by (auto simp: hub_exec_def run_stop_eq split: if_splits) (auto simp: queue_ok_def)
next
  case (RunRegister c)
  with assms show ?thesis
    by (auto simp: hub_exec_def hub_act_defs queue_ok_def hub_ok_def dest: set_remove1_subset[THEN subsetD] split: if_splits)
next
  case DoHandleWS
  with assms show ?thesis
    by (auto simp: hub_exec_def hub_act_defs queue_ok_def hub_ok_def new_client_def less_Suc_eq)
next
  case (DoWrite c fails)
  with assms show ?thesis
    by (auto simp: hub_exec_def hub_act_defs queue_ok_def Let_def split: if_splits list.splits)
next
  case (DoPingFails c)
  with assms show ?thesis
    by (auto simp: hub_exec_def hub_act_defs queue_ok_def split: if_splits)
qed (use assms in \<open>auto simp: hub_exec_def hub_act_defs hub_Stop_def queue_ok_def split: if_splits option.splits\<close>)

lemma reaches_queue_ok: "hub_reaches marshal as h \<Longrightarrow> queue_ok h"
proof (induction rule: hub_reaches.induct)
  case start
  show ?case by (simp add: queue_ok_def NewHub_def)
next
  case (turn as h a h')
  then show ?case by (blast intro: hub_exec_queue_ok reaches_ok)
qed

lemma exec_tells:
  assumes ok: "hub_ok h" "queue_ok h" and exec: "hub_exec marshal a h = Next h'"
    and old: "c < hub_next h \<or> a \<noteq> DoHandleWS"
  shows "subseq (told c h') (told c h @ owes marshal c a h) \<and>
     (told c h' = told c h @ owes marshal c a h \<or> on_its_way_out c h') \<and>
     (on_its_way_out c h \<longrightarrow> on_its_way_out c h')"
proof (cases a)
  case RunEvent
  with ok exec show ?thesis
    by (auto simp: hub_exec_def run_event_eq split: if_splits list.splits option.splits)
      (auto simp: told_def on_its_way_out_def owes_def sent_conn_def overflown_def intro: list_emb_append2)
next
  case (RunUnregister l)
  have "leaver l \<in> set (hub_clients h) \<or> cl_closed (hub_conn h (leaver l))" if "l = FromHub c" "l \<in> set (hub_unregister h)"
    using that ok(2) by (auto simp: queue_ok_def leaver_def)
  moreover have "l = FromHub c \<or> FromHub c \<in> set (remove1 l (hub_unregister h))" if "FromHub c \<in> set (hub_unregister h)"
    using that by (metis in_set_remove1)
  moreover have "leaver (FromHub c) = c"
    by (simp add: leaver_def)
  ultimately show ?thesis
    using RunUnregister ok exec
    by (auto simp: hub_exec_def run_unregister_eq Let_def split: if_splits) (auto simp: told_def on_its_way_out_def)
next
  case RunStop
  with ok exec show ?thesis
    by (auto simp: hub_exec_def run_stop_eq split: if_splits) (auto simp: told_def on_its_way_out_def)
next
  case (RunRegister c')
  with ok exec show ?thesis
    by (auto simp: hub_exec_def hub_act_defs told_def on_its_way_out_def queue_ok_def split: if_splits)
next
  case DoHandleWS
  with ok exec old show ?thesis
    by (auto simp: hub_exec_def hub_act_defs told_def on_its_way_out_def)
next
  case (DoWrite c' fails)
  with ok exec show ?thesis
    by (auto simp: hub_exec_def hub_act_defs told_def on_its_way_out_def Let_def subseq_append_le_same_iff list_emb_append_mono
      list_emb_Cons split: if_splits list.splits)
next
  case (DoPingFails c')
  with ok exec show ?thesis
    by (auto simp: hub_exec_def hub_act_defs told_def on_its_way_out_def split: if_splits)
qed (use assms in \<open>auto simp: hub_exec_def hub_act_defs hub_Stop_def told_def on_its_way_out_def split: if_splits option.splits\<close>)

lemma fresh_owed:
  assumes "hub_reaches marshal as h" and "hub_next h \<le> c"
  shows "owed marshal c as NewHub = []"
  using assms
proof (induction rule: hub_reaches.induct)
  case (turn as h a h')
  have ok: "hub_ok h"
    using turn.hyps(1) by (rule reaches_ok)
  have "hub_next h \<le> c"
    using hub_next_mono[OF ok turn.hyps(2)] turn.prems by simp
  moreover from this have "owes marshal c a h = []"
    using ok unfolding hub_ok_def by (intro owes_outside) (metis UnCI leD)
  ultimately show ?case
    using turn by (simp add: owed_snoc[OF reaches_hub_run[THEN iffD1, OF turn.hyps(1)] turn.hyps(2)])
qed simp

lemma told_is_owed:
  assumes "hub_reaches marshal as h"
  shows "subseq (told c h) (owed marshal c as NewHub) \<and>
     (told c h = owed marshal c as NewHub \<or> on_its_way_out c h)"
  using assms
proof (induction rule: hub_reaches.induct)
  case start
  show ?case by (simp add: told_def NewHub_def new_client_def)
next
  case (turn as h a h')
  have snoc: "owed marshal c (as @ [a]) NewHub = owed marshal c as NewHub @ owes marshal c a h"
    using turn.hyps by (simp add: owed_snoc reaches_hub_run)
  show ?case
  proof (cases "c < hub_next h \<or> a \<noteq> DoHandleWS")
    case True
    have "subseq (told c h @ owes marshal c a h) (owed marshal c as NewHub @ owes marshal c a h)"
      using turn.IH by (simp add: list_emb_append_mono)
    with turn.IH snoc exec_tells[OF reaches_ok reaches_queue_ok turn.hyps(2) True] turn.hyps(1) show ?thesis
      by (metis subseq_order.trans)
  next
    case False
    with turn.hyps have "told c h' = []" if "c = hub_next h" 
      using that by (auto simp: hub_exec_def HandleWS_def told_def new_client_def)
    moreover have "told c h' = told c h" "on_its_way_out c h' = on_its_way_out c h" if "c \<noteq> hub_next h"
      using that False turn.hyps by (auto simp: hub_exec_def HandleWS_def told_def on_its_way_out_def)
    moreover have "owed marshal c as NewHub = []"
      using False turn.hyps(1) by (intro fresh_owed) auto
    ultimately show ?thesis
      using turn.IH snoc False by (cases "c = hub_next h") auto
  qed
qed

text \<open>
  \<^bold>\<open>Property C36.\<close> In every order of turns, a browser is told of the events that the hub handled while it was
  registered and subscribed to their project, in that order and nothing else. If it missed one, it is on its way
  out: it was asked to leave, its channel is closed, or its socket failed.
\<close>

theorem hub_tells_in_order:
  assumes "hub_run marshal as NewHub = Next h"
  shows "subseq (told c h) (owed marshal c as NewHub) \<and>
     (told c h \<noteq> owed marshal c as NewHub \<longrightarrow> on_its_way_out c h)"
  using told_is_owed[of marshal "as" h c] assms by (auto simp: reaches_hub_run)

text \<open>
  \<^bold>\<open>Property C37.\<close> In no order of turns does a goroutine send on or close a closed channel, except when \<open>Stop\<close>
  is called a second time, and no channel holds more than its capacity.
\<close>

theorem hub_never_panics:
  assumes "hub_reaches marshal as h"
  shows "(hub_exec marshal a h = Panics \<longleftrightarrow> a = DoStop \<and> hub_stop h) \<and>
     length (hub_event h) \<le> 256 \<and> (\<forall>c. length (cl_send (hub_conn h c)) \<le> 64)"
proof -
  have ok: "hub_ok h"
    using assms by (rule reaches_ok)
  have "hub_exec marshal a h = Panics \<longleftrightarrow> a = DoStop \<and> hub_stop h"
    by (cases a) (auto simp: hub_exec_def hub_act_defs hub_Stop_def run_stop_eq[OF ok] run_unregister_eq[OF ok]
      run_event_eq[OF ok] Let_def split: list.split option.split)
  with ok show ?thesis
    by (simp add: hub_ok_def event_capacity_def send_capacity_def)
qed

text \<open>
  Once the loop has returned after \<open>Stop\<close> every connection it knew is closed, and nothing receives from the hub
  any more: a reader that leaves and a browser that connects wait for ever.
\<close>

lemma stopped_hub_is_deaf:
  assumes "hub_reaches marshal as h" and "\<not> hub_running h"
  shows "hub_clients h = [] \<and> run_register c h = Blocked \<and> run_unregister l h = Blocked \<and> run_event marshal h = Blocked"
proof -
  have "hub_running h \<or> hub_clients h = []"
    using assms(1)
  proof (induction rule: hub_reaches.induct)
    case (turn as h a h')
    then show ?case
      using reaches_ok[OF turn.hyps(1)]
      by (cases a) (auto simp: hub_exec_def hub_act_defs hub_Stop_def run_stop_eq run_unregister_eq run_event_eq Let_def
        split: if_splits list.splits option.splits)
  qed (simp add: NewHub_def)
  with assms(2) show ?thesis
    by (simp add: run_register_def run_unregister_def run_event_def)
qed

section \<open>A run\<close>

definition demo_event :: "string \<Rightarrow> string \<Rightarrow> Event" where
  "demo_event p m = \<lparr>ev_Type = EventLog, ev_ProjectID = p, ev_Timestamp = 0, ev_Step = ''pull'', ev_Status = '''',
     ev_Message = m, ev_Error = False\<rparr>"

text \<open>A browser subscribes to one of two projects and has read the first of its two events.\<close>

definition demo_turns :: "hub_act list" where
  "demo_turns = [DoHandleWS, RunRegister 0, DoRead 0 (Some \<lparr>cm_Action = ''subscribe'', cm_ProjectIDs = [''blog'']\<rparr>),
     DoEvent (demo_event ''blog'' ''a''), DoEvent (demo_event ''wiki'' ''b''), DoEvent (demo_event ''blog'' ''c''),
     RunEvent, RunEvent, RunEvent, DoWrite 0 False]"

definition demo_marshal :: "Event \<Rightarrow> string option" where
  "demo_marshal e = Some (ev_Message e)"

lemma demo_turns_told:
  "(case hub_run demo_marshal demo_turns NewHub of Next h \<Rightarrow> told 0 h = [''a'', ''c''] \<and> hub_stop h = False | _ \<Rightarrow> False)"
  by code_simp

theorem hub_tells_in_order_witness:
  "\<exists>h. hub_run demo_marshal demo_turns NewHub = Next h \<and> told 0 h = [''a'', ''c''] \<and>
     subseq [''a'', ''c''] (owed demo_marshal 0 demo_turns NewHub)"
  using demo_turns_told hub_tells_in_order[of demo_marshal demo_turns _ 0]
  by (auto split: outcome.splits)

theorem hub_never_panics_witness:
  "\<exists>h. hub_reaches demo_marshal demo_turns h \<and> hub_exec demo_marshal DoStop h \<noteq> Panics \<and> length (hub_event h) \<le> 256"
  using demo_turns_told hub_never_panics[of demo_marshal demo_turns _ DoStop]
  by (auto simp: reaches_hub_run split: outcome.splits)

end
