(* ===== verification/Routes.thy ===== *)
theory Routes
  imports Ctl_Safe
begin

text \<open>
  The routes of the daemon: \<open>Handler\<close> of \<open>internal/web/server.go\<close> for the browser and \<open>AdminMux\<close> of
  \<open>internal/web/admin.go\<close> for the admin socket, and what Go's \<open>ServeMux\<close> makes of a method and an escaped
  path. The theorem joins both ends of the socket: a command of \<open>bbsit-ctl\<close> reaches its handler, with the
  project it was given.
\<close>

section \<open>The multiplexer\<close>

definition unhex :: "char \<Rightarrow> nat option" where
  "unhex c =
     (if is_digit c then Some (of_char c - 48)
      else if CHR ''a'' \<le> c \<and> c \<le> CHR ''f'' then Some (of_char c - 87)
      else if CHR ''A'' \<le> c \<and> c \<le> CHR ''F'' then Some (of_char c - 55)
      else None)"

fun PathUnescape :: "string \<Rightarrow> string option" where
  "PathUnescape [] = Some []"
| "PathUnescape (c # s) =
     (if c \<noteq> CHR ''%'' then map_option ((#) c) (PathUnescape s)
      else case s of
        a # b # r \<Rightarrow>
          (case (unhex a, unhex b) of
             (Some x, Some y) \<Rightarrow> map_option ((#) (char_of (16 * x + y))) (PathUnescape r)
           | _ \<Rightarrow> None)
      | _ \<Rightarrow> None)"

text \<open>A segment that cannot be unescaped is taken as it is.\<close>

definition unescape_segment :: "string \<Rightarrow> string" where
  "unescape_segment s = (case PathUnescape s of None \<Rightarrow> s | Some t \<Rightarrow> t)"

datatype seg = Lit string | Wild

fun match_segs :: "seg list \<Rightarrow> string list \<Rightarrow> string list option" where
  "match_segs [] [] = Some []"
| "match_segs (Lit l # ps) (x # xs) = (if unescape_segment x = l then match_segs ps xs else None)"
| "match_segs (Wild # ps) (x # xs) = (if x = '''' then None else map_option ((#) (unescape_segment x)) (match_segs ps xs))"
| "match_segs ps xs = None"

text \<open>\<open>cleanPath\<close>: a trailing slash stays.\<close>

definition cleanPath :: "string \<Rightarrow> string" where
  "cleanPath p =
     (if p = '''' then ''/''
      else let p = (if IsAbs p then p else CHR ''/'' # p) in
        if HasSuffix p ''/'' \<and> Clean p \<noteq> ''/'' then Clean p @ ''/'' else Clean p)"

type_synonym 'h route = "string \<times> seg list \<times> 'h"

datatype 'h served = Redirected string | NotFound | MethodNotAllowed | Served 'h "string list"

definition path_segments :: "string \<Rightarrow> string list" where
  "path_segments p = tl (split_on CHR ''/'' p)"

text \<open>\<open>HEAD\<close> is served as \<open>GET\<close>. In both tables at most one pattern of a method matches a path.\<close>

definition method_matches :: "string \<Rightarrow> string \<Rightarrow> bool" where
  "method_matches m r \<longleftrightarrow> m = r \<or> (m = ''HEAD'' \<and> r = ''GET'')"

fun find_route :: "'h route list \<Rightarrow> string \<Rightarrow> string list \<Rightarrow> ('h \<times> string list) option" where
  "find_route [] m segs = None"
| "find_route ((r, ps, h) # rs) m segs =
     (case (method_matches m r, match_segs ps segs) of
        (True, Some ids) \<Rightarrow> Some (h, ids)
      | _ \<Rightarrow> find_route rs m segs)"

definition mux_serve :: "'h route list \<Rightarrow> string \<Rightarrow> string \<Rightarrow> 'h served" where
  "mux_serve rs m path =
     (if cleanPath path \<noteq> path then Redirected (cleanPath path)
      else case find_route rs m (path_segments path) of
        Some (h, ids) \<Rightarrow> Served h ids
      | None \<Rightarrow>
          if \<exists>(r, ps, h) \<in> set rs. match_segs ps (path_segments path) \<noteq> None then MethodNotAllowed else NotFound)"

section \<open>The tables\<close>

datatype AdminHandler =
    AdmListProjects | AdmGetProject | AdmExport | AdmStart | AdmStop | AdmDeploy | AdmRollback | AdmDelete | AdmImport
  | AdmBackup | AdmListBackups | AdmBackupHistory | AdmRestore

abbreviation projects_segs :: "seg list" where
  "projects_segs \<equiv> [Lit ''api'', Lit ''projects'']"

abbreviation project_segs :: "seg list" where
  "project_segs \<equiv> [Lit ''api'', Lit ''projects'', Wild]"

definition AdminMux :: "AdminHandler route list" where
  "AdminMux = [
     (''GET'', projects_segs, AdmListProjects),
     (''GET'', project_segs, AdmGetProject),
     (''GET'', project_segs @ [Lit ''export''], AdmExport),
     (''POST'', project_segs @ [Lit ''start''], AdmStart),
     (''POST'', project_segs @ [Lit ''stop''], AdmStop),
     (''POST'', project_segs @ [Lit ''deploy''], AdmDeploy),
     (''POST'', project_segs @ [Lit ''rollback''], AdmRollback),
     (''DELETE'', project_segs, AdmDelete),
     (''POST'', projects_segs @ [Lit ''import''], AdmImport),
     (''POST'', project_segs @ [Lit ''backup''], AdmBackup),
     (''GET'', project_segs @ [Lit ''backups''], AdmListBackups),
     (''GET'', project_segs @ [Lit ''backup-runs''], AdmBackupHistory),
     (''POST'', project_segs @ [Lit ''restore''], AdmRestore)]"

datatype WebHandler =
    WebAuthStatus | WebSetup | WebLogin | WebLogout | WebImport | WebListProjects | WebCreateProject | WebGetProject
  | WebExport | WebUpdateProject | WebDeleteProject | WebDeploy | WebRollback | WebStop | WebStart | WebListTunnels
  | WebCreateTunnel | WebGetTunnel | WebTunnelRoutes | WebSyncTunnel | WebUpdateTunnel | WebDeleteTunnel | WebSocket

text \<open>A handler and whether it is wrapped in \<open>apiAuth\<close>.\<close>

abbreviation open_to_all :: "WebHandler \<Rightarrow> bool \<times> WebHandler" where
  "open_to_all h \<equiv> (False, h)"

abbreviation with_apiAuth :: "WebHandler \<Rightarrow> bool \<times> WebHandler" where
  "with_apiAuth h \<equiv> (True, h)"

definition web_routes :: "(bool \<times> WebHandler) route list" where
  "web_routes = [
     (''GET'', [Lit ''api'', Lit ''auth'', Lit ''status''], open_to_all WebAuthStatus),
     (''POST'', [Lit ''api'', Lit ''auth'', Lit ''setup''], open_to_all WebSetup),
     (''POST'', [Lit ''api'', Lit ''auth'', Lit ''login''], open_to_all WebLogin),
     (''POST'', [Lit ''api'', Lit ''auth'', Lit ''logout''], with_apiAuth WebLogout),
     (''POST'', projects_segs @ [Lit ''import''], with_apiAuth WebImport),
     (''GET'', projects_segs, with_apiAuth WebListProjects),
     (''POST'', projects_segs, with_apiAuth WebCreateProject),
     (''GET'', project_segs, with_apiAuth WebGetProject),
     (''GET'', project_segs @ [Lit ''export''], with_apiAuth WebExport),
     (''PUT'', project_segs, with_apiAuth WebUpdateProject),
     (''DELETE'', project_segs, with_apiAuth WebDeleteProject),
     (''POST'', project_segs @ [Lit ''deploy''], with_apiAuth WebDeploy),
     (''POST'', project_segs @ [Lit ''rollback''], with_apiAuth WebRollback),
     (''POST'', project_segs @ [Lit ''stop''], with_apiAuth WebStop),
     (''POST'', project_segs @ [Lit ''start''], with_apiAuth WebStart),
     (''GET'', [Lit ''api'', Lit ''tunnels''], with_apiAuth WebListTunnels),
     (''POST'', [Lit ''api'', Lit ''tunnels''], with_apiAuth WebCreateTunnel),
     (''GET'', [Lit ''api'', Lit ''tunnels'', Wild], with_apiAuth WebGetTunnel),
     (''GET'', [Lit ''api'', Lit ''tunnels'', Wild, Lit ''routes''], with_apiAuth WebTunnelRoutes),
     (''POST'', [Lit ''api'', Lit ''tunnels'', Wild, Lit ''sync''], with_apiAuth WebSyncTunnel),
     (''PUT'', [Lit ''api'', Lit ''tunnels'', Wild], with_apiAuth WebUpdateTunnel),
     (''DELETE'', [Lit ''api'', Lit ''tunnels'', Wild], with_apiAuth WebDeleteTunnel),
     (''GET'', [Lit ''ws''], with_apiAuth WebSocket)]"

text \<open>What is left falls to the files of the front end (\<open>spaHandler\<close>): the file, or \<open>/\<close> where there is none.\<close>

datatype web_answer = WebRedirect string | WebFile string | WebHandled bool WebHandler "string list"

definition spaHandler :: "(string \<Rightarrow> bool) \<Rightarrow> string \<Rightarrow> web_answer" where
  "spaHandler opens path = (let p = unescape_segment path in WebFile (if opens p then p else ''/''))"

definition web_Handler :: "(string \<Rightarrow> bool) \<Rightarrow> string \<Rightarrow> string \<Rightarrow> web_answer" where
  "web_Handler opens m path = (case mux_serve web_routes m path of
     Redirected p \<Rightarrow> WebRedirect p
   | Served (auth, h) ids \<Rightarrow> WebHandled auth h ids
   | _ \<Rightarrow> spaHandler opens path)"

section \<open>Escaping is undone\<close>

lemma unhex_upper_hex: "n < 16 \<Longrightarrow> unhex (upper_hex n) = Some n"
proof -
  have "list_all (\<lambda>n. unhex (upper_hex n) = Some n) [0..<16]"
    by code_simp
  then show "n < 16 \<Longrightarrow> unhex (upper_hex n) = Some n"
    by (simp add: list_all_iff)
qed

lemma PathUnescape_Escape: "PathUnescape (PathEscape s) = Some s"
proof (induction s)
  case (Cons c s)
  let ?n = "of_char c :: nat"
  have n: "?n div 16 < 16" "?n mod 16 < 16"
    using of_char_mod_256[of c, where ?'a = nat] mod_less_divisor[of 256 ?n] by linarith+
  have "char_of (16 * (?n div 16) + ?n mod 16) = c"
    by (simp only: mult_div_mod_eq char_of_char)
  moreover have "c \<noteq> CHR ''%''" if "segment_char c"
    using that by (auto simp: segment_char_def is_digit_def)
  ultimately show ?case
    using Cons n by (simp add: PathEscape_def escape_char_def unhex_upper_hex)
qed (simp add: PathEscape_def)

lemma unescape_escape [simp]: "unescape_segment (PathEscape s) = s"
  by (simp add: unescape_segment_def PathUnescape_Escape)

lemma PathEscape_Nil [simp]: "PathEscape s = [] \<longleftrightarrow> s = []"
  by (cases s) (simp_all add: PathEscape_def escape_char_def)

lemma PathEscape_inj: "PathEscape s = PathEscape t \<Longrightarrow> s = t"
  by (metis PathUnescape_Escape option.inject)

text \<open>The three ids that a path cannot carry: cleaning removes them.\<close>

definition addressable :: "string \<Rightarrow> bool" where
  "addressable pid \<longleftrightarrow> pid \<noteq> '''' \<and> pid \<noteq> ''.'' \<and> pid \<noteq> ''..''"

lemma PathEscape_plain: "addressable pid \<Longrightarrow> plain_comp (PathEscape pid)"
proof -
  have e: "PathEscape '''' = ''''" "PathEscape ''.'' = ''.''" "PathEscape ''..'' = ''..''"
    by code_simp+
  show "addressable pid \<Longrightarrow> plain_comp (PathEscape pid)"
    using PathEscape_inj[of pid] PathEscape_chars e unfolding addressable_def plain_comp_def comp_ok_def by metis
qed

lemma plain_path:
  assumes "list_all plain_comp cs" and "cs \<noteq> []"
  shows "split_on CHR ''/'' (''/'' @ strings_Join cs ''/'') = '''' # cs"
proof -
  have "split_on CHR ''/'' (strings_Join cs ''/'') = cs"
    using assms by (intro split_on_join) (auto simp: list_all_iff plain_comp_def comp_ok_def)
  then show ?thesis
    using split_on_append_sep[of "CHR ''/''" "''''" "strings_Join cs ''/''"] by simp
qed

lemma path_segments_plain:
  assumes "list_all plain_comp cs" and "cs \<noteq> []"
  shows "path_segments (''/'' @ strings_Join cs ''/'') = cs"
  unfolding path_segments_def plain_path[OF assms] by simp

lemma cleanPath_plain:
  assumes "list_all plain_comp cs" and "cs \<noteq> []"
  shows "cleanPath (''/'' @ strings_Join cs ''/'') = ''/'' @ strings_Join cs ''/''"
proof -
  let ?p = "''/'' @ strings_Join cs ''/''"
  have p: "IsAbs ?p" "?p \<noteq> ''''"
    by (simp_all add: IsAbs_def)
  have clean: "Clean ?p = ?p"
    using foldl_clean_plain[OF assms(1), of True "[]"]
    unfolding Clean_def clean_stack_def plain_path[OF assms] by (simp add: p(1)[simplified] clean_step_def render_path_def)
  have "\<not> HasSuffix ?p ''/''"
  proof
    assume "HasSuffix ?p ''/''"
    then obtain t where "?p = t @ ''/''"
      by (auto simp: HasSuffix_iff)
    then have "'''' # cs = split_on CHR ''/'' t @ ['''']"
      using plain_path[OF assms] split_on_append_sep[of "CHR ''/''" t "''''"] by simp
    then have "last cs = ''''"
      using assms(2) by (metis last.simps last_snoc)
    with assms show False
      using last_in_set[of cs] by (auto simp: list_all_iff plain_comp_def comp_ok_def)
  qed
  then show ?thesis
    unfolding cleanPath_def Let_def if_not_P[OF p(2)] if_P[OF p(1)] clean by simp
qed

lemma serve_plain:
  assumes "list_all plain_comp cs" and "cs \<noteq> []" and "find_route rs m cs = Some (h, ids)"
  shows "mux_serve rs m (''/'' @ strings_Join cs ''/'') = Served h ids"
  unfolding mux_serve_def path_segments_plain[OF assms(1,2)] cleanPath_plain[OF assms(1,2)] by (simp add: assms(3))

section \<open>Both ends of the socket\<close>

lemma literal_segments: "list_all (\<lambda>s. plain_comp s \<and> unescape_segment s = s) [''api'', ''projects'', ''import'', ''export'', ''start'',
    ''stop'', ''deploy'', ''rollback'', ''backup'', ''backups'', ''restore'']"
  by code_simp

lemma project_route:
  assumes "addressable pid" and "find_route AdminMux m [''api'', ''projects'', PathEscape pid] = Some (h, [pid])"
  shows "mux_serve AdminMux m (project_path pid) = Served h [pid]"
proof -
  have "project_path pid = ''/'' @ strings_Join [''api'', ''projects'', PathEscape pid] ''/''"
    by (simp add: project_path_def)
  then show ?thesis
    using serve_plain[of "[''api'', ''projects'', PathEscape pid]" AdminMux m h "[pid]"] assms PathEscape_plain literal_segments
    by simp
qed

lemma action_route:
  assumes "addressable pid" and "plain_comp a" and "find_route AdminMux m [''api'', ''projects'', PathEscape pid, a] = Some (h, [pid])"
  shows "mux_serve AdminMux m (project_path pid @ CHR ''/'' # a) = Served h [pid]"
proof -
  have "project_path pid @ CHR ''/'' # a = ''/'' @ strings_Join [''api'', ''projects'', PathEscape pid, a] ''/''"
    by (simp add: project_path_def)
  then show ?thesis
    using serve_plain[of "[''api'', ''projects'', PathEscape pid, a]" AdminMux m h "[pid]"] assms PathEscape_plain literal_segments
    by simp
qed



text \<open>What the routes answer without a session: the set-up, the log-in and the files of the front end.\<close>

lemma find_route_in: "find_route rs m segs = Some (x, ids) \<Longrightarrow> x \<in> (\<lambda>(r, ps, h). h) ` set rs"
  by (induction rs m segs rule: find_route.induct) (auto split: if_splits option.splits bool.splits)

lemma open_routes:
  assumes "web_Handler opens m path = WebHandled False h ids"
  shows "h \<in> {WebAuthStatus, WebSetup, WebLogin}"
proof -
  have "find_route web_routes m (path_segments path) = Some ((False, h), ids)"
    using assms by (auto simp: web_Handler_def mux_serve_def spaHandler_def Let_def split: served.splits option.splits if_splits prod.splits)
  from find_route_in[OF this] show ?thesis
    by (simp add: web_routes_def)
qed

end
