(* ===== verification/Port_Decode.thy ===== *)
theory Port_Decode
  imports Bbsit_Types Complex_Main
begin

text \<open>
  How a port mapping is read from JSON and YAML (\<open>UnmarshalJSON\<close> and \<open>UnmarshalYAML\<close> of
  \<open>internal/types/types.go\<close>): its host port may be a text or, in the old format, a number. The readers of the
  two formats give the kind of the value and the other two fields.
\<close>

datatype JsonPort = JsonMissing | JsonNull | JsonText string | JsonNumber string | JsonOther string

text \<open>\<open>null\<close> is read into a string without an error, which leaves it empty; a number must be an integer.\<close>

definition port_UnmarshalJSON :: "JsonPort \<Rightarrow> int \<Rightarrow> string \<Rightarrow> PortMapping result" where
  "port_UnmarshalJSON raw port proto =
     (let pm = (\<lambda>h. \<lparr>pm_HostPort = h, pm_ContainerPort = port, pm_Protocol = proto\<rparr>);
        bad = (\<lambda>t. Inl (''host_port must be a string or number, got '' @ t)) in
      case raw of
        JsonMissing \<Rightarrow> bad ''''
      | JsonNull \<Rightarrow> Inr (pm '''')
      | JsonText s \<Rightarrow> Inr (pm s)
      | JsonNumber t \<Rightarrow> (case Atoi t of Some n \<Rightarrow> Inr (pm (Itoa n)) | None \<Rightarrow> bad t)
      | JsonOther t \<Rightarrow> bad t)"

datatype YamlPort = YamlText string | YamlInt int | YamlFloat rat | YamlOther string

text \<open>A floating-point number is cut off towards zero.\<close>

definition port_UnmarshalYAML :: "YamlPort \<Rightarrow> int \<Rightarrow> string \<Rightarrow> PortMapping result" where
  "port_UnmarshalYAML raw port proto =
     (let pm = (\<lambda>h. \<lparr>pm_HostPort = h, pm_ContainerPort = port, pm_Protocol = proto\<rparr>) in
      case raw of
        YamlText s \<Rightarrow> Inr (pm s)
      | YamlInt n \<Rightarrow> Inr (pm (Itoa n))
      | YamlFloat x \<Rightarrow> Inr (pm (Itoa (if 0 \<le> x then \<lfloor>x\<rfloor> else \<lceil>x\<rceil>)))
      | YamlOther t \<Rightarrow> Inl (''host_port must be a string or number, got '' @ t))"

section \<open>Reading what was written\<close>

text \<open>A mapping is written with a text; both readers give it back, and the old number reads like its text.\<close>

lemma port_roundtrip:
  "port_UnmarshalJSON (JsonText (pm_HostPort pm)) (pm_ContainerPort pm) (pm_Protocol pm) = Inr pm"
  "port_UnmarshalYAML (YamlText (pm_HostPort pm)) (pm_ContainerPort pm) (pm_Protocol pm) = Inr pm"
  by (simp_all add: port_UnmarshalJSON_def port_UnmarshalYAML_def)

lemma port_legacy:
  assumes "int64_ok n"
  shows "port_UnmarshalJSON (JsonNumber (Itoa n)) port proto = port_UnmarshalJSON (JsonText (Itoa n)) port proto"
    and "port_UnmarshalYAML (YamlInt n) port proto = port_UnmarshalYAML (YamlText (Itoa n)) port proto"
  using assms by (simp_all add: port_UnmarshalJSON_def port_UnmarshalYAML_def Atoi_Itoa)

end
