(* ===== verification/Shutdown.thy ===== *)
theory Shutdown
  imports Daemon
begin

text \<open>
  The end of the daemon: \<open>main\<close> of \<open>cmd/bbsit/main.go\<close> from the signal on with its deferred calls,
  \<open>Start\<close>, \<open>Stop\<close> and \<open>run\<close> of \<open>internal/scheduler/scheduler.go\<close>, and the goroutine of
  \<open>ServeAdminSocket\<close> that removes the socket. The goroutines take turns in any order; a turn that
  waits (on a signal, a context, the wait group) is not possible. A request of the web server is
  a use of the database at any time. The passes of the scheduler are cut at the checks of its
  context; what a pass does is in \<open>Scheduler\<close>.
\<close>

section \<open>The goroutines\<close>

datatype MainPc = MainWaiting | MainSignalled | MainStopping | MainJoining | MainClosing | MainLast | MainExited

text \<open>A pass with its projects still to come, and one that works on a project.\<close>

datatype SchedPc = SchedList | SchedPass nat | SchedReconcile nat | SchedSelect | SchedDone

datatype SocketPc = NoSocket | SocketServing | SocketClosing | SocketRemoving | SocketRemoved

record Process =
  ps_main :: MainPc
  ps_sched :: SchedPc
  ps_socket :: SocketPc
  ps_sched_cancelled :: bool
  ps_socket_cancelled :: bool
  ps_socket_file :: bool
  ps_db_open :: bool
  ps_sched_failed :: bool
  ps_request_failed :: bool

text \<open>The daemon that waits for a signal, with an admin socket or without.\<close>

definition proc_start :: "bool \<Rightarrow> Process" where
  "proc_start sock = \<lparr>ps_main = MainWaiting, ps_sched = SchedList,
     ps_socket = (if sock then SocketServing else NoSocket), ps_sched_cancelled = False,
     ps_socket_cancelled = False, ps_socket_file = sock, ps_db_open = True, ps_sched_failed = False,
     ps_request_failed = False\<rparr>"

text \<open>\<open>Stop\<close> of the scheduler: the cancel, and whether \<open>wg.Wait\<close> returns.\<close>

definition sched_cancel :: "Process \<Rightarrow> Process" where
  "sched_cancel s = s\<lparr>ps_sched_cancelled := True\<rparr>"

definition sched_joined :: "Process \<Rightarrow> bool" where
  "sched_joined s \<longleftrightarrow> ps_sched s = SchedDone"

text \<open>
  \<open>main\<close>: the signal, \<open>cancelSocket\<close>, then the deferred calls from the last to the first: \<open>cancelSocket\<close>
  again, \<open>sched.Stop\<close> (cancel, then wait) and \<open>database.Close\<close>.
\<close>

definition main_turn :: "Process \<Rightarrow> Process option" where
  "main_turn s = (case ps_main s of
     MainWaiting \<Rightarrow> Some (s\<lparr>ps_main := MainSignalled\<rparr>)
   | MainSignalled \<Rightarrow> Some (s\<lparr>ps_main := MainStopping, ps_socket_cancelled := True\<rparr>)
   | MainStopping \<Rightarrow> Some ((sched_cancel s)\<lparr>ps_main := MainJoining\<rparr>)
   | MainJoining \<Rightarrow> if sched_joined s then Some (s\<lparr>ps_main := MainClosing\<rparr>) else None
   | MainClosing \<Rightarrow> Some (s\<lparr>ps_main := MainLast, ps_db_open := False\<rparr>)
   | MainLast \<Rightarrow> Some (s\<lparr>ps_main := MainExited\<rparr>)
   | MainExited \<Rightarrow> None)"

definition sched_uses :: "Process \<Rightarrow> Process" where
  "sched_uses s = s\<lparr>ps_sched_failed := ps_sched_failed s \<or> \<not> ps_db_open s\<rparr>"

lemmas main_turn_defs = main_turn_def sched_cancel_def sched_joined_def

text \<open>
  The goroutine of the scheduler: \<open>ListProjects\<close> finds \<open>n\<close> projects, and before each of them the
  context is checked. \<open>ctx.Done\<close> of \<open>run\<close> is the turn from \<open>SchedSelect\<close>.
\<close>

definition sched_turn :: "nat \<Rightarrow> Process \<Rightarrow> Process option" where
  "sched_turn n s = (case ps_sched s of
     SchedList \<Rightarrow> Some ((sched_uses s)\<lparr>ps_sched := SchedPass n\<rparr>)
   | SchedPass 0 \<Rightarrow> Some (s\<lparr>ps_sched := SchedSelect\<rparr>)
   | SchedPass (Suc k) \<Rightarrow> Some (s\<lparr>ps_sched := if ps_sched_cancelled s then SchedSelect else SchedReconcile k\<rparr>)
   | SchedReconcile k \<Rightarrow> Some ((sched_uses s)\<lparr>ps_sched := SchedPass k\<rparr>)
   | SchedSelect \<Rightarrow> if ps_sched_cancelled s then Some (s\<lparr>ps_sched := SchedDone\<rparr>) else None
   | SchedDone \<Rightarrow> None)"

text \<open>A tick; \<open>select\<close> may take it although the context is done.\<close>

definition tick_turn :: "Process \<Rightarrow> Process option" where
  "tick_turn s = (if ps_sched s = SchedSelect then Some (s\<lparr>ps_sched := SchedList\<rparr>) else None)"

text \<open>The shutdown of the socket: closing the listener removes the file, \<open>os.Remove\<close> tries again.\<close>

definition socket_turn :: "Process \<Rightarrow> Process option" where
  "socket_turn s = (case ps_socket s of
     SocketServing \<Rightarrow> if ps_socket_cancelled s then Some (s\<lparr>ps_socket := SocketClosing\<rparr>) else None
   | SocketClosing \<Rightarrow> Some (s\<lparr>ps_socket := SocketRemoving, ps_socket_file := False\<rparr>)
   | SocketRemoving \<Rightarrow> Some (s\<lparr>ps_socket := SocketRemoved, ps_socket_file := False\<rparr>)
   | _ \<Rightarrow> None)"

datatype ProcTurn = TurnMain | TurnSched nat | TurnTick | TurnSocket | TurnRequest | TurnHttpFails

text \<open>Nothing runs after the exit. A web server that fails ends the process by \<open>os.Exit\<close>.\<close>

definition proc_turn :: "ProcTurn \<Rightarrow> Process \<Rightarrow> Process option" where
  "proc_turn t s =
     (if ps_main s = MainExited then None
      else case t of
        TurnMain \<Rightarrow> main_turn s
      | TurnSched n \<Rightarrow> sched_turn n s
      | TurnTick \<Rightarrow> tick_turn s
      | TurnSocket \<Rightarrow> socket_turn s
      | TurnRequest \<Rightarrow> Some (s\<lparr>ps_request_failed := ps_request_failed s \<or> \<not> ps_db_open s\<rparr>)
      | TurnHttpFails \<Rightarrow> Some (s\<lparr>ps_main := MainExited\<rparr>))"

fun proc_run :: "ProcTurn list \<Rightarrow> Process \<Rightarrow> Process option" where
  "proc_run [] s = Some s"
| "proc_run (t # ts) s = (case proc_turn t s of None \<Rightarrow> None | Some s' \<Rightarrow> proc_run ts s')"

lemmas proc_defs = proc_turn_def main_turn_defs sched_turn_def tick_turn_def socket_turn_def sched_uses_def

lemma proc_run_invariant:
  assumes "proc_run ts s = Some s'" "P s" "\<And>t s s'. proc_turn t s = Some s' \<Longrightarrow> P s \<Longrightarrow> P s'"
  shows "P s'"
  using assms(1,2) by (induction ts arbitrary: s) (auto split: option.splits dest: assms(3))

section \<open>The database outlives the scheduler\<close>

definition proc_ok :: "Process \<Rightarrow> bool" where
  "proc_ok s \<longleftrightarrow> \<not> ps_sched_failed s \<and> (ps_main s \<in> {MainClosing, MainLast} \<or> \<not> ps_db_open s \<longrightarrow> ps_sched s = SchedDone) \<and>
     (ps_sched s = SchedDone \<longrightarrow> ps_sched_cancelled s) \<and>
     (ps_main s \<in> {MainWaiting, MainSignalled, MainStopping} \<longrightarrow> \<not> ps_sched_cancelled s) \<and>
     (ps_main s \<in> {MainJoining, MainClosing, MainLast} \<longrightarrow> ps_sched_cancelled s)"

text \<open>A turn by its goroutine.\<close>

lemma proc_turn_cases:
  assumes "proc_turn t s = Some s'"
  obtains (main) "t = TurnMain" "main_turn s = Some s'"
  | (sched) n where "t = TurnSched n" "sched_turn n s = Some s'"
  | (tick) "t = TurnTick" "tick_turn s = Some s'"
  | (socket) "t = TurnSocket" "socket_turn s = Some s'"
  | (request) "t = TurnRequest" "s' = s\<lparr>ps_request_failed := ps_request_failed s \<or> \<not> ps_db_open s\<rparr>"
  | (http) "t = TurnHttpFails" "s' = s\<lparr>ps_main := MainExited\<rparr>"
  using assms by (cases t) (auto simp: proc_turn_def split: if_splits)

lemma proc_ok_turn:
  assumes "proc_turn t s = Some s'" "proc_ok s"
  shows "proc_ok s'"
  using assms(1)
proof (cases rule: proc_turn_cases)
  case main
  then show ?thesis
    using assms(2) by (cases "ps_main s") (auto simp: main_turn_defs proc_ok_def split: if_splits)
next
  case (sched n)
  then show ?thesis
    using assms(2)
    by (cases "ps_sched s") (auto simp: sched_turn_def sched_uses_def proc_ok_def split: if_splits nat.splits)
next
  case socket
  then have "ps_main s' = ps_main s \<and> ps_sched s' = ps_sched s \<and> ps_db_open s' = ps_db_open s \<and>
      ps_sched_cancelled s' = ps_sched_cancelled s \<and> ps_sched_failed s' = ps_sched_failed s"
    by (cases "ps_socket s") (auto simp: socket_turn_def split: if_splits)
  then show ?thesis using assms(2) by (simp add: proc_ok_def)
next
  case tick
  then have "s' = s\<lparr>ps_sched := SchedList\<rparr>" "ps_sched s = SchedSelect"
    by (simp_all add: tick_turn_def split: if_splits)
  then show ?thesis using assms(2) by (simp add: proc_ok_def)
next
  case request
  then show ?thesis using assms(2) by (simp add: proc_ok_def)
next
  case http
  then show ?thesis using assms(2) by (simp add: proc_ok_def)
qed

text \<open>
  In every order of turns, the scheduler never meets a closed database: it is closed
  only once \<open>Stop\<close> has seen the last pass end.
\<close>

lemma database_outlives_scheduler:
  assumes "proc_run ts (proc_start sock) = Some s"
  shows "\<not> ps_sched_failed s" and "\<not> ps_db_open s \<Longrightarrow> ps_sched s = SchedDone \<and> ps_sched_cancelled s"
proof -
  have "proc_ok (proc_start sock)" by (simp add: proc_ok_def proc_start_def)
  from proc_run_invariant [of ts "proc_start sock" s proc_ok, OF assms this proc_ok_turn] have "proc_ok s" .
  then show "\<not> ps_sched_failed s" "\<not> ps_db_open s \<Longrightarrow> ps_sched s = SchedDone \<and> ps_sched_cancelled s"
    by (simp_all add: proc_ok_def)
qed

section \<open>The end comes\<close>

text \<open>The turns that are left at most, once the scheduler is told to stop; a tick adds two.\<close>

definition main_left :: "MainPc \<Rightarrow> nat" where
  "main_left m = (case m of MainWaiting \<Rightarrow> 6 | MainSignalled \<Rightarrow> 5 | MainStopping \<Rightarrow> 4 | MainJoining \<Rightarrow> 3
     | MainClosing \<Rightarrow> 2 | MainLast \<Rightarrow> 1 | MainExited \<Rightarrow> 0)"

definition sched_left :: "SchedPc \<Rightarrow> nat" where
  "sched_left c = (case c of SchedList \<Rightarrow> 3 | SchedReconcile k \<Rightarrow> 3 | SchedPass k \<Rightarrow> 2 | SchedSelect \<Rightarrow> 1
     | SchedDone \<Rightarrow> 0)"

definition socket_left :: "SocketPc \<Rightarrow> nat" where
  "socket_left c = (case c of SocketServing \<Rightarrow> 3 | SocketClosing \<Rightarrow> 2 | SocketRemoving \<Rightarrow> 1 | _ \<Rightarrow> 0)"

definition turns_left :: "Process \<Rightarrow> nat" where
  "turns_left s = main_left (ps_main s) + sched_left (ps_sched s) + socket_left (ps_socket s)"

lemmas left_defs = turns_left_def main_left_def sched_left_def socket_left_def

definition own_turns :: "ProcTurn list \<Rightarrow> nat" where
  "own_turns ts = length (filter (\<lambda>t. t \<noteq> TurnRequest) ts)"

definition ticks :: "ProcTurn list \<Rightarrow> nat" where
  "ticks ts = length (filter (\<lambda>t. t = TurnTick) ts)"

lemma turns_left_turn:
  assumes "proc_turn t s = Some s'" "ps_sched_cancelled s"
  shows "ps_sched_cancelled s' \<and> own_turns [t] + turns_left s' \<le> turns_left s + 3 * ticks [t]"
  using assms(1)
proof (cases rule: proc_turn_cases)
  case main
  then show ?thesis
    using assms(2) by (cases "ps_main s")
      (auto simp: main_turn_defs left_defs own_turns_def ticks_def split: if_splits)
next
  case (sched n)
  then show ?thesis
    using assms(2) by (cases "ps_sched s")
      (auto simp: sched_turn_def sched_uses_def left_defs own_turns_def ticks_def split: if_splits nat.splits)
next
  case tick
  then show ?thesis
    using assms(2) by (auto simp: tick_turn_def left_defs own_turns_def ticks_def split: if_splits)
next
  case socket
  then show ?thesis
    using assms(2) by (cases "ps_socket s")
      (auto simp: socket_turn_def left_defs own_turns_def ticks_def split: if_splits)
next
  case http
  moreover have "ps_main s \<noteq> MainExited" using assms(1) by (auto simp: proc_turn_def)
  ultimately show ?thesis
    using assms(2) by (cases "ps_main s") (auto simp: left_defs own_turns_def ticks_def)
qed (use assms(2) in \<open>auto simp: left_defs own_turns_def ticks_def\<close>)

lemma turns_left_run:
  "proc_run ts s = Some s' \<Longrightarrow> ps_sched_cancelled s \<Longrightarrow>
   own_turns ts + turns_left s' \<le> turns_left s + 3 * ticks ts"
proof (induction ts arbitrary: s)
  case (Cons t ts)
  obtain s1 where s1: "proc_turn t s = Some s1" "proc_run ts s1 = Some s'"
    using Cons.prems(1) by (auto split: option.splits)
  from turns_left_turn [OF s1(1) Cons.prems(2)] Cons.IH [OF s1(2)] show ?case
    by (auto simp: own_turns_def ticks_def split: if_splits)
qed (simp add: own_turns_def ticks_def)

text \<open>Until the exit, \<open>main\<close> or the scheduler can go on.\<close>

lemma proc_goes_on:
  assumes "proc_ok s" "ps_main s \<noteq> MainExited"
  shows "\<exists>t s'. t \<in> {TurnMain, TurnSched 0} \<and> proc_turn t s = Some s'"
proof (cases "ps_main s = MainJoining \<and> ps_sched s \<noteq> SchedDone")
  case True
  show ?thesis
    using assms(1)
    by (intro exI [of _ "TurnSched 0"], cases "ps_sched s")
       (use True in \<open>auto simp: proc_turn_def sched_turn_def proc_ok_def split: nat.splits\<close>)
next
  case False
  then show ?thesis
    using assms(2) by (intro exI [of _ TurnMain], cases "ps_main s") (auto simp: proc_turn_def main_turn_defs)
qed

text \<open>
  Property C34. The daemon ends in an orderly way, in every order of turns from its start. The
  scheduler never meets a closed database, which is closed only once its last pass has ended.
  Until the exit, \<open>main\<close> or the scheduler can go on. And once the scheduler is told to stop, at
  most twelve turns are left, and three more for every tick that is taken although the context
  is done: a pass that is under way gives up before its next project.
\<close>

theorem daemon_stops_cleanly:
  assumes "proc_run ts (proc_start sock) = Some s"
  shows "\<not> ps_sched_failed s \<and>
    (\<not> ps_db_open s \<longrightarrow> ps_sched s = SchedDone) \<and>
    (ps_main s \<noteq> MainExited \<longrightarrow> (\<exists>t s'. t \<in> {TurnMain, TurnSched 0} \<and> proc_turn t s = Some s')) \<and>
    (ps_sched_cancelled s \<longrightarrow> (\<forall>ts' s'. proc_run ts' s = Some s' \<longrightarrow> own_turns ts' \<le> 12 + 3 * ticks ts'))"
proof -
  have "proc_ok (proc_start sock)" by (simp add: proc_ok_def proc_start_def)
  from proc_run_invariant [of ts "proc_start sock" s proc_ok, OF assms this proc_ok_turn] have ok: "proc_ok s" .
  then have "ps_sched_cancelled s \<Longrightarrow> turns_left s \<le> 12"
    by (cases "ps_main s"; cases "ps_sched s"; cases "ps_socket s") (simp_all add: left_defs proc_ok_def)
  then show ?thesis
    using turns_left_run [of _ s] proc_goes_on [OF ok] ok by (fastforce simp: proc_ok_def)
qed

text \<open>A run that ends: the signal during a pass over two projects.\<close>

definition demo_stop :: "ProcTurn list" where
  "demo_stop = [TurnSched 2, TurnSched 0, TurnMain, TurnMain, TurnMain, TurnSched 0, TurnSched 0,
     TurnTick, TurnSched 1, TurnSched 0, TurnSched 0, TurnMain, TurnMain, TurnRequest, TurnMain]"

lemma demo_stop_run:
  "map_option (\<lambda>s. (ps_main s, ps_socket_file s, ps_request_failed s)) (proc_run demo_stop (proc_start True)) =
   Some (MainExited, True, True)"
  by code_simp

lemma daemon_stops_cleanly_witness:
  "\<exists>s. proc_run demo_stop (proc_start True) = Some s \<and> ps_main s = MainExited \<and> \<not> ps_sched_failed s \<and>
     ps_socket_file s \<and> ps_request_failed s"
  using demo_stop_run daemon_stops_cleanly [of demo_stop True] by fastforce

end
